(* ===== verification/Prelude.thy ===== *)
theory Prelude
  imports Main "HOL-Library.Word" "HOL-Library.Signed_Division" "HOL-Library.Sublist"
begin

text \<open>
  Shared vocabulary of the development: Go's 64-bit signed arithmetic, the decimal
  printing and parsing of \<open>strconv\<close>, the byte-string functions of \<open>strings\<close> that
  the gateway calls, the saturating clock arithmetic of \<open>time\<close>, generic lemmas on
  filtered sums, and the interface of a transition system whose invariants are
  proved once and used by every component with a step relation.

  Go strings and byte slices are \<open>string\<close> (lists of bytes), \<open>int64\<close> values are
  \<open>int\<close> with the wrap-around written out, a \<open>time.Time\<close> is its distance in
  nanoseconds from the Unix epoch, a \<open>time.Duration\<close> is a number of nanoseconds, and
  a \<open>uuid.UUID\<close> is represented by its canonical text, so that its \<open>String\<close>
  method is the identity, two identifiers are equal exactly if their texts are, and the byte
  order of the identifiers is the lexicographic order of the texts.
\<close>

named_theorems int64_simps \<open>bounded 64-bit arithmetic\<close>
named_theorems go_defs \<open>definitions of the small helpers a proof unfolds\<close>

type_synonym time = int
type_synonym duration = int
type_synonym uuid = string

section \<open>64-bit signed integers\<close>

definition in64 :: "int \<Rightarrow> bool" where
  "in64 x \<longleftrightarrow> - (2 ^ 63) \<le> x \<and> x < 2 ^ 63"

definition wrap64 :: "int \<Rightarrow> int" where
  "wrap64 x = (x + 2 ^ 63) mod 2 ^ 64 - 2 ^ 63"

lemma wrap64_id [int64_simps]: "in64 x \<Longrightarrow> wrap64 x = x"
  by (simp add: in64_def wrap64_def)

lemma in64_wrap64 [simp]: "in64 (wrap64 x)"
proof -
  have "0 \<le> (x + 2 ^ 63) mod 2 ^ 64" and "(x + 2 ^ 63) mod 2 ^ 64 < (2 ^ 64 :: int)"
    by simp_all
  then show ?thesis unfolding in64_def wrap64_def by simp
qed

lemma wrap64_add_left [simp]: "wrap64 (wrap64 x + y) = wrap64 (x + y)"
proof -
  have "(wrap64 x + y + 2 ^ 63) mod 2 ^ 64 = ((x + 2 ^ 63) mod 2 ^ 64 + y) mod 2 ^ 64"
    by (simp add: wrap64_def)
  also have "\<dots> = (x + 2 ^ 63 + y) mod 2 ^ 64" by (rule mod_add_left_eq)
  finally show ?thesis by (simp add: wrap64_def algebra_simps)
qed

lemma wrap64_add_right [simp]: "wrap64 (x + wrap64 y) = wrap64 (x + y)"
  using wrap64_add_left [of y x] by (simp add: add.commute)

lemma wrap64_wrap64 [simp]: "wrap64 (wrap64 x) = wrap64 x"
  using wrap64_add_left [of x 0] by simp

lemma wrap64_diff_right [simp]: "wrap64 (x - wrap64 y) = wrap64 (x - y)"
proof -
  have "(x - wrap64 y + 2 ^ 63) mod 2 ^ 64 = (x - (y + 2 ^ 63) mod 2 ^ 64) mod 2 ^ 64"
    by (simp add: wrap64_def)
  also have "\<dots> = (x - (y + 2 ^ 63)) mod 2 ^ 64" by (rule mod_diff_right_eq)
  also have "\<dots> = (x - (y + 2 ^ 63) + 2 ^ 64) mod 2 ^ 64" by (rule mod_add_self2 [symmetric])
  also have "x - (y + 2 ^ 63) + 2 ^ 64 = x - y + 2 ^ 63" by simp
  finally show ?thesis by (simp add: wrap64_def)
qed

lemma wrap64_diff_left [simp]: "wrap64 (wrap64 x - y) = wrap64 (x - y)"
  using wrap64_add_left [of x "- y"] by simp

lemma wrap64_0 [simp]: "wrap64 0 = 0"
  by (simp add: wrap64_def)

text \<open>The arithmetic is that of the two's complement words of the library.\<close>

lemma wrap64_sint: "wrap64 x = sint (word_of_int x :: 64 word)"
  by (simp add: wrap64_def sint_sbintrunc' signed_take_bit_eq_take_bit_shift take_bit_eq_mod)

lemma in64_bounds [int64_simps]: "in64 x \<Longrightarrow> 0 \<le> y \<Longrightarrow> y \<le> x \<Longrightarrow> in64 y"
  by (simp add: in64_def)

lemma in64_diff [int64_simps]: "in64 x \<Longrightarrow> 0 \<le> y \<Longrightarrow> y \<le> x \<Longrightarrow> in64 (x - y)"
  by (simp add: in64_def)

lemma sdiv_pos: "0 \<le> (a::int) \<Longrightarrow> 0 < b \<Longrightarrow> a sdiv b = a div b"
  by (cases "a = 0") (simp_all add: signed_divide_int_def)

text \<open>
  \<open>time.Time.Sub\<close> saturates at the ends of \<open>time.Duration\<close>; \<open>time.Unix\<close> keeps the
  seconds in an \<open>int64\<close> counted from the year 1, so it wraps at its far end.
\<close>

definition minDuration :: duration where "minDuration = - (2 ^ 63)"
definition maxDuration :: duration where "maxDuration = 2 ^ 63 - 1"
definition Second :: duration where "Second = 1000000000"
definition unixToInternal :: int where "unixToInternal = 62135596800"

definition time_Sub :: "time \<Rightarrow> time \<Rightarrow> duration" where
  "time_Sub t u = (if t - u < minDuration then minDuration
                   else if t - u > maxDuration then maxDuration else t - u)"

definition time_Unix :: "int \<Rightarrow> time" where
  "time_Unix sec = (wrap64 (sec + unixToInternal) - unixToInternal) * Second"

definition unix_seconds :: "time \<Rightarrow> int" where
  "unix_seconds t = t div Second"

definition neg64 :: "int \<Rightarrow> int" where "neg64 x = wrap64 (- x)"

lemmas time_defs = time_Sub_def time_Unix_def unix_seconds_def neg64_def
  minDuration_def maxDuration_def Second_def unixToInternal_def

text \<open>The absolute clock difference, as the code computes it.\<close>

definition abs_drift :: "time \<Rightarrow> time \<Rightarrow> duration" where
  "abs_drift now ts = (let drift = time_Sub now ts in if drift < 0 then neg64 drift else drift)"

lemma abs_drift_near:
  assumes "\<bar>now - ts\<bar> < 2 ^ 63"
  shows "abs_drift now ts = \<bar>now - ts\<bar>"
  using assms by (auto simp: abs_drift_def time_defs wrap64_def Let_def)

lemma abs_drift_past:
  assumes "ts \<le> now"
  shows "abs_drift now ts = min (now - ts) maxDuration"
  using assms by (auto simp: abs_drift_def time_defs wrap64_def Let_def)

text \<open>
  Beyond the range of a duration in the future the saturated difference is the least
  \<open>int64\<close>, which negation leaves negative.
\<close>

lemma abs_drift_far_future:
  assumes "2 ^ 63 \<le> ts - now"
  shows "abs_drift now ts = minDuration"
proof -
  have "time_Sub now ts = minDuration" using assms by (auto simp: time_defs)
  then show ?thesis by (simp add: abs_drift_def neg64_def minDuration_def wrap64_def)
qed

section \<open>Decimal text of integers\<close>

fun show_nat :: "nat \<Rightarrow> string" where
  "show_nat n = (if n < 10 then [char_of (48 + n)]
                 else show_nat (n div 10) @ [char_of (48 + n mod 10)])"

declare show_nat.simps [simp del]

definition show_int :: "int \<Rightarrow> string" where
  "show_int x = (if x < 0 then CHR ''-'' # show_nat (nat (- x)) else show_nat (nat x))"

definition is_digit :: "char \<Rightarrow> bool" where
  "is_digit c \<longleftrightarrow> 48 \<le> (of_char c :: nat) \<and> (of_char c :: nat) \<le> 57"

fun digits_val :: "nat \<Rightarrow> string \<Rightarrow> nat" where
  "digits_val acc [] = acc"
| "digits_val acc (c # cs) = digits_val (10 * acc + (of_char c - 48)) cs"

text \<open>
  \<open>strconv.ParseInt\<close> with base 10 and 64 bits: an optional sign, at least one digit,
  digits only, and the value in range.
\<close>

definition parse_nat :: "string \<Rightarrow> nat option" where
  "parse_nat s = (if s \<noteq> [] \<and> list_all is_digit s then Some (digits_val 0 s) else None)"

definition ParseInt :: "string \<Rightarrow> int option" where
  "ParseInt s =
     (let (neg, body) = (case s of [] \<Rightarrow> (False, [])
                         | c # cs \<Rightarrow> if c = CHR ''-'' then (True, cs)
                                     else if c = CHR ''+'' then (False, cs) else (False, s))
      in case parse_nat body of
           None \<Rightarrow> None
         | Some n \<Rightarrow> (let v = (if neg then - int n else int n) in if in64 v then Some v else None))"

lemma digits_val_append: "digits_val acc (xs @ [c]) = 10 * digits_val acc xs + (of_char c - 48)"
  by (induction acc xs rule: digits_val.induct) simp_all

lemma is_digit_char_of: "n < 10 \<Longrightarrow> is_digit (char_of (48 + n :: nat))"
  by (simp add: is_digit_def of_char_of)

lemma show_nat_nonempty [simp]: "show_nat n \<noteq> []"
  by (subst show_nat.simps) simp

lemma show_nat_digits: "list_all is_digit (show_nat n)"
proof (induction n rule: show_nat.induct)
  case (1 n)
  show ?case
  proof (cases "n < 10")
    case True
    then show ?thesis by (subst show_nat.simps) (simp add: is_digit_char_of)
  next
    case False
    with "1.IH" show ?thesis by (subst show_nat.simps) (simp add: is_digit_char_of)
  qed
qed

lemma digits_val_show_nat: "digits_val 0 (show_nat n) = n"
proof (induction n rule: show_nat.induct)
  case (1 n)
  show ?case
  proof (cases "n < 10")
    case True
    then show ?thesis by (subst show_nat.simps) (simp add: of_char_of)
  next
    case False
    with "1.IH" show ?thesis
      by (subst show_nat.simps) (simp add: digits_val_append of_char_of)
  qed
qed

lemma parse_show_nat [simp]: "parse_nat (show_nat n) = Some n"
  by (simp add: parse_nat_def show_nat_digits digits_val_show_nat)

lemma show_nat_hd: "\<exists>c cs. show_nat n = c # cs \<and> is_digit c"
  using show_nat_digits [of n] by (cases "show_nat n") auto

lemma is_digit_not_sign [simp]: "is_digit c \<Longrightarrow> c \<noteq> CHR ''-'' \<and> c \<noteq> CHR ''+''"
  by (auto simp: is_digit_def)

lemma ParseInt_show_int:
  assumes "in64 x"
  shows "ParseInt (show_int x) = Some x"
proof (cases "x < 0")
  case True
  then show ?thesis using assms by (simp add: ParseInt_def show_int_def Let_def)
next
  case False
  obtain c cs where sh: "show_nat (nat x) = c # cs" and d: "is_digit c"
    using show_nat_hd by blast
  have "parse_nat (c # cs) = Some (nat x)" using parse_show_nat [of "nat x"] sh by simp
  with d False assms sh show ?thesis by (simp add: ParseInt_def show_int_def Let_def)
qed

lemma show_int_inj: "in64 x \<Longrightarrow> in64 y \<Longrightarrow> show_int x = show_int y \<Longrightarrow> x = y"
  using ParseInt_show_int by (metis option.inject)

lemma show_int_nonempty [simp]: "show_int x \<noteq> []"
  by (simp add: show_int_def)

lemma show_int_chars: "c \<in> set (show_int x) \<Longrightarrow> is_digit c \<or> c = CHR ''-''"
  using show_nat_digits by (auto simp: show_int_def list_all_iff split: if_splits)

lemma show_int_free [simp]:
  "\<not> is_digit c \<Longrightarrow> c \<noteq> CHR ''-'' \<Longrightarrow> c \<notin> set (show_int x)"
  using show_int_chars by blast

section \<open>Byte strings\<close>

definition HasPrefix :: "string \<Rightarrow> string \<Rightarrow> bool" where
  "HasPrefix s p \<longleftrightarrow> take (length p) s = p"

definition TrimPrefix :: "string \<Rightarrow> string \<Rightarrow> string" where
  "TrimPrefix s p = (if HasPrefix s p then drop (length p) s else s)"

lemma HasPrefix_iff: "HasPrefix s p \<longleftrightarrow> prefix p s"
  by (metis HasPrefix_def append_eq_conv_conj append_take_drop_id prefix_def)

text \<open>\<open>strings.Cut\<close> and \<open>strings.Split\<close> at a one-byte separator.\<close>

fun Cut :: "char \<Rightarrow> string \<Rightarrow> (string \<times> string) option" where
  "Cut sep [] = None"
| "Cut sep (c # cs) = (if c = sep then Some ([], cs)
     else map_option (\<lambda>(a, b). (c # a, b)) (Cut sep cs))"

fun Split :: "char \<Rightarrow> string \<Rightarrow> string list" where
  "Split sep [] = [[]]"
| "Split sep (c # cs) = (if c = sep then [] # Split sep cs
     else (case Split sep cs of [] \<Rightarrow> [[c]] | p # ps \<Rightarrow> (c # p) # ps))"

lemma Cut_append: "sep \<notin> set a \<Longrightarrow> Cut sep (a @ sep # b) = Some (a, b)"
  by (induction a) auto

lemma Cut_Some: "Cut sep s = Some (a, b) \<Longrightarrow> s = a @ sep # b \<and> sep \<notin> set a"
  by (induction s arbitrary: a b) (auto split: if_splits)

lemma separated:
  fixes sep :: char
  assumes "sep \<notin> set a" and "sep \<notin> set c"
  shows "a @ sep # b = c @ sep # d \<longleftrightarrow> a = c \<and> b = d"
  using Cut_append [of sep a b] Cut_append [of sep c d] assms by (metis option.inject prod.inject)

lemma Split_nonempty [simp]: "Split sep s \<noteq> []"
  by (induction s) (auto split: list.splits)

lemma Split_free: "sep \<notin> set a \<Longrightarrow> Split sep a = [a]"
  by (induction a) auto

lemma Split_append: "sep \<notin> set a \<Longrightarrow> Split sep (a @ sep # b) = a # Split sep b"
  by (induction a) auto

text \<open>
  \<open>strings.TrimSpace\<close>: the white space runes of \<open>unicode.IsSpace\<close>, each in its UTF-8
  encoding, are removed from both ends.
\<close>

definition bytes_of :: "nat list \<Rightarrow> string" where
  "bytes_of ns = map char_of ns"

definition space_runes :: "string list" where
  "space_runes =
     map bytes_of ([[9], [10], [11], [12], [13], [32], [194, 133], [194, 160], [225, 154, 128]]
       @ map (\<lambda>n. [226, 128, 128 + n]) [0..<11]
       @ [[226, 128, 168], [226, 128, 169], [226, 128, 175], [226, 129, 159], [227, 128, 128]])"

fun trim_left :: "string list \<Rightarrow> nat \<Rightarrow> string \<Rightarrow> string" where
  "trim_left rs 0 s = s"
| "trim_left rs (Suc n) s =
     (case find (\<lambda>r. HasPrefix s r) rs of None \<Rightarrow> s | Some r \<Rightarrow> trim_left rs n (drop (length r) s))"

definition TrimSpace :: "string \<Rightarrow> string" where
  "TrimSpace s =
     (let l = trim_left space_runes (length s) s
      in rev (trim_left (map rev space_runes) (length l) (rev l)))"

text \<open>A byte that is neither a space nor the last or first byte of an encoded one stops the trim.\<close>

definition visible :: "char \<Rightarrow> bool" where
  "visible c \<longleftrightarrow> 33 \<le> (of_char c :: nat) \<and> (of_char c :: nat) \<le> 126"

lemma trim_left_stop:
  assumes "s = [] \<or> list_all (\<lambda>r. r \<noteq> [] \<and> hd r \<noteq> hd s) rs" and "[] \<notin> set rs"
  shows "trim_left rs n s = s"
proof (cases n)
  case (Suc m)
  have "\<not> HasPrefix s r" if "r \<in> set rs" for r
    using assms that by (cases r; cases s) (auto simp: HasPrefix_def list_all_iff)
  then have "find (\<lambda>r. HasPrefix s r) rs = None" by (auto simp: find_None_iff)
  with Suc show ?thesis by simp
qed simp

lemma space_runes_ends:
  assumes "visible c"
  shows "list_all (\<lambda>r. r \<noteq> [] \<and> hd r \<noteq> c) space_runes"
    and "list_all (\<lambda>r. r \<noteq> [] \<and> hd r \<noteq> c) (map rev space_runes)"
  using assms by (auto simp: space_runes_def bytes_of_def visible_def upt_rec)

lemma space_runes_Nil [simp]: "[] \<notin> set space_runes" "[] \<notin> rev ` set space_runes"
  by (auto simp: space_runes_def bytes_of_def)

lemma TrimSpace_visible:
  assumes "s \<noteq> []" and "visible (hd s)" and "visible (last s)"
  shows "TrimSpace s = s"
proof -
  have l: "trim_left space_runes (length s) s = s"
    using assms space_runes_ends(1) by (intro trim_left_stop) auto
  have "trim_left (map rev space_runes) (length s) (rev s) = rev s"
    using assms space_runes_ends(2) by (intro trim_left_stop) (auto simp: hd_rev)
  with l show ?thesis by (simp add: TrimSpace_def)
qed

text \<open>\<open>hex.EncodeToString\<close>.\<close>

definition hex_digit :: "nat \<Rightarrow> char" where
  "hex_digit n = (if n < 10 then char_of (48 + n) else char_of (87 + n))"

fun hex_encode :: "string \<Rightarrow> string" where
  "hex_encode [] = []"
| "hex_encode (c # cs) = hex_digit (of_char c div 16) # hex_digit (of_char c mod 16) # hex_encode cs"

lemma length_hex_encode [simp]: "length (hex_encode s) = 2 * length s"
  by (induction s) simp_all

lemma of_hex_digit: "n < 16 \<Longrightarrow> (of_char (hex_digit n) :: nat) = (if n < 10 then 48 + n else 87 + n)"
  by (simp add: hex_digit_def of_char_of)

lemma hex_digit_inj: "n < 16 \<Longrightarrow> m < 16 \<Longrightarrow> hex_digit n = hex_digit m \<longleftrightarrow> n = m"
proof
  assume b: "n < 16" "m < 16" and "hex_digit n = hex_digit m"
  then have "(of_char (hex_digit n) :: nat) = of_char (hex_digit m)" by simp
  then show "n = m" using b by (simp add: of_hex_digit split: if_splits)
qed simp

lemma of_char_less: "(of_char c :: nat) < 256"
  by (metis char_of_char mod_less_divisor of_char_of zero_less_numeral)

lemma hex_encode_inj: "hex_encode s = hex_encode t \<Longrightarrow> s = t"
proof (induction s arbitrary: t)
  case Nil
  then show ?case by (cases t) auto
next
  case (Cons c cs)
  then obtain d ds where t: "t = d # ds" by (cases t) auto
  have b: "(of_char x :: nat) div 16 < 16" "(of_char x :: nat) mod 16 < 16" for x :: char
    using of_char_less [of x] by (auto simp: less_mult_imp_div_less)
  from Cons.prems t b have "(of_char c :: nat) div 16 = of_char d div 16"
    "(of_char c :: nat) mod 16 = of_char d mod 16" "hex_encode cs = hex_encode ds"
    by (simp_all add: hex_digit_inj)
  then have "(of_char c :: nat) = of_char d" "cs = ds"
    using Cons.IH by (metis div_mult_mod_eq, blast)
  with t show ?case by (metis char_of_char)
qed

lemma hex_encode_visible: "c \<in> set (hex_encode s) \<Longrightarrow> visible c \<and> c \<noteq> CHR '','' \<and> c \<noteq> CHR ''=''"
proof (induction s)
  case (Cons a s)
  have hv: "visible (hex_digit n) \<and> hex_digit n \<noteq> CHR '','' \<and> hex_digit n \<noteq> CHR ''=''" if "n < 16" for n
    using that of_hex_digit [of n] by (auto simp: visible_def split: if_splits)
  have "(of_char a :: nat) div 16 < 16" "(of_char a :: nat) mod 16 < 16"
    using of_char_less [of a] by (auto simp: less_mult_imp_div_less)
  with Cons hv show ?case by auto
qed simp

section \<open>Sums over the rows a filter selects\<close>

text \<open>\<open>COALESCE(SUM(f) FILTER (WHERE P), 0)\<close> of the repository's statements.\<close>

definition sum_where :: "('a \<Rightarrow> bool) \<Rightarrow> ('a \<Rightarrow> int) \<Rightarrow> 'a list \<Rightarrow> int" where
  "sum_where P f xs = sum_list (map f (filter P xs))"

lemma sum_where_simps [simp]:
  "sum_where P f [] = 0"
  "sum_where P f (x # xs) = (if P x then f x else 0) + sum_where P f xs"
  "sum_where P f (xs @ ys) = sum_where P f xs + sum_where P f ys"
  by (simp_all add: sum_where_def)

lemma sum_where_cong: "(\<And>x. x \<in> set xs \<Longrightarrow> P x = Q x \<and> (P x \<longrightarrow> f x = g x)) \<Longrightarrow>
    sum_where P f xs = sum_where Q g xs"
  by (induction xs) auto

lemma sum_where_none: "(\<And>x. x \<in> set xs \<Longrightarrow> \<not> P x) \<Longrightarrow> sum_where P f xs = 0"
  by (induction xs) auto

lemma sum_where_nonneg: "(\<And>x. x \<in> set xs \<Longrightarrow> P x \<Longrightarrow> 0 \<le> f x) \<Longrightarrow> 0 \<le> sum_where P f xs"
  by (induction xs) (auto intro: add_nonneg_nonneg)

lemma sum_where_mono:
  "(\<And>x. x \<in> set xs \<Longrightarrow> P x \<Longrightarrow> f x \<le> g x) \<Longrightarrow> sum_where P f xs \<le> sum_where P g xs"
  by (induction xs) (auto intro: add_mono)

lemma sum_where_add: "sum_where P (\<lambda>x. f x + g x) xs = sum_where P f xs + sum_where P g xs"
  by (induction xs) auto

text \<open>Summing one side per key and then over the keys is summing at once.\<close>

lemma sum_where_partition:
  assumes "distinct ks" and "\<And>x. x \<in> set xs \<Longrightarrow> P x \<Longrightarrow> k x \<in> set ks"
  shows "sum_list (map (\<lambda>q. sum_where (\<lambda>x. P x \<and> k x = q) f xs) ks) = sum_where P f xs"
  using assms
proof (induction xs)
  case Nil
  then show ?case by (simp add: sum_list_0)
next
  case (Cons x xs)
  have "sum_list (map (\<lambda>q. sum_where (\<lambda>y. P y \<and> k y = q) f (x # xs)) ks)
      = sum_list (map (\<lambda>q. if P x \<and> k x = q then f x else 0) ks)
        + sum_list (map (\<lambda>q. sum_where (\<lambda>y. P y \<and> k y = q) f xs) ks)"
    by (simp flip: sum_list_addf)
  also have "sum_list (map (\<lambda>q. if P x \<and> k x = q then f x else 0) ks) = (if P x then f x else 0)"
  proof (cases "P x")
    case True
    then have "k x \<in> set ks" using Cons.prems(2) by simp
    with \<open>distinct ks\<close> True show ?thesis
      by (simp add: sum_list_distinct_conv_sum_set sum.delta')
  qed (simp add: sum_list_0)
  finally show ?case using Cons by simp
qed

section \<open>Pages of a listing\<close>

text \<open>
  A listing in strictly descending key order, read on from the key of one of its elements,
  gives exactly the elements after it.
\<close>

lemma filter_below_nth:
  assumes "sorted_wrt (\<lambda>x y. k y < k x) zs" and "i < length zs"
  shows "filter (\<lambda>x. k x < (k (zs ! i) :: 'b :: linorder)) zs = drop (Suc i) zs"
proof -
  have "filter (\<lambda>x. k x < k (zs ! i)) zs =
      filter (\<lambda>x. k x < k (zs ! i)) (take (Suc i) zs) @ filter (\<lambda>x. k x < k (zs ! i)) (drop (Suc i) zs)"
    by (simp flip: filter_append)
  also have "filter (\<lambda>x. k x < k (zs ! i)) (take (Suc i) zs) = []"
  proof (rule filter_False, rule)
    fix x assume "x \<in> set (take (Suc i) zs)"
    then obtain j where "j < Suc i" "j < length zs" "x = zs ! j" by (auto simp: in_set_conv_nth)
    then have "k (zs ! i) \<le> k x" using assms sorted_wrt_nth_less [OF assms(1), of j i]
      by (cases "j = i") (auto intro: less_imp_le)
    then show "\<not> k x < k (zs ! i)" by simp
  qed
  also have "filter (\<lambda>x. k x < k (zs ! i)) (drop (Suc i) zs) = drop (Suc i) zs"
  proof (rule filter_True, rule)
    fix x assume "x \<in> set (drop (Suc i) zs)"
    then obtain j where "Suc i + j < length zs" "x = zs ! (Suc i + j)"
      by (auto simp: in_set_conv_nth less_diff_conv add.commute) blast
    then show "k x < k (zs ! i)" using sorted_wrt_nth_less [OF assms(1), of i "Suc i + j"] by simp
  qed
  finally show ?thesis by simp
qed

lemma sorted_wrt_rev_sort_key:
  assumes "distinct (map k xs)"
  shows "sorted_wrt (\<lambda>x y. k y < (k x :: 'b :: linorder)) (rev (sort_key k xs))"
proof -
  have "distinct (map k (sort_key k xs))"
    using assms by (simp add: distinct_map)
  then have "sorted_wrt (<) (map k (sort_key k xs))"
    using strict_sorted_iff [of "map k (sort_key k xs)"] by simp
  then show ?thesis by (simp add: sorted_wrt_rev sorted_wrt_map)
qed

text \<open>The page after the \<open>i\<close>-th element of a listing sorted from the newest.\<close>

lemma page_after:
  assumes "distinct (map k xs)" and "i < length xs"
  shows "rev (sort_key k (filter (\<lambda>x. k x < (k (rev (sort_key k xs) ! i) :: 'b :: linorder)) xs))
    = drop (Suc i) (rev (sort_key k xs))"
  using filter_below_nth [OF sorted_wrt_rev_sort_key [OF assms(1)], of i] assms(2)
  by (simp add: rev_filter flip: filter_sort)

section \<open>Transition systems and their invariants\<close>

text \<open>
  The contract a component with a step relation offers: a property that holds at the
  start and is kept by every step. What follows for runs is proved once.
\<close>

locale invariant_system =
  fixes start :: "'s \<Rightarrow> bool"
    and step :: "'s \<Rightarrow> 's \<Rightarrow> bool"
    and inv :: "'s \<Rightarrow> bool"
  assumes start_inv: "start s \<Longrightarrow> inv s"
    and step_inv: "step s t \<Longrightarrow> inv s \<Longrightarrow> inv t"
begin

lemma run_inv: "step\<^sup>*\<^sup>* s t \<Longrightarrow> inv s \<Longrightarrow> inv t"
  by (induction rule: rtranclp_induct) (auto intro: step_inv)

lemma reachable_inv: "start s \<Longrightarrow> step\<^sup>*\<^sup>* s t \<Longrightarrow> inv t"
  using run_inv start_inv by blast

end

end
