(* ===== verification/Errors.thy ===== *)
theory Errors
  imports Prelude
begin

text \<open>
  The error values of the gateway (\<open>internal/domain/errors.go\<close> and the sentinels of the
  packages around it). A Go error is a tree of wrapped errors that callers inspect with
  \<open>errors.Is\<close> and \<open>errors.As\<close>; the model keeps that tree. A wrapping keeps the fixed
  text of its format string; interpolated identifiers and amounts, which no caller
  inspects, are left out of the text.
\<close>

section \<open>Sentinels and error trees\<close>

datatype sentinel =
    ErrNotFound | ErrValidation | ErrInvalidAmount | ErrCurrencyMismatch
  | ErrUnsupportedCurrency | ErrInvalidStateTransition | ErrCaptureExceedsAuthlzd
  | ErrRefundExceedsCaptured | ErrAuthorizationExpired | ErrConcurrentModification
  | ErrDuplicateReference | ErrMerchantSuspended | ErrUnauthenticated
  | ErrUnbalancedEntryGroup | ErrAcquirerUnavailable | ErrRateLimited
  \<comment> \<open>sentinels of other packages that the HTTP layer or a caller inspects\<close>
  | ErrDecrypt | ErrInFlight | ErrKeyReuse | ErrCircuitOpen
  | ErrMalformedSignature | ErrSignatureMismatch | ErrSignatureExpired
  | ContextCanceled | ContextDeadlineExceeded

fun sentinel_text :: "sentinel \<Rightarrow> string" where
  "sentinel_text ErrNotFound = ''resource not found''"
| "sentinel_text ErrValidation = ''validation failed''"
| "sentinel_text ErrInvalidAmount = ''amount must be positive''"
| "sentinel_text ErrCurrencyMismatch = ''currency mismatch''"
| "sentinel_text ErrUnsupportedCurrency = ''unsupported currency''"
| "sentinel_text ErrInvalidStateTransition = ''invalid state transition''"
| "sentinel_text ErrCaptureExceedsAuthlzd = ''capture exceeds authorized amount''"
| "sentinel_text ErrRefundExceedsCaptured = ''refund exceeds captured amount''"
| "sentinel_text ErrAuthorizationExpired = ''authorization has expired''"
| "sentinel_text ErrConcurrentModification = ''transaction was modified concurrently''"
| "sentinel_text ErrDuplicateReference = ''reference already used by this merchant''"
| "sentinel_text ErrMerchantSuspended = ''merchant is suspended''"
| "sentinel_text ErrUnauthenticated = ''authentication failed''"
| "sentinel_text ErrUnbalancedEntryGroup = ''ledger entry group does not balance''"
| "sentinel_text ErrAcquirerUnavailable = ''acquirer unavailable''"
| "sentinel_text ErrRateLimited = ''rate limit exceeded''"
| "sentinel_text ErrDecrypt = ''secret could not be decrypted''"
| "sentinel_text ErrInFlight = ''a request with this idempotency key is in progress''"
| "sentinel_text ErrKeyReuse = ''idempotency key reused with a different payload''"
| "sentinel_text ErrCircuitOpen = ''circuit breaker is open''"
| "sentinel_text ErrMalformedSignature = ''malformed signature header''"
| "sentinel_text ErrSignatureMismatch = ''signature does not match payload''"
| "sentinel_text ErrSignatureExpired = ''signature timestamp outside tolerance''"
| "sentinel_text ContextCanceled = ''context canceled''"
| "sentinel_text ContextDeadlineExceeded = ''context deadline exceeded''"

type_synonym DeclineCode = string

abbreviation "DeclineInsufficientFunds \<equiv> ''insufficient_funds''"
abbreviation "DeclineCardExpired \<equiv> ''card_expired''"
abbreviation "DeclineDoNotHonor \<equiv> ''do_not_honor''"
abbreviation "DeclineFraudSuspected \<equiv> ''fraud_suspected''"

text \<open>
  \<open>DeclinedError code message\<close> and \<open>ValidationError field message\<close> are the two error
  structs; \<open>Wrap text e\<close> is \<open>fmt.Errorf\<close> with \<open>%w\<close>; \<open>Opaque\<close> is any error that
  wraps nothing the gateway knows.
\<close>

datatype error =
    Sentinel sentinel
  | DeclinedError DeclineCode string
  | ValidationError string string
  | Wrap string error
  | Opaque string

type_synonym 'a result = "error + 'a"

fun errors_Is :: "error \<Rightarrow> sentinel \<Rightarrow> bool" where
  "errors_Is (Sentinel s) t = (s = t)"
| "errors_Is (DeclinedError c m) t = False"
| "errors_Is (ValidationError f m) t = (t = ErrValidation)"
| "errors_Is (Wrap m e) t = errors_Is e t"
| "errors_Is (Opaque m) t = False"

fun as_DeclinedError :: "error \<Rightarrow> (DeclineCode \<times> string) option" where
  "as_DeclinedError (DeclinedError c m) = Some (c, m)"
| "as_DeclinedError (Wrap m e) = as_DeclinedError e"
| "as_DeclinedError _ = None"

fun as_ValidationError :: "error \<Rightarrow> (string \<times> string) option" where
  "as_ValidationError (ValidationError f m) = Some (f, m)"
| "as_ValidationError (Wrap m e) = as_ValidationError e"
| "as_ValidationError _ = None"

fun error_text :: "error \<Rightarrow> string" where
  "error_text (Sentinel s) = sentinel_text s"
| "error_text (DeclinedError c m) = ''card declined: '' @ c"
| "error_text (ValidationError f m) = f @ '': '' @ m"
| "error_text (Wrap m e) = m"
| "error_text (Opaque m) = m"

text \<open>\<open>fmt.Errorf("%w: msg", s)\<close> and \<open>fmt.Errorf("msg: %w", e)\<close>.\<close>

definition errorf :: "sentinel \<Rightarrow> string \<Rightarrow> error" where
  "errorf s msg = Wrap (sentinel_text s @ '': '' @ msg) (Sentinel s)"

definition wrapf :: "string \<Rightarrow> error \<Rightarrow> error" where
  "wrapf msg e = Wrap (msg @ '': '' @ error_text e) e"

definition Invalid :: "string \<Rightarrow> string \<Rightarrow> error" where
  "Invalid field message = ValidationError field message"

definition declineMessages :: "DeclineCode \<Rightarrow> string option" where
  "declineMessages = map_of
     [(DeclineInsufficientFunds, ''The card has insufficient funds.''),
      (DeclineCardExpired, ''The card has expired.''),
      (DeclineDoNotHonor, ''The issuer declined the transaction (do not honor).''),
      (DeclineFraudSuspected, ''The transaction was declined as suspected fraud.'')]"

definition NewDeclinedError :: "DeclineCode \<Rightarrow> error" where
  "NewDeclinedError code = DeclinedError code
     (case declineMessages code of None \<Rightarrow> ''The card was declined.'' | Some msg \<Rightarrow> msg)"

lemma errors_Is_simps [simp]:
  "errors_Is (errorf s msg) t \<longleftrightarrow> s = t"
  "errors_Is (wrapf msg e) t \<longleftrightarrow> errors_Is e t"
  "errors_Is (Invalid f m) t \<longleftrightarrow> t = ErrValidation"
  "errors_Is (NewDeclinedError c) t \<longleftrightarrow> False"
  by (auto simp: errorf_def wrapf_def Invalid_def NewDeclinedError_def)

lemma as_errors_simps [simp]:
  "as_DeclinedError (errorf s msg) = None"
  "as_DeclinedError (wrapf msg e) = as_DeclinedError e"
  "as_DeclinedError (Invalid f m) = None"
  "as_ValidationError (errorf s msg) = None"
  "as_ValidationError (wrapf msg e) = as_ValidationError e"
  "as_ValidationError (Invalid f m) = Some (f, m)"
  "as_ValidationError (NewDeclinedError c) = None"
  by (simp_all add: errorf_def wrapf_def Invalid_def NewDeclinedError_def)

text \<open>An error tree ends in exactly one leaf, so it answers to one class only.\<close>

lemma errors_Is_unique: "errors_Is e s \<Longrightarrow> errors_Is e t \<Longrightarrow> s = t"
  by (induction e) auto

lemma as_Validation_Is: "as_ValidationError e = Some x \<Longrightarrow> errors_Is e ErrValidation"
  by (induction e) auto

lemma as_Declined_not_Is: "as_DeclinedError e = Some x \<Longrightarrow> \<not> errors_Is e s"
  by (induction e) auto

section \<open>Early return\<close>

text \<open>\<open>x, err := m(); if err != nil { return err }\<close> followed by the rest.\<close>

definition andThen :: "'a result \<Rightarrow> ('a \<Rightarrow> 'b result) \<Rightarrow> 'b result" where
  "andThen m k = (case m of Inl err \<Rightarrow> Inl err | Inr x \<Rightarrow> k x)"

lemma andThen_simps [simp]: "andThen (Inl err) k = Inl err" "andThen (Inr x) k = k x"
  by (simp_all add: andThen_def)

lemma andThen_Inr: "andThen m k = Inr y \<longleftrightarrow> (\<exists>x. m = Inr x \<and> k x = Inr y)"
  by (auto simp: andThen_def split: sum.splits)

lemma andThen_cong [fundef_cong]:
  "m = m' \<Longrightarrow> (\<And>x. m' = Inr x \<Longrightarrow> k x = k' x) \<Longrightarrow> andThen m k = andThen m' k'"
  by (auto simp: andThen_def split: sum.splits)

end
