(* ===== verification/Breaker.thy ===== *)
theory Breaker
  imports Errors
begin

text \<open>
  \<open>internal/acquirer/breaker.go\<close>: the three-state circuit breaker. Each method holds the
  mutex for its whole body, so a method is one atomic function on the breaker; the clock
  reading it takes is its argument. Calls that are in flight at the same time appear as
  interleaved sequences of these functions.
\<close>

section \<open>The breaker and its methods\<close>

datatype State = StateClosed | StateOpen | StateHalfOpen

record breaker =
  brThreshold :: int
  brCooldown :: duration
  brState :: State
  brFailures :: int
  brOpenedAt :: time
  brProbeInFlgt :: bool

text \<open>The zero value of \<open>time.Time\<close>, the first instant of year 1.\<close>

definition zero_time :: time where
  "zero_time = - unixToInternal * Second"

definition NewBreaker :: "int \<Rightarrow> duration \<Rightarrow> breaker" where
  "NewBreaker threshold cooldown =
     \<lparr> brThreshold = (if threshold < 1 then 1 else threshold), brCooldown = cooldown,
       brState = StateClosed, brFailures = 0, brOpenedAt = zero_time, brProbeInFlgt = False \<rparr>"

definition refreshLocked :: "time \<Rightarrow> breaker \<Rightarrow> breaker" where
  "refreshLocked now b =
     (if brState b = StateOpen \<and> time_Sub now (brOpenedAt b) \<ge> brCooldown b
      then b\<lparr> brState := StateHalfOpen, brProbeInFlgt := False \<rparr> else b)"

definition Breaker_State :: "time \<Rightarrow> breaker \<Rightarrow> State \<times> breaker" where
  "Breaker_State now b = (let b = refreshLocked now b in (brState b, b))"

definition Allow :: "time \<Rightarrow> breaker \<Rightarrow> error option \<times> breaker" where
  "Allow now b =
     (let b = refreshLocked now b
      in case brState b of
           StateOpen \<Rightarrow> (Some (Sentinel ErrCircuitOpen), b)
         | StateHalfOpen \<Rightarrow>
             if brProbeInFlgt b then (Some (Sentinel ErrCircuitOpen), b)
             else (None, b\<lparr> brProbeInFlgt := True \<rparr>)
         | StateClosed \<Rightarrow> (None, b))"

definition Success :: "breaker \<Rightarrow> breaker" where
  "Success b = b\<lparr> brFailures := 0, brProbeInFlgt := False, brState := StateClosed \<rparr>"

definition Failure :: "time \<Rightarrow> breaker \<Rightarrow> breaker" where
  "Failure now b =
     (let b = b\<lparr> brProbeInFlgt := False, brFailures := brFailures b + 1 \<rparr>
      in if brState b = StateHalfOpen \<or> brFailures b \<ge> brThreshold b
         then b\<lparr> brState := StateOpen, brOpenedAt := now \<rparr> else b)"

lemmas breaker_defs = refreshLocked_def Breaker_State_def Allow_def Success_def Failure_def Let_def

section \<open>The breaker as a transition system\<close>

inductive breaker_step :: "breaker \<Rightarrow> breaker \<Rightarrow> bool" where
  allow: "breaker_step b (snd (Allow now b))"
| state: "breaker_step b (snd (Breaker_State now b))"
| success: "breaker_step b (Success b)"
| failure: "breaker_step b (Failure now b)"

definition new_breaker :: "breaker \<Rightarrow> bool" where
  "new_breaker b \<longleftrightarrow> (\<exists>threshold cooldown. b = NewBreaker threshold cooldown)"

text \<open>
  The breaker is closed exactly while fewer than \<open>threshold\<close> failures have been counted, and
  a probe is in flight only in the half-open state.
\<close>

definition breaker_inv :: "breaker \<Rightarrow> bool" where
  "breaker_inv b \<longleftrightarrow> 1 \<le> brThreshold b \<and> 0 \<le> brFailures b
     \<and> (brState b = StateClosed \<longleftrightarrow> brFailures b < brThreshold b)
     \<and> (brProbeInFlgt b \<longrightarrow> brState b = StateHalfOpen)"

lemma refresh_inv [simp]: "breaker_inv b \<Longrightarrow> breaker_inv (refreshLocked now b)"
  by (auto simp: breaker_inv_def refreshLocked_def)

lemma Allow_inv [simp]: "breaker_inv b \<Longrightarrow> breaker_inv (snd (Allow now b))"
  using refresh_inv [of b now]
  by (auto simp: Allow_def breaker_inv_def Let_def split: State.splits)

lemma Success_inv [simp]: "breaker_inv b \<Longrightarrow> breaker_inv (Success b)"
  by (auto simp: breaker_inv_def Success_def)

lemma Failure_inv [simp]: "breaker_inv b \<Longrightarrow> breaker_inv (Failure now b)"
  by (cases "brState b") (auto simp: breaker_inv_def Failure_def Let_def)

interpretation breaker_runs: invariant_system new_breaker breaker_step breaker_inv
proof unfold_locales
  show "new_breaker s \<Longrightarrow> breaker_inv s" for s
    by (auto simp: new_breaker_def NewBreaker_def breaker_inv_def)
  show "breaker_step s t \<Longrightarrow> breaker_inv s \<Longrightarrow> breaker_inv t" for s t
    by (induction rule: breaker_step.induct) (simp_all add: Breaker_State_def Let_def)
qed

text \<open>A number of failures in a row, at the given instants.\<close>

definition Failures :: "time list \<Rightarrow> breaker \<Rightarrow> breaker" where
  "Failures ts b = fold Failure ts b"

lemma Failures_closed:
  assumes "breaker_inv b" and "brState b = StateClosed"
    and "brFailures b + int (length ts) < brThreshold b"
  shows "brState (Failures ts b) = StateClosed
    \<and> brFailures (Failures ts b) = brFailures b + int (length ts)
    \<and> brThreshold (Failures ts b) = brThreshold b \<and> brCooldown (Failures ts b) = brCooldown b
    \<and> breaker_inv (Failures ts b)"
  using assms
proof (induction ts arbitrary: b)
  case (Cons t ts)
  have "brState (Failure t b) = StateClosed" "brFailures (Failure t b) = brFailures b + 1"
    "brThreshold (Failure t b) = brThreshold b" "brCooldown (Failure t b) = brCooldown b"
    using Cons.prems by (auto simp: Failure_def Let_def)
  moreover from Cons.prems(1) have "breaker_inv (Failure t b)" by simp
  ultimately show ?case using Cons.IH [of "Failure t b"] Cons.prems(3) by (simp add: Failures_def)
qed (simp add: Failures_def)

text \<open>What waiting callers do: ask for admission and read the state.\<close>

inductive asks :: "breaker \<Rightarrow> breaker \<Rightarrow> bool" where
  "asks b (snd (Allow now b))"
| "asks b (snd (Breaker_State now b))"

definition probing :: "breaker \<Rightarrow> bool" where
  "probing b \<longleftrightarrow> brState b = StateHalfOpen \<and> brProbeInFlgt b"

lemma probing_Allow: "probing b \<Longrightarrow> Allow now b = (Some (Sentinel ErrCircuitOpen), b)"
  by (simp add: probing_def Allow_def refreshLocked_def)

lemma probing_asks: "asks\<^sup>*\<^sup>* b b' \<Longrightarrow> probing b \<Longrightarrow> b' = b"
proof (induction rule: rtranclp_induct)
  case (step y z)
  then have "y = b" by blast
  with step.hyps(2) step.prems show ?case
    by (auto simp: probing_Allow Breaker_State_def refreshLocked_def probing_def elim!: asks.cases)
qed simp

section \<open>Properties\<close>

text \<open>
  In every run of the breaker, the calls of which may interleave at will: it refuses
  calls only after at least \<open>threshold\<close> failures were counted since the last success; in the
  closed state every call is admitted; and a refused call leaves no probe reserved that was
  not reserved before.
\<close>

theorem breaker_refuses_only_after_threshold:
  assumes "breaker_step\<^sup>*\<^sup>* (NewBreaker threshold cooldown) b"
  shows "(fst (Allow now b) \<noteq> None \<longrightarrow> brThreshold b \<le> brFailures b)
    \<and> (brState b = StateClosed \<longrightarrow> Allow now b = (None, b))
    \<and> (fst (Allow now b) \<noteq> None \<longrightarrow> brProbeInFlgt (snd (Allow now b)) = brProbeInFlgt b)"
proof -
  have "new_breaker (NewBreaker threshold cooldown)" by (auto simp: new_breaker_def)
  then have "breaker_inv b" using assms by (rule breaker_runs.reachable_inv)
  then show ?thesis
    by (auto simp: breaker_inv_def Allow_def refreshLocked_def Let_def split: State.splits if_splits)
qed

theorem breaker_refuses_only_after_threshold_witness:
  "fst (Allow 6 (Failure 5 (NewBreaker 1 10))) \<noteq> None
   \<and> brThreshold (Failure 5 (NewBreaker 1 10)) \<le> brFailures (Failure 5 (NewBreaker 1 10))"
proof -
  have "breaker_step\<^sup>*\<^sup>* (NewBreaker 1 10) (Failure 5 (NewBreaker 1 10))"
    by (intro r_into_rtranclp breaker_step.failure)
  from breaker_refuses_only_after_threshold [OF this, of 6]
  show ?thesis by (simp add: NewBreaker_def breaker_defs time_defs)
qed

text \<open>
  C39. A new breaker stays closed for fewer than \<open>threshold\<close> consecutive failures, opens at
  the \<open>threshold\<close>-th, refuses every call until the cooldown has elapsed since then, and
  then admits exactly one probe.
\<close>

theorem breaker_opens_at_threshold:
  assumes "1 \<le> threshold" and "int (length ts) = threshold - 1" and "0 \<le> now - t" and "now - t < 2 ^ 63"
  shows "brState (Failures ts (NewBreaker threshold cooldown)) = StateClosed
    \<and> (let b = Failure t (Failures ts (NewBreaker threshold cooldown))
       in brState b = StateOpen
          \<and> (now - t < cooldown \<longrightarrow> Allow now b = (Some (Sentinel ErrCircuitOpen), b))
          \<and> (cooldown \<le> now - t \<longrightarrow> fst (Allow now b) = None \<and> probing (snd (Allow now b))))"
proof -
  let ?n = "NewBreaker threshold cooldown" let ?c = "Failures ts ?n"
  have inv: "breaker_inv ?n" using assms(1) by (simp add: NewBreaker_def breaker_inv_def)
  have n: "brState ?n = StateClosed" "brFailures ?n = 0" "brThreshold ?n = threshold" "brCooldown ?n = cooldown"
    using assms(1) by (simp_all add: NewBreaker_def)
  from Failures_closed [OF inv n(1), of ts] n assms(2)
  have c: "brState ?c = StateClosed" "brFailures ?c = threshold - 1" "brThreshold ?c = threshold"
    "brCooldown ?c = cooldown" by simp_all
  then show ?thesis using assms(3,4)
    by (auto simp: Failure_def Allow_def refreshLocked_def Let_def time_Sub_def minDuration_def
        maxDuration_def probing_def)
qed

theorem breaker_opens_at_threshold_witness:
  "brState (Failures [1, 2] (NewBreaker 3 10)) = StateClosed
   \<and> fst (Allow 5 (Failure 3 (Failures [1, 2] (NewBreaker 3 10)))) = Some (Sentinel ErrCircuitOpen)
   \<and> fst (Allow 20 (Failure 3 (Failures [1, 2] (NewBreaker 3 10)))) = None"
  using breaker_opens_at_threshold [of 3 "[1, 2]" 5 3 10] breaker_opens_at_threshold [of 3 "[1, 2]" 20 3 10]
  by (simp add: Let_def)

text \<open>
  While the half-open probe is out, every other call is refused, however many callers
  ask and however much time passes, until the outcome of a call is reported; a failure then
  opens the breaker again and a success closes it with its failure count cleared.
\<close>

theorem single_probe:
  assumes "Allow now b = (None, b')" and "brState b' = StateHalfOpen" and "asks\<^sup>*\<^sup>* b' b''"
  shows "fst (Allow now' b'') = Some (Sentinel ErrCircuitOpen)
    \<and> brState (Failure now' b'') = StateOpen \<and> brOpenedAt (Failure now' b'') = now'
    \<and> brState (Success b'') = StateClosed \<and> brFailures (Success b'') = 0"
proof -
  have p: "probing b'" using assms(1,2)
    by (auto simp: Allow_def probing_def Let_def split: State.splits if_splits)
  from probing_asks [OF assms(3) p] have "b'' = b'" .
  with p show ?thesis by (simp add: probing_Allow) (simp add: probing_def breaker_defs)
qed

theorem single_probe_witness:
  "fst (Allow 99 (snd (Allow 20 (Failure 3 (NewBreaker 1 10))))) = Some (Sentinel ErrCircuitOpen)"
proof -
  let ?b = "Failure 3 (NewBreaker 1 10)"
  obtain b' where b': "Allow 20 ?b = (None, b')" "brState b' = StateHalfOpen"
    by (simp add: NewBreaker_def breaker_defs time_defs)
  from single_probe [OF this rtranclp.rtrancl_refl] b'(1) show ?thesis by simp
qed

end
