(* ===== verification/Money.thy ===== *)
theory Money
  imports Errors
begin

text \<open>
  \<open>internal/money/money.go\<close>: amounts as integer minor units (\<open>int64\<close>), the accepted
  currencies, the human-readable rendering and the platform fee in basis points.
\<close>

type_synonym Amount = int

datatype Currency = VND | USD | OtherCurrency string

definition minorUnits :: "Currency \<Rightarrow> nat option" where
  "minorUnits c = (case c of VND \<Rightarrow> Some 0 | USD \<Rightarrow> Some 2 | OtherCurrency _ \<Rightarrow> None)"

definition Currency_Valid :: "Currency \<Rightarrow> bool" where
  "Currency_Valid c \<longleftrightarrow> minorUnits c \<noteq> None"

fun Currency_String :: "Currency \<Rightarrow> string" where
  "Currency_String VND = ''VND''"
| "Currency_String USD = ''USD''"
| "Currency_String (OtherCurrency s) = s"

text \<open>The conversion \<open>money.Currency(s)\<close> (and \<open>currencyOf\<close> of the repository).\<close>

definition currencyOf :: "string \<Rightarrow> Currency" where
  "currencyOf s = (if s = ''VND'' then VND else if s = ''USD'' then USD else OtherCurrency s)"

definition IsPositive :: "Amount \<Rightarrow> bool" where
  "IsPositive a \<longleftrightarrow> a > 0"

text \<open>\<open>%0*d\<close>: the decimal text padded with zeros after the sign up to a width.\<close>

definition pad0 :: "nat \<Rightarrow> int \<Rightarrow> string" where
  "pad0 w n = (let ds = show_nat (nat \<bar>n\<bar>); sg = (if n < 0 then ''-'' else [])
               in sg @ replicate (w - length sg - length ds) (CHR ''0'') @ ds)"

definition Format :: "Amount \<Rightarrow> Currency \<Rightarrow> string" where
  "Format a c =
     (case minorUnits c of
        None \<Rightarrow> show_int a @ '' '' @ Currency_String c
      | Some e \<Rightarrow>
          if e = 0 then show_int a @ '' '' @ Currency_String c
          else (let dv = 10 ^ e;
                    neg = (if a < 0 then ''-'' else []);
                    v = (if a < 0 then neg64 a else a)
                in neg @ show_int (v sdiv dv) @ ''.'' @ pad0 e (v smod dv) @ '' ''
                   @ Currency_String c))"

definition Fee :: "Amount \<Rightarrow> int \<Rightarrow> Amount" where
  "Fee a bps = (if a \<le> 0 \<or> bps \<le> 0 then 0 else wrap64 (a * bps) sdiv 10000)"

section \<open>Lemmas\<close>

lemma Currency_Valid_iff: "Currency_Valid c \<longleftrightarrow> c = VND \<or> c = USD"
  by (cases c) (simp_all add: Currency_Valid_def minorUnits_def)

lemma currencyOf_String:
  "c \<noteq> OtherCurrency ''VND'' \<Longrightarrow> c \<noteq> OtherCurrency ''USD'' \<Longrightarrow> currencyOf (Currency_String c) = c"
  by (cases c) (auto simp: currencyOf_def)

lemma Currency_String_currencyOf [simp]: "Currency_String (currencyOf s) = s"
  by (simp add: currencyOf_def)

text \<open>Below the overflow bound the fee is the exact product rounded down.\<close>

definition fee_exact :: "Amount \<Rightarrow> int \<Rightarrow> bool" where
  "fee_exact a bps \<longleftrightarrow> in64 (a * bps)"

lemma Fee_exact:
  "0 \<le> a \<Longrightarrow> 0 \<le> bps \<Longrightarrow> fee_exact a bps \<Longrightarrow> Fee a bps = a * bps div 10000"
  by (auto simp: Fee_def fee_exact_def wrap64_id sdiv_pos)

lemma Fee_nonneg:
  assumes "fee_exact a bps" shows "0 \<le> Fee a bps"
  using assms by (cases "a \<le> 0 \<or> bps \<le> 0") (auto simp: Fee_def fee_exact_def wrap64_id sdiv_pos pos_imp_zdiv_nonneg_iff)

lemma mult_div_bps_le:
  assumes "0 \<le> (a::int)" and "bps \<le> 10000"
  shows "a * bps div 10000 \<le> a"
proof -
  have "a * bps \<le> a * 10000" using assms by (rule mult_left_mono [rotated])
  then have "a * bps div 10000 \<le> a * 10000 div 10000" by (rule zdiv_mono1) simp
  then show ?thesis by simp
qed

lemma mult_div_bps_less:
  assumes "0 < (a::int)" and "bps < 10000"
  shows "a * bps div 10000 < a"
proof -
  have "a * bps < a * 10000" using assms by simp
  moreover have "a * bps div 10000 * 10000 \<le> a * bps" by simp
  ultimately have "a * bps div 10000 * 10000 < a * 10000" by linarith
  then show ?thesis by simp
qed

lemma Fee_le:
  "0 \<le> a \<Longrightarrow> bps \<le> 10000 \<Longrightarrow> fee_exact a bps \<Longrightarrow> Fee a bps \<le> a"
  by (cases "bps \<le> 0") (auto simp: Fee_def fee_exact_def wrap64_id sdiv_pos mult_div_bps_le)

lemma Fee_less:
  "0 < a \<Longrightarrow> bps < 10000 \<Longrightarrow> fee_exact a bps \<Longrightarrow> Fee a bps < a"
  by (cases "bps \<le> 0") (auto simp: Fee_def fee_exact_def wrap64_id sdiv_pos mult_div_bps_less)

lemma fee_exact_mono:
  assumes "fee_exact a bps" and "0 \<le> b" and "b \<le> a" and "0 \<le> bps"
  shows "fee_exact b bps"
proof -
  have "b * bps \<le> a * bps" "0 \<le> b * bps" using assms by (simp_all add: mult_right_mono)
  with assms(1) show ?thesis by (simp add: fee_exact_def in64_def)
qed

text \<open>Rounding down twice loses at most one unit against rounding down once.\<close>

lemma div_add_bounds:
  fixes x y :: int
  shows "x div 10000 + y div 10000 \<le> (x + y) div 10000"
    and "(x + y) div 10000 \<le> x div 10000 + y div 10000 + 1"
  by linarith+

lemma div_bounds:
  fixes x :: int
  shows "10000 * (x div 10000) \<le> x" and "x < 10000 * (x div 10000 + 1)"
  by presburger+

lemma Fee_split_bounds:
  assumes "0 \<le> a" "0 \<le> b" "0 \<le> bps" "fee_exact (a + b) bps"
  shows "Fee a bps + Fee b bps \<le> Fee (a + b) bps"
    and "Fee (a + b) bps \<le> Fee a bps + Fee b bps + 1"
proof -
  have ex: "fee_exact a bps" "fee_exact b bps" using assms by (auto intro: fee_exact_mono)
  have "Fee (a + b) bps = (a * bps + b * bps) div 10000"
    using assms by (simp add: Fee_exact distrib_right)
  then show "Fee a bps + Fee b bps \<le> Fee (a + b) bps"
    and "Fee (a + b) bps \<le> Fee a bps + Fee b bps + 1"
    using assms ex div_add_bounds [of "a * bps" "b * bps"] by (simp_all add: Fee_exact)
qed

section \<open>Properties\<close>

text \<open>
  C40. The platform fee of a payment is the exact share in basis points, rounded down, and
  lies between zero and the amount, as long as the product of amount and rate fits in an
  \<open>int64\<close>.
\<close>

theorem Fee_rounds_down:
  assumes "0 \<le> a" and "0 \<le> bps" and "bps \<le> 10000" and "fee_exact a bps"
  shows "0 \<le> Fee a bps \<and> Fee a bps \<le> a \<and>
         10000 * Fee a bps \<le> a * bps \<and> a * bps < 10000 * (Fee a bps + 1)"
proof -
  have "Fee a bps = a * bps div 10000" using assms by (simp add: Fee_exact)
  moreover have "10000 * (a * bps div 10000) \<le> a * bps \<and> a * bps < 10000 * (a * bps div 10000 + 1)"
    using div_bounds by blast
  ultimately show ?thesis
    using Fee_nonneg [OF assms(4)] Fee_le [OF assms(1,3,4)] by simp
qed

theorem Fee_rounds_down_witness:
  "0 \<le> Fee 1999 200 \<and> Fee 1999 200 \<le> 1999 \<and> Fee 1999 200 = 39"
proof -
  have ex: "fee_exact 1999 200" by (simp add: fee_exact_def in64_def)
  show ?thesis using Fee_rounds_down [of 1999 200, OF _ _ _ ex] by simp
qed

text \<open>
  The product in \<open>Fee\<close> is taken in \<open>int64\<close>: for amounts the API accepts the fee
  wraps around, to zero for 2 to the 62 at 200 basis points, and to a negative number for
  the largest amount at the highest rate.
\<close>

theorem Fee_overflow:
  "in64 (2 ^ 62) \<and> Fee (2 ^ 62) 200 = 0 \<and> in64 (2 ^ 63 - 1) \<and> Fee (2 ^ 63 - 1) 10000 = -1"
  by (simp add: Fee_def in64_def wrap64_def signed_divide_int_def)

text \<open>
  Fees of two partial amounts never exceed the fee of the whole, and fall short of it
  by at most one minor unit.
\<close>

theorem Fee_partial_amounts:
  assumes "0 \<le> a" and "0 \<le> b" and "0 \<le> bps" and "fee_exact (a + b) bps"
  shows "Fee a bps + Fee b bps \<le> Fee (a + b) bps \<and> Fee (a + b) bps \<le> Fee a bps + Fee b bps + 1"
  using Fee_split_bounds [OF assms] by simp

theorem Fee_partial_amounts_witness:
  "Fee 49 200 + Fee 49 200 \<le> Fee (49 + 49) 200 \<and> Fee 49 200 + Fee 49 200 + 1 = Fee 98 200"
proof -
  have ex: "fee_exact (49 + 49) 200" by (simp add: fee_exact_def in64_def)
  have "Fee 49 200 + Fee 49 200 + 1 = Fee 98 200"
    by (simp add: Fee_def wrap64_def signed_divide_int_def)
  then show ?thesis using Fee_partial_amounts [of 49 49 200, OF _ _ _ ex] by simp
qed

end
