(* ===== verification/Acquirer.thy ===== *)
theory Acquirer
  imports Breaker Money Complex_Main
begin

text \<open>
  \<open>internal/acquirer\<close>: the card processor port (\<open>acquirer.go\<close>), its simulator
  (\<open>mock.go\<close>) and the guard with timeout and circuit breaker (\<open>guarded.go\<close>).

  A call that never returns is \<open>None\<close>. A context is the time left until it is done, if it
  ever is, and the error it then reports; when a timer and the context are ready at the same
  instant Go chooses either, the model the context. The generator behind \<open>rand.Rand\<close> is an
  argument, a state with the functions for the next \<open>Float64\<close> and \<open>Int63n\<close>; rates are
  rationals. The text of \<open>uuid.NewString()\<close> is an argument of each operation.
\<close>

section \<open>The port\<close>

record Card =
  cNumber :: string
  cExpMonth :: int
  cExpYear :: int
  cCVV :: string

record AuthorizeRequest =
  arTransactionID :: string
  arAmount :: Amount
  arCurrency :: Currency
  arCard :: Card

record AuthorizeResponse =
  rsRef :: string
  rsCardLast4 :: string
  rsCardBrand :: string

type_synonym CaptureResponse = string
type_synonym RefundResponse = string
type_synonym VoidResponse = string

text \<open>The acquirer as its caller sees it: the answers of the calls it makes.\<close>

record acquirer_port =
  acqAuthorize :: "AuthorizeRequest \<Rightarrow> AuthorizeResponse result"
  acqCapture :: "string \<Rightarrow> Amount \<Rightarrow> CaptureResponse result"
  acqRefund :: "string \<Rightarrow> Amount \<Rightarrow> RefundResponse result"
  acqVoid :: "string \<Rightarrow> VoidResponse result"

section \<open>Contexts and randomness\<close>

record ctx =
  ctxRemaining :: "duration option"
  ctxErr :: error

definition WithTimeout :: "duration \<Rightarrow> ctx \<Rightarrow> ctx" where
  "WithTimeout d c =
     (case ctxRemaining c of
        Some r \<Rightarrow> if r \<le> d then c
                  else \<lparr> ctxRemaining = Some d, ctxErr = Sentinel ContextDeadlineExceeded \<rparr>
      | None \<Rightarrow> \<lparr> ctxRemaining = Some d, ctxErr = Sentinel ContextDeadlineExceeded \<rparr>)"

record 'g rand_source =
  rndFloat64 :: "'g \<Rightarrow> rat \<times> 'g"
  rndInt63n :: "int \<Rightarrow> 'g \<Rightarrow> int \<times> 'g"

record AcquirerConfig =
  acDeclineRate :: rat
  acTimeoutRate :: rat
  acTimeout :: duration
  acMinLatency :: duration
  acMaxLatency :: duration
  acBreakerThreshold :: int
  acBreakerCooldown :: duration

section \<open>The simulator\<close>

abbreviation "TestCardDecline \<equiv> ''0000''"
abbreviation "TestCardTimeout \<equiv> ''0002''"

definition declineCodes :: "DeclineCode list" where
  "declineCodes = [DeclineInsufficientFunds, DeclineCardExpired, DeclineDoNotHonor, DeclineFraudSuspected]"

definition newRef :: "string \<Rightarrow> uuid \<Rightarrow> string" where
  "newRef kind u = kind @ ''_'' @ take 20 (filter (\<lambda>c. c \<noteq> CHR ''-'') u)"

definition last4 :: "string \<Rightarrow> string" where
  "last4 pan = (if length pan < 4 then pan else drop (length pan - 4) pan)"

definition brandOf :: "string \<Rightarrow> string" where
  "brandOf pan =
     (if HasPrefix pan ''4'' then ''visa''
      else if HasPrefix pan ''5'' \<or> HasPrefix pan ''2'' then ''mastercard''
      else if HasPrefix pan ''34'' \<or> HasPrefix pan ''37'' then ''amex''
      else ''unknown'')"

text \<open>The loop of \<open>luhn\<close>, from the last digit to the first.\<close>

fun luhn_loop :: "bool \<Rightarrow> int \<Rightarrow> string \<Rightarrow> int" where
  "luhn_loop alt sm [] = sm"
| "luhn_loop alt sm (c # cs) =
     (let n = int (of_char c) - 48;
          n = (if alt then (if n * 2 > 9 then n * 2 - 9 else n * 2) else n)
      in luhn_loop (\<not> alt) (sm + n) cs)"

definition luhn :: "string \<Rightarrow> bool" where
  "luhn digits \<longleftrightarrow> luhn_loop False 0 (rev digits) mod 10 = 0"

definition validateCard :: "Card \<Rightarrow> unit result" where
  "validateCard c =
     (let digits = filter is_digit (cNumber c)
      in if length digits < 12 \<or> length digits > 19 \<or> digits \<noteq> cNumber c then
           Inl (Invalid ''card.number'' ''must be 12 to 19 digits'')
         else if \<not> luhn digits then Inl (Invalid ''card.number'' ''failed checksum'')
         else if cExpMonth c < 1 \<or> cExpMonth c > 12 then
           Inl (Invalid ''card.exp_month'' ''must be between 1 and 12'')
         else if cExpYear c < 2000 \<or> cExpYear c > 2100 then
           Inl (Invalid ''card.exp_year'' ''must be a four digit year'')
         else if length (cCVV c) < 3 \<or> length (cCVV c) > 4 then
           Inl (Invalid ''card.cvv'' ''must be 3 or 4 digits'')
         else Inr ())"

definition mock_int63n :: "'g rand_source \<Rightarrow> int \<Rightarrow> 'g \<Rightarrow> int \<times> 'g" where
  "mock_int63n rs n g = (if n \<le> 0 then (0, g) else rndInt63n rs n g)"

definition randomDeclineCode :: "'g rand_source \<Rightarrow> 'g \<Rightarrow> DeclineCode \<times> 'g" where
  "randomDeclineCode rs g =
     (let (i, g) = mock_int63n rs (int (length declineCodes)) g in (declineCodes ! nat i, g))"

definition mock_delay ::
  "'g rand_source \<Rightarrow> AcquirerConfig \<Rightarrow> ctx \<Rightarrow> 'g \<Rightarrow> (unit result \<times> 'g) option" where
  "mock_delay rs cfg c g =
     (let span = wrap64 (acMaxLatency cfg - acMinLatency cfg);
          (extra, g) = (if span > 0 then mock_int63n rs span g else (0, g));
          wait = wrap64 (acMinLatency cfg + extra)
      in Some (case ctxRemaining c of
                 None \<Rightarrow> Inr ()
               | Some r \<Rightarrow> if wait < r then Inr ()
                           else Inl (errorf ErrAcquirerUnavailable (error_text (ctxErr c))), g))"

definition mock_hang :: "ctx \<Rightarrow> 'g \<Rightarrow> (unit result \<times> 'g) option" where
  "mock_hang c g =
     (case ctxRemaining c of
        None \<Rightarrow> None
      | Some _ \<Rightarrow> Some (Inl (errorf ErrAcquirerUnavailable
          (''acquirer did not respond: '' @ error_text (ctxErr c))), g))"

definition mock_simulate ::
  "'g rand_source \<Rightarrow> AcquirerConfig \<Rightarrow> ctx \<Rightarrow> string \<Rightarrow> 'g \<Rightarrow> (unit result \<times> 'g) option" where
  "mock_simulate rs cfg c cardLast4 g =
     (if cardLast4 = TestCardDecline then
        (case mock_delay rs cfg c g of
           Some (Inr _, g) \<Rightarrow> Some (Inl (NewDeclinedError DeclineDoNotHonor), g)
         | r \<Rightarrow> r)
      else if cardLast4 = TestCardTimeout then mock_hang c g
      else
        (let (roll, g) = rndFloat64 rs g
         in if roll < acTimeoutRate cfg then mock_hang c g
            else if roll < acTimeoutRate cfg + acDeclineRate cfg then
              (case mock_delay rs cfg c g of
                 Some (Inr _, g) \<Rightarrow>
                   (let (code, g) = randomDeclineCode rs g in Some (Inl (NewDeclinedError code), g))
               | r \<Rightarrow> r)
            else mock_delay rs cfg c g))"

definition Mock_Authorize ::
  "'g rand_source \<Rightarrow> AcquirerConfig \<Rightarrow> uuid \<Rightarrow> AuthorizeRequest \<Rightarrow> ctx \<Rightarrow> 'g
     \<Rightarrow> (AuthorizeResponse result \<times> 'g) option" where
  "Mock_Authorize rs cfg u req c g =
     (case validateCard (arCard req) of
        Inl err \<Rightarrow> Some (Inl err, g)
      | Inr _ \<Rightarrow>
          if \<not> IsPositive (arAmount req) then
            Some (Inl (errorf ErrInvalidAmount ''amount must be positive''), g)
          else
            (case mock_simulate rs cfg c (last4 (cNumber (arCard req))) g of
               None \<Rightarrow> None
             | Some (Inl err, g) \<Rightarrow> Some (Inl err, g)
             | Some (Inr _, g) \<Rightarrow> Some (Inr \<lparr> rsRef = newRef ''auth'' u,
                 rsCardLast4 = last4 (cNumber (arCard req)),
                 rsCardBrand = brandOf (cNumber (arCard req)) \<rparr>, g)))"

text \<open>What \<open>Capture\<close>, \<open>Refund\<close> and \<open>Void\<close> do once their arguments are checked.\<close>

definition delayed_ref ::
  "'g rand_source \<Rightarrow> AcquirerConfig \<Rightarrow> string \<Rightarrow> uuid \<Rightarrow> ctx \<Rightarrow> 'g \<Rightarrow> (string result \<times> 'g) option" where
  "delayed_ref rs cfg kind u c g =
     (case mock_delay rs cfg c g of
        None \<Rightarrow> None
      | Some (Inl err, g) \<Rightarrow> Some (Inl err, g)
      | Some (Inr _, g) \<Rightarrow> Some (Inr (newRef kind u), g))"

definition Mock_Capture ::
  "'g rand_source \<Rightarrow> AcquirerConfig \<Rightarrow> uuid \<Rightarrow> string \<Rightarrow> Amount \<Rightarrow> ctx \<Rightarrow> 'g
     \<Rightarrow> (CaptureResponse result \<times> 'g) option" where
  "Mock_Capture rs cfg u ref amount c g =
     (if ref = [] then Some (Inl (errorf ErrValidation ''missing acquirer reference''), g)
      else if \<not> IsPositive amount then
        Some (Inl (errorf ErrInvalidAmount ''amount must be positive''), g)
      else delayed_ref rs cfg ''cap'' u c g)"

definition Mock_Refund ::
  "'g rand_source \<Rightarrow> AcquirerConfig \<Rightarrow> uuid \<Rightarrow> string \<Rightarrow> Amount \<Rightarrow> ctx \<Rightarrow> 'g
     \<Rightarrow> (RefundResponse result \<times> 'g) option" where
  "Mock_Refund rs cfg u ref amount c g =
     (if ref = [] then Some (Inl (errorf ErrValidation ''missing acquirer reference''), g)
      else if \<not> IsPositive amount then
        Some (Inl (errorf ErrInvalidAmount ''amount must be positive''), g)
      else delayed_ref rs cfg ''ref'' u c g)"

definition Mock_Void ::
  "'g rand_source \<Rightarrow> AcquirerConfig \<Rightarrow> uuid \<Rightarrow> string \<Rightarrow> ctx \<Rightarrow> 'g
     \<Rightarrow> (VoidResponse result \<times> 'g) option" where
  "Mock_Void rs cfg u ref c g =
     (if ref = [] then Some (Inl (errorf ErrValidation ''missing acquirer reference''), g)
      else delayed_ref rs cfg ''void'' u c g)"

section \<open>The guard\<close>

text \<open>
  The three clock readings of one guarded call: at admission, when its outcome is recorded,
  and when the closing log line reads the breaker's state.
\<close>

record call_times =
  ctAllow :: time
  ctOutcome :: time
  ctLog :: time

definition record_outcome :: "time \<Rightarrow> 'a result \<Rightarrow> breaker \<Rightarrow> breaker" where
  "record_outcome now res b =
     (case res of
        Inr _ \<Rightarrow> Success b
      | Inl err \<Rightarrow>
          if as_DeclinedError err \<noteq> None then Success b
          else if errors_Is err ErrValidation \<or> errors_Is err ErrInvalidAmount then Success b
          else Failure now b)"

definition guarded_do ::
  "duration \<Rightarrow> call_times \<Rightarrow> (ctx \<Rightarrow> 's \<Rightarrow> ('a result \<times> 's) option) \<Rightarrow> ctx \<Rightarrow> breaker \<times> 's
     \<Rightarrow> ('a result \<times> (breaker \<times> 's)) option" where
  "guarded_do timeout ts fn c w =
     (case Allow (ctAllow ts) (fst w) of
        (Some err, b) \<Rightarrow> Some (Inl (errorf ErrAcquirerUnavailable (error_text err)), (b, snd w))
      | (None, b) \<Rightarrow>
          (case fn (WithTimeout timeout c) (snd w) of
             None \<Rightarrow> None
           | Some (res, s) \<Rightarrow>
               Some (res, (snd (Breaker_State (ctLog ts) (record_outcome (ctOutcome ts) res b)), s))))"

definition Guarded_Authorize where
  "Guarded_Authorize timeout ts inner (req :: AuthorizeRequest) =
     guarded_do timeout ts (\<lambda>c. inner req c :: 's \<Rightarrow> (AuthorizeResponse result \<times> 's) option)"

definition Guarded_Capture where
  "Guarded_Capture timeout ts inner (ref :: string) (amount :: Amount) =
     guarded_do timeout ts (\<lambda>c. inner ref amount c :: 's \<Rightarrow> (CaptureResponse result \<times> 's) option)"

definition Guarded_Refund where
  "Guarded_Refund timeout ts inner (ref :: string) (amount :: Amount) =
     guarded_do timeout ts (\<lambda>c. inner ref amount c :: 's \<Rightarrow> (RefundResponse result \<times> 's) option)"

definition Guarded_Void where
  "Guarded_Void timeout ts inner (ref :: string) =
     guarded_do timeout ts (\<lambda>c. inner ref c :: 's \<Rightarrow> (VoidResponse result \<times> 's) option)"

definition Guarded_State :: "time \<Rightarrow> breaker \<times> 's \<Rightarrow> State \<times> (breaker \<times> 's)" where
  "Guarded_State now w = (let (st, b) = Breaker_State now (fst w) in (st, (b, snd w)))"

section \<open>The contract of the port\<close>

text \<open>
  The contract of the interface: under a context that ends, a call answers, and an error is
  a decline, unavailability or a rejected input.
\<close>

definition classified :: "error \<Rightarrow> bool" where
  "classified err \<longleftrightarrow> as_DeclinedError err \<noteq> None \<or> errors_Is err ErrAcquirerUnavailable
     \<or> errors_Is err ErrValidation \<or> errors_Is err ErrInvalidAmount"

lemma classified_simps [simp]:
  "classified (NewDeclinedError code)" "classified (errorf ErrAcquirerUnavailable m)"
  "classified (errorf ErrValidation m)" "classified (errorf ErrInvalidAmount m)"
  "classified (Invalid f m)"
  by (simp_all add: classified_def NewDeclinedError_def)

lemma WithTimeout_ends: "ctxRemaining (WithTimeout d c) \<noteq> None"
  by (auto simp: WithTimeout_def split: option.splits)

locale acquirer_contract =
  fixes call :: "ctx \<Rightarrow> 's \<Rightarrow> ('a result \<times> 's) option"
  assumes call_answers: "ctxRemaining c \<noteq> None \<Longrightarrow> call c s \<noteq> None"
    and call_classified: "call c s = Some (Inl err, s') \<Longrightarrow> classified err"
begin

lemma guarded_answers: "guarded_do timeout ts call c w \<noteq> None"
  using call_answers [OF WithTimeout_ends, of timeout c "snd w"]
  by (auto simp: guarded_do_def split: option.splits prod.splits)

lemma guarded_classified: "guarded_do timeout ts call c w = Some (Inl err, w') \<Longrightarrow> classified err"
  using call_classified
  by (auto simp: guarded_do_def split: option.splits prod.splits)

lemma guarded_contract: "acquirer_contract (guarded_do timeout ts call)"
  by unfold_locales (use guarded_answers guarded_classified in auto)

lemma guarded_counts:
  assumes closed: "brState b = StateClosed" and ret: "guarded_do timeout ts call c (b, s) = Some (res, (b', s'))"
    and un: "\<And>err. res = Inl err \<Longrightarrow> \<not> errors_Is err ErrAcquirerUnavailable"
  shows "brState b' = StateClosed \<and> brFailures b' = 0"
proof -
  have a: "Allow (ctAllow ts) b = (None, b)" using closed by (simp add: Allow_def refreshLocked_def Let_def)
  with ret obtain s'' where call: "call (WithTimeout timeout c) s = Some (res, s'')"
    and b': "b' = snd (Breaker_State (ctLog ts) (record_outcome (ctOutcome ts) res b))"
    by (auto simp: guarded_do_def split: option.splits prod.splits)
  have "record_outcome (ctOutcome ts) res b = Success b"
    using call un call_classified [of "WithTimeout timeout c" s _ s'']
    by (cases res) (auto simp: record_outcome_def classified_def)
  then show ?thesis by (simp add: b' breaker_defs)
qed

end

lemma mock_delay_Some:
  "\<exists>r g'. mock_delay rs cfg c g = Some (r, g') \<and> (r = Inr () \<or> (\<exists>m. r = Inl (errorf ErrAcquirerUnavailable m)))"
  by (cases "if wrap64 (acMaxLatency cfg - acMinLatency cfg) > 0
             then mock_int63n rs (wrap64 (acMaxLatency cfg - acMinLatency cfg)) g else (0, g)")
    (auto simp: mock_delay_def Let_def split: option.splits)

lemma mock_delay_cases:
  obtains g' where "mock_delay rs cfg c g = Some (Inr (), g')"
  | m g' where "mock_delay rs cfg c g = Some (Inl (errorf ErrAcquirerUnavailable m), g')"
  using mock_delay_Some [of rs cfg c g] by blast

lemma mock_hang_ends:
  "ctxRemaining c \<noteq> None \<Longrightarrow> \<exists>m. mock_hang c g = Some (Inl (errorf ErrAcquirerUnavailable m), g)"
  by (auto simp: mock_hang_def)

lemma mock_hang_cases: "mock_hang c g = Some (r, g') \<Longrightarrow> \<exists>m. r = Inl (errorf ErrAcquirerUnavailable m)"
  by (auto simp: mock_hang_def split: option.splits)

lemma delayed_ref_contract: "acquirer_contract (delayed_ref rs cfg kind u)"
proof
  show "delayed_ref rs cfg kind u c s \<noteq> None" for c s
    by (rule mock_delay_cases [of rs cfg c s]) (simp_all add: delayed_ref_def)
  show "delayed_ref rs cfg kind u c s = Some (Inl err, s') \<Longrightarrow> classified err" for c s err s'
    by (rule mock_delay_cases [of rs cfg c s]) (auto simp: delayed_ref_def)
qed

definition answered :: "(unit result \<times> 'g) option \<Rightarrow> bool" where
  "answered x \<longleftrightarrow> (\<exists>r g'. x = Some (r, g') \<and> (case r of Inl err \<Rightarrow> classified err | Inr _ \<Rightarrow> True))"

lemma answered_if: "answered x \<Longrightarrow> answered y \<Longrightarrow> answered (if P then x else y)"
  by simp

lemma answered_delay: "answered (mock_delay rs cfg c g)"
  using mock_delay_Some [of rs cfg c g] by (fastforce simp: answered_def)

lemma answered_declined:
  "answered (case mock_delay rs cfg c g of
      Some (Inr _, g) \<Rightarrow> (let (code, g) = f g in Some (Inl (NewDeclinedError code), g)) | r \<Rightarrow> r)"
  using mock_delay_Some [of rs cfg c g]
  by (fastforce simp: answered_def Let_def split: prod.splits)

lemma mock_simulate_cases:
  assumes "ctxRemaining c \<noteq> None"
  shows "answered (mock_simulate rs cfg c l g)"
proof -
  obtain roll g1 where roll: "rndFloat64 rs g = (roll, g1)" by fastforce
  have hang: "answered (mock_hang c h)" for h :: 'a
    using mock_hang_ends [OF assms, of h] by (auto simp: answered_def)
  show ?thesis unfolding mock_simulate_def roll Let_def prod.case
    by (intro answered_if hang answered_delay answered_declined [unfolded Let_def]
        answered_declined [where f = "\<lambda>g. (DeclineDoNotHonor, g)", unfolded Let_def prod.case])
qed

lemma mock_simulate_hanging:
  assumes "ctxRemaining c = None" and "mock_simulate rs cfg c l g = Some (Inl err, g')"
  shows "classified err"
proof -
  have d: "\<exists>g'. mock_delay rs cfg c h = Some (Inr (), g')" for h
    using assms(1) by (cases "if wrap64 (acMaxLatency cfg - acMinLatency cfg) > 0
             then mock_int63n rs (wrap64 (acMaxLatency cfg - acMinLatency cfg)) h else (0, h)")
      (auto simp: mock_delay_def Let_def)
  have h: "mock_hang c h = None" for h :: 'a using assms(1) by (simp add: mock_hang_def)
  obtain roll g1 where roll: "rndFloat64 rs g = (roll, g1)" by fastforce
  obtain g2 g3 where dd: "mock_delay rs cfg c g = Some (Inr (), g2)" "mock_delay rs cfg c g1 = Some (Inr (), g3)"
    using d by metis
  from assms(2) show ?thesis
    by (auto simp: mock_simulate_def roll h dd Let_def split: if_splits prod.splits)
qed

lemma mock_simulate_contract: "acquirer_contract (\<lambda>c. mock_simulate rs cfg c l)"
proof
  show "ctxRemaining c \<noteq> None \<Longrightarrow> mock_simulate rs cfg c l g \<noteq> None" for c g
    using mock_simulate_cases [of c rs cfg l g] by (auto simp: answered_def)
  show "mock_simulate rs cfg c l g = Some (Inl err, g') \<Longrightarrow> classified err" for c g err g'
    using mock_simulate_cases [of c rs cfg l g] mock_simulate_hanging [of c rs cfg l g err g']
    by (cases "ctxRemaining c") (auto simp: answered_def)
qed

lemmas simulate_answers = acquirer_contract.call_answers [OF mock_simulate_contract]
lemmas simulate_classified = acquirer_contract.call_classified [OF mock_simulate_contract]
lemma delayed_answers: "\<exists>r g'. delayed_ref rs cfg kind u c g = Some (r, g')"
  by (rule mock_delay_cases [of rs cfg c g]) (simp_all add: delayed_ref_def)

lemmas delayed_classified = acquirer_contract.call_classified [OF delayed_ref_contract]

lemma validateCard_classified: "validateCard c = Inl err \<Longrightarrow> classified err"
  by (auto simp: validateCard_def Let_def split: if_splits)

interpretation mock_authorize: acquirer_contract "Mock_Authorize rs cfg u req" for rs cfg u req
proof
  show "ctxRemaining c \<noteq> None \<Longrightarrow> Mock_Authorize rs cfg u req c s \<noteq> None" for c s
    using simulate_answers [of c rs cfg "last4 (cNumber (arCard req))" s]
    by (auto simp: Mock_Authorize_def split: sum.splits option.splits prod.splits)
  show "Mock_Authorize rs cfg u req c s = Some (Inl err, s') \<Longrightarrow> classified err" for c s err s'
    using simulate_classified [of rs cfg c "last4 (cNumber (arCard req))" s]
    by (auto simp: Mock_Authorize_def validateCard_classified
        split: sum.splits option.splits prod.splits if_splits)
qed

interpretation mock_capture: acquirer_contract "Mock_Capture rs cfg u ref amount" for rs cfg u ref amount
  by unfold_locales
    (auto simp: Mock_Capture_def intro: delayed_answers dest: delayed_classified split: if_splits)

interpretation mock_refund: acquirer_contract "Mock_Refund rs cfg u ref amount" for rs cfg u ref amount
  by unfold_locales
    (auto simp: Mock_Refund_def intro: delayed_answers dest: delayed_classified split: if_splits)

interpretation mock_void: acquirer_contract "Mock_Void rs cfg u ref" for rs cfg u ref
  by unfold_locales
    (auto simp: Mock_Void_def intro: delayed_answers dest: delayed_classified split: if_splits)

lemmas guarded_ops = Guarded_Authorize_def Guarded_Capture_def Guarded_Refund_def Guarded_Void_def

section \<open>The checksum\<close>

definition luhn_digit :: "bool \<Rightarrow> char \<Rightarrow> int" where
  "luhn_digit alt c =
     (let n = int (of_char c) - 48 in if alt then (if n * 2 > 9 then n * 2 - 9 else n * 2) else n)"

lemma luhn_loop_Cons: "luhn_loop alt sm (c # cs) = luhn_loop (\<not> alt) (sm + luhn_digit alt c) cs"
  by (simp add: luhn_digit_def Let_def)

lemma luhn_loop_acc: "luhn_loop alt sm cs = sm + luhn_loop alt 0 cs"
proof (induction cs arbitrary: alt sm)
  case (Cons c cs)
  show ?case
    using Cons.IH [of "\<not> alt" "sm + luhn_digit alt c"] Cons.IH [of "\<not> alt" "luhn_digit alt c"]
    by (simp add: luhn_loop_Cons del: luhn_loop.simps(2))
qed simp

lemma luhn_loop_append:
  "luhn_loop alt 0 (xs @ ys) =
     luhn_loop alt 0 xs + luhn_loop (if even (length xs) then alt else \<not> alt) 0 ys"
proof (induction xs arbitrary: alt)
  case (Cons x xs)
  have "luhn_loop alt 0 ((x # xs) @ ys) = luhn_digit alt x + luhn_loop (\<not> alt) 0 (xs @ ys)"
    by (simp only: append_Cons luhn_loop_Cons add_0_left luhn_loop_acc [of _ "luhn_digit alt x"])
  also have "\<dots> = luhn_loop alt 0 (x # xs) + luhn_loop (if even (length (x # xs)) then alt else \<not> alt) 0 ys"
    by (simp only: Cons.IH luhn_loop_Cons add_0_left luhn_loop_acc [of _ "luhn_digit alt x"]) simp
  finally show ?case .
qed simp

lemma digit_cases:
  assumes "is_digit c"
  obtains n where "n < 10" "c = char_of (48 + n :: nat)"
proof
  show "(of_char c :: nat) - 48 < 10" "c = char_of (48 + (of_char c - 48) :: nat)"
    using assms by (auto simp: is_digit_def)
qed

text \<open>Both weights permute the ten digits.\<close>

lemma luhn_digit_inj:
  assumes "is_digit c" and "is_digit c'" and "(luhn_digit alt c - luhn_digit alt c') mod 10 = 0"
  shows "c = c'"
proof -
  obtain n m where n: "n < 10" "c = char_of (48 + n :: nat)" and m: "m < 10" "c' = char_of (48 + m :: nat)"
    using assms(1,2) by (meson digit_cases)
  have v: "luhn_digit alt (char_of (48 + k)) =
      (if alt then (if int k * 2 > 9 then int k * 2 - 9 else int k * 2) else int k)" if "k < 10" for k :: nat
    using that by (simp add: luhn_digit_def Let_def of_char_of)
  have "0 \<le> int n" "int n < 10" "0 \<le> int m" "int m < 10" using n(1) m(1) by simp_all
  then have "int n = int m"
    using assms(3) unfolding n(2) m(2) v [OF n(1)] v [OF m(1)]
    by (cases alt) (simp_all split: if_splits, presburger+)
  then have "n = m" by simp
  then show ?thesis using n m by simp
qed

section \<open>Properties\<close>

text \<open>
  C40. Every guarded call to the simulator answers, whatever the configuration, the test
  cards, the random draws and the caller's context (which may never end): a hanging
  processor becomes an error, and every error is a decline, unavailability or a rejected
  input.
\<close>

theorem guarded_calls_answer:
  "(\<exists>res w'. Guarded_Authorize timeout ts (Mock_Authorize rs cfg u) req c w = Some (res, w')
      \<and> (case res of Inl err \<Rightarrow> classified err | Inr _ \<Rightarrow> True))
   \<and> (\<exists>res w'. Guarded_Capture timeout ts (Mock_Capture rs cfg u) ref amount c w = Some (res, w')
      \<and> (case res of Inl err \<Rightarrow> classified err | Inr _ \<Rightarrow> True))
   \<and> (\<exists>res w'. Guarded_Refund timeout ts (Mock_Refund rs cfg u) ref amount c w = Some (res, w')
      \<and> (case res of Inl err \<Rightarrow> classified err | Inr _ \<Rightarrow> True))
   \<and> (\<exists>res w'. Guarded_Void timeout ts (Mock_Void rs cfg u) ref c w = Some (res, w')
      \<and> (case res of Inl err \<Rightarrow> classified err | Inr _ \<Rightarrow> True))"
proof -
  have a: "\<exists>res w'. guarded_do timeout ts f c w = Some (res, w')
      \<and> (case res of Inl err \<Rightarrow> classified err | Inr _ \<Rightarrow> True)"
    if "acquirer_contract f" for f :: "ctx \<Rightarrow> 'a \<Rightarrow> ('b result \<times> 'a) option"
    using acquirer_contract.guarded_answers [OF that, of timeout ts c w]
      acquirer_contract.guarded_classified [OF that, of timeout ts c w]
    by (cases "guarded_do timeout ts f c w") (auto split: sum.splits)
  show ?thesis unfolding guarded_ops
    by (intro conjI; rule a)
      (rule mock_authorize.acquirer_contract_axioms mock_capture.acquirer_contract_axioms
        mock_refund.acquirer_contract_axioms mock_void.acquirer_contract_axioms)+
qed

text \<open>
  An open breaker answers without calling the processor: inside the cooldown the guarded
  call reports unavailability and leaves the processor's state untouched, even for a
  processor that would never answer.
\<close>

theorem open_breaker_fails_fast:
  assumes "brState b = StateOpen" and "0 \<le> ctAllow ts - brOpenedAt b"
    and "ctAllow ts - brOpenedAt b < brCooldown b" and "ctAllow ts - brOpenedAt b < 2 ^ 63"
  shows "\<exists>err. Guarded_Authorize timeout ts inner req c (b, s) = Some (Inl err, (b, s))
     \<and> errors_Is err ErrAcquirerUnavailable"
  using assms by (simp add: Guarded_Authorize_def guarded_do_def Allow_def refreshLocked_def Let_def
      time_Sub_def minDuration_def maxDuration_def)

theorem open_breaker_fails_fast_witness:
  "\<exists>err. Guarded_Authorize 3 \<lparr> ctAllow = 6, ctOutcome = 7, ctLog = 8 \<rparr> (\<lambda>_ _ _. None)
      \<lparr> arTransactionID = ''t'', arAmount = 1, arCurrency = VND,
        arCard = \<lparr> cNumber = ''4242'', cExpMonth = 1, cExpYear = 2030, cCVV = ''123'' \<rparr> \<rparr>
      \<lparr> ctxRemaining = None, ctxErr = Sentinel ContextCanceled \<rparr>
      (Failure 5 (NewBreaker 1 10), ()) = Some (Inl err, (Failure 5 (NewBreaker 1 10), ()))
     \<and> errors_Is err ErrAcquirerUnavailable"
  using open_breaker_fails_fast [of "Failure 5 (NewBreaker 1 10)" "\<lparr> ctAllow = 6, ctOutcome = 7, ctLog = 8 \<rparr>"]
  by (simp add: Failure_def NewBreaker_def Let_def)

text \<open>
  A decline or a rejected input never counts against the processor: a guarded
  authorization on a closed breaker whose error is not unavailability leaves the breaker
  closed with its failure count cleared.
\<close>

theorem declines_never_trip:
  assumes "brState b = StateClosed"
    and "Guarded_Authorize timeout ts (Mock_Authorize rs cfg u) req c (b, s) = Some (Inl err, (b', s'))"
    and "\<not> errors_Is err ErrAcquirerUnavailable"
  shows "brState b' = StateClosed \<and> brFailures b' = 0"
  using mock_authorize.guarded_counts [OF assms(1) assms(2) [unfolded Guarded_Authorize_def]] assms(3) by simp

definition demo_rand :: "unit rand_source" where
  "demo_rand = \<lparr> rndFloat64 = (\<lambda>g. (1 / 2, g)), rndInt63n = (\<lambda>n g. (0, g)) \<rparr>"

definition demo_acq_cfg :: AcquirerConfig where
  "demo_acq_cfg = \<lparr> acDeclineRate = 0, acTimeoutRate = 0, acTimeout = 100, acMinLatency = 1,
     acMaxLatency = 5, acBreakerThreshold = 3, acBreakerCooldown = 10 \<rparr>"

definition demo_card :: "string \<Rightarrow> Card" where
  "demo_card n = \<lparr> cNumber = n, cExpMonth = 1, cExpYear = 2030, cCVV = ''123'' \<rparr>"

theorem declines_never_trip_witness:
  "\<exists>err b' s'. Guarded_Authorize 100 \<lparr> ctAllow = 6, ctOutcome = 7, ctLog = 8 \<rparr>
       (Mock_Authorize demo_rand demo_acq_cfg ''u'')
       \<lparr> arTransactionID = ''t'', arAmount = 1, arCurrency = VND, arCard = demo_card ''1'' \<rparr>
       \<lparr> ctxRemaining = None, ctxErr = Sentinel ContextCanceled \<rparr>
       ((NewBreaker 3 10)\<lparr> brFailures := 2 \<rparr>, ()) = Some (Inl err, (b', s'))
     \<and> brState b' = StateClosed \<and> brFailures b' = 0"
proof -
  let ?b = "(NewBreaker 3 10)\<lparr> brFailures := 2 \<rparr>"
  let ?req = "\<lparr> arTransactionID = ''t'', arAmount = 1, arCurrency = VND, arCard = demo_card ''1'' \<rparr>"
  let ?ts = "\<lparr> ctAllow = 6, ctOutcome = 7, ctLog = 8 \<rparr>"
  let ?c = "\<lparr> ctxRemaining = None, ctxErr = Sentinel ContextCanceled \<rparr>"
  have st: "brState ?b = StateClosed" by (simp add: NewBreaker_def)
  obtain b' s' where r: "Guarded_Authorize 100 ?ts (Mock_Authorize demo_rand demo_acq_cfg ''u'') ?req ?c (?b, ())
      = Some (Inl (Invalid ''card.number'' ''must be 12 to 19 digits''), (b', s'))"
    by (simp add: Guarded_Authorize_def guarded_do_def Mock_Authorize_def validateCard_def demo_card_def
        Allow_def refreshLocked_def NewBreaker_def is_digit_def Breaker_State_def Let_def)
  from declines_never_trip [OF st r] r show ?thesis by auto
qed

text \<open>
  The card checksum catches every single mistyped digit: of two digit strings that differ
  in exactly one place, at most one passes.
\<close>

theorem luhn_catches_typo:
  assumes "is_digit c" and "is_digit c'" and "c \<noteq> c'" and "luhn (xs @ c # ys)"
  shows "\<not> luhn (xs @ c' # ys)"
proof
  assume l: "luhn (xs @ c' # ys)"
  let ?alt = "odd (length ys)"
  have e: "luhn_loop False 0 (rev (xs @ d # ys)) =
      luhn_loop False 0 (rev ys) + luhn_digit ?alt d + luhn_loop (\<not> ?alt) 0 (rev xs)" for d
    using luhn_loop_append [of False "rev ys" "d # rev xs"]
    by (simp add: luhn_loop_Cons luhn_loop_acc [of _ "luhn_digit _ d"] del: luhn_loop.simps(2))
  have "(luhn_loop False 0 (rev (xs @ c # ys)) - luhn_loop False 0 (rev (xs @ c' # ys))) mod 10 = 0"
    using assms(4) l by (simp add: luhn_def mod_diff_eq [symmetric])
  then have "(luhn_digit ?alt c - luhn_digit ?alt c') mod 10 = 0" unfolding e by (simp add: algebra_simps)
  then have "c = c'" by (rule luhn_digit_inj [OF assms(1,2)])
  then show False using assms(3) by simp
qed

theorem luhn_catches_typo_witness:
  "luhn ''4242424242424242'' \<and> \<not> luhn ''4242424242424243''"
proof -
  have l: "luhn ''4242424242424242''" by (simp add: luhn_def)
  have d: "is_digit (CHR ''2'')" "is_digit (CHR ''3'')" by (simp_all add: is_digit_def)
  have "''4242424242424242'' = ''424242424242424'' @ CHR ''2'' # []" by simp
  from luhn_catches_typo [OF d, of "''424242424242424''" "[]"] l show ?thesis by simp
qed

end
