(* ===== verification/Txn.thy ===== *)
theory Txn
  imports Money
begin

text \<open>
  \<open>internal/domain/transaction.go\<close>: the transaction record, its state machine and the
  operations of the domain layer. A method that mutates its receiver and returns an error
  is a function into \<open>error + transaction\<close>; on an error every caller drops the receiver,
  so its partial mutation is not part of the model.
\<close>

section \<open>Status and the transition table\<close>

datatype Status =
    StatusCreated | StatusAuthorized | StatusCaptured | StatusSettled
  | StatusRefunded | StatusVoided | StatusFailed | OtherStatus string

fun status_string :: "Status \<Rightarrow> string" where
  "status_string StatusCreated = ''created''"
| "status_string StatusAuthorized = ''authorized''"
| "status_string StatusCaptured = ''captured''"
| "status_string StatusSettled = ''settled''"
| "status_string StatusRefunded = ''refunded''"
| "status_string StatusVoided = ''voided''"
| "status_string StatusFailed = ''failed''"
| "status_string (OtherStatus s) = s"

definition statusOf :: "string \<Rightarrow> Status" where
  "statusOf s =
     (case find (\<lambda>st. status_string st = s)
        [StatusCreated, StatusAuthorized, StatusCaptured, StatusSettled,
         StatusRefunded, StatusVoided, StatusFailed]
      of Some st \<Rightarrow> st | None \<Rightarrow> OtherStatus s)"

definition AuthorizationValidity :: duration where
  "AuthorizationValidity = 7 * 24 * 3600 * Second"

fun allowedTransitions :: "Status \<Rightarrow> Status list option" where
  "allowedTransitions StatusCreated = Some [StatusAuthorized, StatusFailed]"
| "allowedTransitions StatusAuthorized = Some [StatusCaptured, StatusVoided, StatusFailed]"
| "allowedTransitions StatusCaptured = Some [StatusSettled, StatusRefunded]"
| "allowedTransitions StatusSettled = Some [StatusRefunded]"
| "allowedTransitions StatusFailed = Some []"
| "allowedTransitions StatusVoided = Some []"
| "allowedTransitions StatusRefunded = Some []"
| "allowedTransitions (OtherStatus s) = None"

text \<open>Indexing a missing key of a Go map gives the nil slice.\<close>

definition transitions_of :: "Status \<Rightarrow> Status list" where
  "transitions_of s = (case allowedTransitions s of None \<Rightarrow> [] | Some ts \<Rightarrow> ts)"

definition IsTerminal :: "Status \<Rightarrow> bool" where
  "IsTerminal s \<longleftrightarrow> length (transitions_of s) = 0"

definition Status_Valid :: "Status \<Rightarrow> bool" where
  "Status_Valid s \<longleftrightarrow> allowedTransitions s \<noteq> None"

section \<open>The transaction and its operations\<close>

type_synonym metadata = "(string \<times> string) list option" \<comment> \<open>\<open>None\<close> is the nil map\<close>

record transaction =
  tID :: uuid
  tMerchantID :: uuid
  tReference :: string
  tAmount :: Amount
  tCurrency :: Currency
  tStatus :: Status
  tCapturedAmount :: Amount
  tRefundedAmount :: Amount
  tCardLast4 :: string
  tCardBrand :: string
  tAcquirerRef :: string
  tFailureCode :: string
  tMetadata :: metadata
  tVersion :: int
  tAuthorizedAt :: "time option"
  tCapturedAt :: "time option"
  tSettledAt :: "time option"
  tCreatedAt :: time
  tUpdatedAt :: time

text \<open>The result of \<open>uuid.New()\<close> is the argument \<open>newID\<close>.\<close>

definition NewTransaction ::
  "uuid \<Rightarrow> uuid \<Rightarrow> string \<Rightarrow> Amount \<Rightarrow> Currency \<Rightarrow> metadata \<Rightarrow> time \<Rightarrow> transaction result" where
  "NewTransaction newID merchantID reference amount currency metadata now =
     (if reference = [] then Inl (Invalid ''reference'' ''must not be empty'')
      else if length reference > 128 then
        Inl (Invalid ''reference'' ''must be at most 128 characters'')
      else if \<not> IsPositive amount then Inl (Invalid ''amount'' ''must be greater than zero'')
      else if \<not> Currency_Valid currency then
        Inl (Invalid ''currency'' ''must be one of VND, USD'')
      else Inr \<lparr> tID = newID, tMerchantID = merchantID, tReference = reference,
        tAmount = amount, tCurrency = currency, tStatus = StatusCreated,
        tCapturedAmount = 0, tRefundedAmount = 0, tCardLast4 = [], tCardBrand = [],
        tAcquirerRef = [], tFailureCode = [], tMetadata = metadata, tVersion = 0,
        tAuthorizedAt = None, tCapturedAt = None, tSettledAt = None,
        tCreatedAt = now, tUpdatedAt = now \<rparr>)"

definition CanTransitionTo :: "transaction \<Rightarrow> Status \<Rightarrow> bool" where
  "CanTransitionTo t nxt \<longleftrightarrow> list_ex (\<lambda>s. s = nxt) (transitions_of (tStatus t))"

definition TransitionTo :: "Status \<Rightarrow> transaction \<Rightarrow> transaction result" where
  "TransitionTo nxt t =
     (if \<not> CanTransitionTo t nxt then
        Inl (errorf ErrInvalidStateTransition
          (status_string (tStatus t) @ '' -> '' @ status_string nxt))
      else Inr (t\<lparr> tStatus := nxt \<rparr>))"

definition RemainingCapturable :: "transaction \<Rightarrow> Amount" where
  "RemainingCapturable t = wrap64 (tAmount t - tCapturedAmount t)"

definition RemainingRefundable :: "transaction \<Rightarrow> Amount" where
  "RemainingRefundable t = wrap64 (tCapturedAmount t - tRefundedAmount t)"

definition AuthorizationExpiresAt :: "transaction \<Rightarrow> time option" where
  "AuthorizationExpiresAt t =
     (case tAuthorizedAt t of None \<Rightarrow> None | Some a \<Rightarrow> Some (a + AuthorizationValidity))"

definition AuthorizationExpired :: "transaction \<Rightarrow> time \<Rightarrow> bool" where
  "AuthorizationExpired t now =
     (case AuthorizationExpiresAt t of None \<Rightarrow> False | Some exp \<Rightarrow> now > exp)"

definition Transaction_Authorize ::
  "string \<Rightarrow> string \<Rightarrow> string \<Rightarrow> time \<Rightarrow> transaction \<Rightarrow> transaction result" where
  "Transaction_Authorize acquirerRef cardLast4 cardBrand now t =
     (case TransitionTo StatusAuthorized t of
        Inl err \<Rightarrow> Inl err
      | Inr t \<Rightarrow> Inr (t\<lparr> tAcquirerRef := acquirerRef, tCardLast4 := cardLast4,
          tCardBrand := cardBrand, tAuthorizedAt := Some now, tUpdatedAt := now \<rparr>))"

definition Transaction_Fail :: "string \<Rightarrow> time \<Rightarrow> transaction \<Rightarrow> transaction result" where
  "Transaction_Fail code now t =
     (case TransitionTo StatusFailed t of
        Inl err \<Rightarrow> Inl err
      | Inr t \<Rightarrow> Inr (t\<lparr> tFailureCode := code, tUpdatedAt := now \<rparr>))"

definition Transaction_Void :: "time \<Rightarrow> transaction \<Rightarrow> transaction result" where
  "Transaction_Void now t =
     (if tCapturedAmount t > 0 then
        Inl (errorf ErrInvalidStateTransition ''cannot void a partially captured transaction'')
      else case TransitionTo StatusVoided t of
        Inl err \<Rightarrow> Inl err
      | Inr t \<Rightarrow> Inr (t\<lparr> tUpdatedAt := now \<rparr>))"

definition Transaction_Capture :: "Amount \<Rightarrow> time \<Rightarrow> transaction \<Rightarrow> transaction result" where
  "Transaction_Capture amount now t =
     (if \<not> IsPositive amount then Inl (Invalid ''amount'' ''must be greater than zero'')
      else if tStatus t \<noteq> StatusAuthorized \<and> tStatus t \<noteq> StatusCaptured then
        Inl (errorf ErrInvalidStateTransition (''cannot capture from '' @ status_string (tStatus t)))
      else if AuthorizationExpired t now then Inl (Sentinel ErrAuthorizationExpired)
      else if amount > RemainingCapturable t then
        Inl (errorf ErrCaptureExceedsAuthlzd
          (show_int amount @ '' requested, '' @ show_int (RemainingCapturable t) @ '' remaining''))
      else
        case (if tStatus t = StatusAuthorized then TransitionTo StatusCaptured t else Inr t) of
          Inl err \<Rightarrow> Inl err
        | Inr t \<Rightarrow> Inr (t\<lparr> tCapturedAmount := wrap64 (tCapturedAmount t + amount),
            tCapturedAt := (case tCapturedAt t of None \<Rightarrow> Some now | Some c \<Rightarrow> Some c),
            tUpdatedAt := now \<rparr>))"

definition Transaction_Refund :: "Amount \<Rightarrow> time \<Rightarrow> transaction \<Rightarrow> transaction result" where
  "Transaction_Refund amount now t =
     (if \<not> IsPositive amount then Inl (Invalid ''amount'' ''must be greater than zero'')
      else if tStatus t \<noteq> StatusCaptured \<and> tStatus t \<noteq> StatusSettled then
        Inl (errorf ErrInvalidStateTransition (''cannot refund from '' @ status_string (tStatus t)))
      else if amount > RemainingRefundable t then
        Inl (errorf ErrRefundExceedsCaptured
          (show_int amount @ '' requested, '' @ show_int (RemainingRefundable t) @ '' remaining''))
      else
        (let t = t\<lparr> tRefundedAmount := wrap64 (tRefundedAmount t + amount) \<rparr>
         in case (if tRefundedAmount t = tCapturedAmount t then TransitionTo StatusRefunded t
                  else Inr t) of
              Inl err \<Rightarrow> Inl err
            | Inr t \<Rightarrow> Inr (t\<lparr> tUpdatedAt := now \<rparr>)))"

definition Transaction_Settle :: "time \<Rightarrow> transaction \<Rightarrow> transaction result" where
  "Transaction_Settle now t =
     (case TransitionTo StatusSettled t of
        Inl err \<Rightarrow> Inl err
      | Inr t \<Rightarrow> Inr (t\<lparr> tSettledAt := Some now, tUpdatedAt := now \<rparr>))"

definition NetPayable :: "transaction \<Rightarrow> int \<Rightarrow> Amount" where
  "NetPayable t feeBPS =
     wrap64 (wrap64 (tCapturedAmount t - Fee (tCapturedAmount t) feeBPS) - tRefundedAmount t)"

lemmas txn_op_defs = Transaction_Authorize_def Transaction_Fail_def Transaction_Void_def
  Transaction_Capture_def Transaction_Refund_def Transaction_Settle_def TransitionTo_def
  CanTransitionTo_def transitions_of_def

section \<open>Well-formed transactions\<close>

text \<open>
  What every row of the table satisfies: the amounts are ordered, and the status says how
  much money has moved and which instants are recorded.
\<close>

definition wf_status :: "transaction \<Rightarrow> bool" where
  "wf_status t =
     (case tStatus t of
        StatusCreated \<Rightarrow> tCapturedAmount t = 0 \<and> tAuthorizedAt t = None \<and> tCapturedAt t = None
      | StatusAuthorized \<Rightarrow> tCapturedAmount t = 0 \<and> tAuthorizedAt t \<noteq> None \<and> tCapturedAt t = None
      | StatusVoided \<Rightarrow> tCapturedAmount t = 0 \<and> tCapturedAt t = None
      | StatusFailed \<Rightarrow> tCapturedAmount t = 0 \<and> tCapturedAt t = None
      | StatusCaptured \<Rightarrow> tRefundedAmount t < tCapturedAmount t \<and> tCapturedAt t \<noteq> None
      | StatusSettled \<Rightarrow> tRefundedAmount t < tCapturedAmount t \<and> tCapturedAt t \<noteq> None
                          \<and> tSettledAt t \<noteq> None
      | StatusRefunded \<Rightarrow> 0 < tCapturedAmount t \<and> tRefundedAmount t = tCapturedAmount t
                          \<and> tCapturedAt t \<noteq> None
      | OtherStatus s \<Rightarrow> False)"

definition wf_txn :: "transaction \<Rightarrow> bool" where
  "wf_txn t \<longleftrightarrow> 0 < tAmount t \<and> in64 (tAmount t) \<and> Currency_Valid (tCurrency t)
     \<and> 0 \<le> tRefundedAmount t \<and> tRefundedAmount t \<le> tCapturedAmount t
     \<and> tCapturedAmount t \<le> tAmount t \<and> wf_status t"

lemma wf_txn_bounds:
  assumes "wf_txn t"
  shows "in64 (tAmount t)" "0 < tAmount t" "0 \<le> tRefundedAmount t"
    "tRefundedAmount t \<le> tCapturedAmount t" "tCapturedAmount t \<le> tAmount t"
    "0 \<le> tCapturedAmount t" "Currency_Valid (tCurrency t)"
  using assms by (auto simp: wf_txn_def)

lemma wf_remaining [simp]:
  assumes "wf_txn t"
  shows "RemainingCapturable t = tAmount t - tCapturedAmount t"
    and "RemainingRefundable t = tCapturedAmount t - tRefundedAmount t"
  using wf_txn_bounds [OF assms]
  by (simp_all add: RemainingCapturable_def RemainingRefundable_def wrap64_id in64_def)

text \<open>The captured instant is set exactly in the states in which money has been captured.\<close>

lemma wf_captured_status:
  assumes "wf_txn t"
  shows "tCapturedAt t \<noteq> None \<longleftrightarrow>
    tStatus t = StatusCaptured \<or> tStatus t = StatusSettled \<or> tStatus t = StatusRefunded"
  using assms by (cases "tStatus t") (auto simp: wf_txn_def wf_status_def)

lemma wf_captured_pos:
  assumes "wf_txn t"
  shows "tCapturedAt t \<noteq> None \<longleftrightarrow> 0 < tCapturedAmount t"
  using assms by (cases "tStatus t") (auto simp: wf_txn_def wf_status_def)

section \<open>The contract of a lifecycle operation\<close>

text \<open>What no operation of the domain layer changes.\<close>

definition same_identity :: "transaction \<Rightarrow> transaction \<Rightarrow> bool" where
  "same_identity t t' \<longleftrightarrow> tID t' = tID t \<and> tMerchantID t' = tMerchantID t
     \<and> tReference t' = tReference t \<and> tAmount t' = tAmount t \<and> tCurrency t' = tCurrency t
     \<and> tMetadata t' = tMetadata t \<and> tVersion t' = tVersion t \<and> tCreatedAt t' = tCreatedAt t"

locale lifecycle_operation =
  fixes oper :: "transaction \<Rightarrow> transaction result"
  assumes oper_wf: "wf_txn t \<Longrightarrow> oper t = Inr t' \<Longrightarrow> wf_txn t'"
    and oper_status: "oper t = Inr t' \<Longrightarrow>
      (tStatus t' = tStatus t \<and> \<not> IsTerminal (tStatus t)) \<or> tStatus t' \<in> set (transitions_of (tStatus t))"
    and oper_identity: "oper t = Inr t' \<Longrightarrow> same_identity t t'"
    and oper_mono: "wf_txn t \<Longrightarrow> oper t = Inr t' \<Longrightarrow>
      tCapturedAmount t \<le> tCapturedAmount t' \<and> tRefundedAmount t \<le> tRefundedAmount t'"
begin

lemma oper_terminal: "IsTerminal (tStatus t) \<Longrightarrow> \<exists>err. oper t = Inl err"
  using oper_status [of t] by (cases "oper t") (auto simp: IsTerminal_def)

end

lemma IsTerminal_simps [simp]:
  "\<not> IsTerminal StatusCreated" "\<not> IsTerminal StatusAuthorized" "\<not> IsTerminal StatusCaptured"
  "\<not> IsTerminal StatusSettled" "IsTerminal StatusFailed" "IsTerminal StatusVoided"
  "IsTerminal StatusRefunded" "IsTerminal (OtherStatus s)"
  by (simp_all add: IsTerminal_def transitions_of_def)

lemma TransitionTo_Inr:
  "TransitionTo nxt t = Inr t' \<longleftrightarrow> nxt \<in> set (transitions_of (tStatus t)) \<and> t' = t\<lparr> tStatus := nxt \<rparr>"
  by (auto simp: TransitionTo_def CanTransitionTo_def list_ex_iff split: if_splits)

lemma transitions_of_iff:
  "StatusAuthorized \<in> set (transitions_of s) \<longleftrightarrow> s = StatusCreated"
  "StatusFailed \<in> set (transitions_of s) \<longleftrightarrow> s = StatusCreated \<or> s = StatusAuthorized"
  "StatusVoided \<in> set (transitions_of s) \<longleftrightarrow> s = StatusAuthorized"
  "StatusCaptured \<in> set (transitions_of s) \<longleftrightarrow> s = StatusAuthorized"
  "StatusSettled \<in> set (transitions_of s) \<longleftrightarrow> s = StatusCaptured"
  "StatusRefunded \<in> set (transitions_of s) \<longleftrightarrow> s = StatusCaptured \<or> s = StatusSettled"
  by (cases s; simp add: transitions_of_def)+

text \<open>The success of each operation, as an equivalence.\<close>

lemma Authorize_Inr:
  "Transaction_Authorize r l b now t = Inr t' \<longleftrightarrow> tStatus t = StatusCreated \<and>
     t' = t\<lparr> tStatus := StatusAuthorized, tAcquirerRef := r, tCardLast4 := l, tCardBrand := b,
             tAuthorizedAt := Some now, tUpdatedAt := now \<rparr>"
  by (auto simp: Transaction_Authorize_def TransitionTo_def CanTransitionTo_def list_ex_iff transitions_of_iff
      split: if_splits)

lemma Fail_Inr:
  "Transaction_Fail code now t = Inr t' \<longleftrightarrow>
     (tStatus t = StatusCreated \<or> tStatus t = StatusAuthorized) \<and>
     t' = t\<lparr> tStatus := StatusFailed, tFailureCode := code, tUpdatedAt := now \<rparr>"
  by (auto simp: Transaction_Fail_def TransitionTo_def CanTransitionTo_def list_ex_iff transitions_of_iff
      split: if_splits)

lemma Void_Inr:
  "Transaction_Void now t = Inr t' \<longleftrightarrow> tCapturedAmount t \<le> 0 \<and> tStatus t = StatusAuthorized \<and>
     t' = t\<lparr> tStatus := StatusVoided, tUpdatedAt := now \<rparr>"
  by (auto simp: Transaction_Void_def TransitionTo_def CanTransitionTo_def list_ex_iff transitions_of_iff
      split: if_splits)

lemma Settle_Inr:
  "Transaction_Settle now t = Inr t' \<longleftrightarrow> tStatus t = StatusCaptured \<and>
     t' = t\<lparr> tStatus := StatusSettled, tSettledAt := Some now, tUpdatedAt := now \<rparr>"
  by (auto simp: Transaction_Settle_def TransitionTo_def CanTransitionTo_def list_ex_iff transitions_of_iff
      split: if_splits)

lemma Capture_Inr:
  "Transaction_Capture amount now t = Inr t' \<longleftrightarrow>
     0 < amount \<and> (tStatus t = StatusAuthorized \<or> tStatus t = StatusCaptured) \<and>
     \<not> AuthorizationExpired t now \<and> amount \<le> RemainingCapturable t \<and>
     t' = t\<lparr> tStatus := StatusCaptured, tCapturedAmount := wrap64 (tCapturedAmount t + amount),
             tCapturedAt := (case tCapturedAt t of None \<Rightarrow> Some now | Some c \<Rightarrow> Some c),
             tUpdatedAt := now \<rparr>"
  by (auto simp: Transaction_Capture_def TransitionTo_def CanTransitionTo_def transitions_of_def
      IsPositive_def split: if_splits option.splits)

lemma Refund_Inr:
  "Transaction_Refund amount now t = Inr t' \<longleftrightarrow>
     0 < amount \<and> (tStatus t = StatusCaptured \<or> tStatus t = StatusSettled) \<and>
     amount \<le> RemainingRefundable t \<and>
     t' = t\<lparr> tStatus := (if wrap64 (tRefundedAmount t + amount) = tCapturedAmount t
                         then StatusRefunded else tStatus t),
             tRefundedAmount := wrap64 (tRefundedAmount t + amount), tUpdatedAt := now \<rparr>"
  by (auto simp: Transaction_Refund_def TransitionTo_def CanTransitionTo_def transitions_of_def
      IsPositive_def Let_def split: if_splits)

lemmas txn_op_Inr = Authorize_Inr Fail_Inr Void_Inr Settle_Inr Capture_Inr Refund_Inr

text \<open>Within the bounds of a well-formed row the additions do not wrap.\<close>

lemma Capture_wf_Inr:
  assumes "wf_txn t" and "Transaction_Capture amount now t = Inr t'"
  shows "tCapturedAmount t' = tCapturedAmount t + amount" and "tStatus t' = StatusCaptured"
    and "tRefundedAmount t' = tRefundedAmount t" and "tCapturedAt t' \<noteq> None"
    and "tCapturedAt t \<noteq> None \<Longrightarrow> tCapturedAt t' = tCapturedAt t"
    and "tCapturedAt t = None \<Longrightarrow> tCapturedAt t' = Some now"
  using assms wf_txn_bounds [OF assms(1)]
  by (auto simp: Capture_Inr wrap64_id in64_def split: option.splits)

lemma Refund_wf_Inr:
  assumes "wf_txn t" and "Transaction_Refund amount now t = Inr t'"
  shows "tRefundedAmount t' = tRefundedAmount t + amount"
    and "tCapturedAmount t' = tCapturedAmount t" and "tCapturedAt t' = tCapturedAt t"
    and "tStatus t' = (if tRefundedAmount t + amount = tCapturedAmount t then StatusRefunded
                       else tStatus t)"
  using assms wf_txn_bounds [OF assms(1)]
  by (auto simp: Refund_Inr wrap64_id in64_def)

lemma wf_Authorize: "wf_txn t \<Longrightarrow> Transaction_Authorize r l b now t = Inr t' \<Longrightarrow> wf_txn t'"
  by (auto simp: Authorize_Inr wf_txn_def wf_status_def)

lemma wf_Fail: "wf_txn t \<Longrightarrow> Transaction_Fail code now t = Inr t' \<Longrightarrow> wf_txn t'"
  by (auto simp: Fail_Inr wf_txn_def wf_status_def)

lemma wf_Void: "wf_txn t \<Longrightarrow> Transaction_Void now t = Inr t' \<Longrightarrow> wf_txn t'"
  by (auto simp: Void_Inr wf_txn_def wf_status_def)

lemma wf_Settle: "wf_txn t \<Longrightarrow> Transaction_Settle now t = Inr t' \<Longrightarrow> wf_txn t'"
  by (auto simp: Settle_Inr wf_txn_def wf_status_def)

lemma wf_Capture:
  assumes wf: "wf_txn t" and cap: "Transaction_Capture amount now t = Inr t'"
  shows "wf_txn t'"
  using assms Capture_wf_Inr [OF wf cap] wf_txn_bounds [OF wf]
  by (auto simp: Capture_Inr wf_txn_def wf_status_def)

lemma wf_Refund:
  assumes wf: "wf_txn t" and ref: "Transaction_Refund amount now t = Inr t'"
  shows "wf_txn t'"
  using assms Refund_wf_Inr [OF wf ref] wf_txn_bounds [OF wf]
  by (auto simp: Refund_Inr wf_txn_def wf_status_def split: if_splits)

interpretation authorize_op: lifecycle_operation "Transaction_Authorize r l b now" for r l b now
  by unfold_locales
    (auto simp: Authorize_Inr same_identity_def transitions_of_def intro: wf_Authorize)

interpretation fail_op: lifecycle_operation "Transaction_Fail code now" for code now
  by unfold_locales (auto simp: Fail_Inr same_identity_def transitions_of_def intro: wf_Fail)

interpretation void_op: lifecycle_operation "Transaction_Void now" for now
  by unfold_locales (auto simp: Void_Inr same_identity_def transitions_of_def intro: wf_Void)

interpretation settle_op: lifecycle_operation "Transaction_Settle now" for now
  by unfold_locales (auto simp: Settle_Inr same_identity_def transitions_of_def intro: wf_Settle)

interpretation capture_op: lifecycle_operation "Transaction_Capture amount now" for amount now
proof unfold_locales
  fix t t' assume "wf_txn t" and cap: "Transaction_Capture amount now t = Inr t'"
  then show "wf_txn t'" by (rule wf_Capture)
  show "tCapturedAmount t \<le> tCapturedAmount t' \<and> tRefundedAmount t \<le> tRefundedAmount t'"
    using Capture_wf_Inr [OF \<open>wf_txn t\<close> cap] cap by (simp add: Capture_Inr)
qed (auto simp: Capture_Inr same_identity_def transitions_of_def)

interpretation refund_op: lifecycle_operation "Transaction_Refund amount now" for amount now
proof unfold_locales
  fix t t' assume "wf_txn t" and ref: "Transaction_Refund amount now t = Inr t'"
  then show "wf_txn t'" by (rule wf_Refund)
  show "tCapturedAmount t \<le> tCapturedAmount t' \<and> tRefundedAmount t \<le> tRefundedAmount t'"
    using Refund_wf_Inr [OF \<open>wf_txn t\<close> ref] ref by (simp add: Refund_Inr)
qed (auto simp: Refund_Inr same_identity_def transitions_of_def split: if_splits)

section \<open>Runs of the lifecycle\<close>

inductive txn_step :: "transaction \<Rightarrow> transaction \<Rightarrow> bool" where
  authorize: "Transaction_Authorize r l b now t = Inr t' \<Longrightarrow> txn_step t t'"
| fail: "Transaction_Fail code now t = Inr t' \<Longrightarrow> txn_step t t'"
| void: "Transaction_Void now t = Inr t' \<Longrightarrow> txn_step t t'"
| capture: "Transaction_Capture amount now t = Inr t' \<Longrightarrow> txn_step t t'"
| refund: "Transaction_Refund amount now t = Inr t' \<Longrightarrow> txn_step t t'"
| settle: "Transaction_Settle now t = Inr t' \<Longrightarrow> txn_step t t'"

inductive_simps txn_step_iff: "txn_step t t'"

definition new_txn :: "transaction \<Rightarrow> bool" where
  "new_txn t \<longleftrightarrow> (\<exists>i m r a c md now. in64 a \<and> NewTransaction i m r a c md now = Inr t)"

lemma NewTransaction_Inr:
  "NewTransaction i m r a c md now = Inr t \<longleftrightarrow>
     r \<noteq> [] \<and> length r \<le> 128 \<and> 0 < a \<and> Currency_Valid c \<and>
     t = \<lparr> tID = i, tMerchantID = m, tReference = r, tAmount = a, tCurrency = c,
        tStatus = StatusCreated, tCapturedAmount = 0, tRefundedAmount = 0, tCardLast4 = [],
        tCardBrand = [], tAcquirerRef = [], tFailureCode = [], tMetadata = md, tVersion = 0,
        tAuthorizedAt = None, tCapturedAt = None, tSettledAt = None,
        tCreatedAt = now, tUpdatedAt = now \<rparr>"
  by (auto simp: NewTransaction_def IsPositive_def)

lemma wf_NewTransaction: "in64 a \<Longrightarrow> NewTransaction i m r a c md now = Inr t \<Longrightarrow> wf_txn t"
  by (auto simp: NewTransaction_Inr wf_txn_def wf_status_def)

lemmas step_wf = authorize_op.oper_wf fail_op.oper_wf void_op.oper_wf
  capture_op.oper_wf refund_op.oper_wf settle_op.oper_wf
lemmas step_status = authorize_op.oper_status fail_op.oper_status void_op.oper_status
  capture_op.oper_status refund_op.oper_status settle_op.oper_status
lemmas step_identity = authorize_op.oper_identity fail_op.oper_identity void_op.oper_identity
  capture_op.oper_identity refund_op.oper_identity settle_op.oper_identity
lemmas step_mono = authorize_op.oper_mono fail_op.oper_mono void_op.oper_mono
  capture_op.oper_mono refund_op.oper_mono settle_op.oper_mono

lemma txn_step_wf: "txn_step t t' \<Longrightarrow> wf_txn t \<Longrightarrow> wf_txn t'"
  by (induction rule: txn_step.induct) (auto intro: step_wf)

lemma txn_step_status: "txn_step t t' \<Longrightarrow>
    (tStatus t' = tStatus t \<and> \<not> IsTerminal (tStatus t)) \<or> tStatus t' \<in> set (transitions_of (tStatus t))"
  by (induction rule: txn_step.induct) (blast dest: step_status)+

lemma txn_step_identity: "txn_step t t' \<Longrightarrow> same_identity t t'"
  by (induction rule: txn_step.induct) (blast dest: step_identity)+

lemma txn_step_mono: "txn_step t t' \<Longrightarrow> wf_txn t \<Longrightarrow>
    tCapturedAmount t \<le> tCapturedAmount t' \<and> tRefundedAmount t \<le> tRefundedAmount t'"
  by (induction rule: txn_step.induct) (blast dest: step_mono)+

interpretation lifecycle: invariant_system new_txn txn_step wf_txn
  by unfold_locales (auto simp: new_txn_def intro: wf_NewTransaction txn_step_wf)

lemma same_identity_refl [simp]: "same_identity t t"
  by (simp add: same_identity_def)

lemma same_identity_trans: "same_identity t u \<Longrightarrow> same_identity u v \<Longrightarrow> same_identity t v"
  by (simp add: same_identity_def)

lemma run_identity: "txn_step\<^sup>*\<^sup>* t u \<Longrightarrow> same_identity t u"
  by (induction rule: rtranclp_induct) (auto intro: same_identity_trans dest: txn_step_identity)

lemma run_mono: "txn_step\<^sup>*\<^sup>* t u \<Longrightarrow> wf_txn t \<Longrightarrow>
    tCapturedAmount t \<le> tCapturedAmount u \<and> tRefundedAmount t \<le> tRefundedAmount u"
proof (induction rule: rtranclp_induct)
  case (step u v)
  then have "wf_txn u" using lifecycle.run_inv by blast
  with step txn_step_mono show ?case by fastforce
qed simp

lemma terminal_stuck: "IsTerminal (tStatus t) \<Longrightarrow> \<not> txn_step t u"
  using authorize_op.oper_terminal fail_op.oper_terminal void_op.oper_terminal
    capture_op.oper_terminal refund_op.oper_terminal settle_op.oper_terminal
  by (auto elim!: txn_step.cases) (metis Inl_Inr_False)+

section \<open>Properties\<close>

text \<open>
  C23. Whatever sequence of operations a transaction accepts after its creation, the
  refunded amount never exceeds the captured amount nor that the authorized amount, the
  status says how much money moved, and merchant, reference, amount and currency never
  change.
\<close>

theorem lifecycle_bounds:
  assumes "in64 amount"
    and "NewTransaction i m r amount c md now = Inr t0"
    and "txn_step\<^sup>*\<^sup>* t0 t"
  shows "0 \<le> tRefundedAmount t \<and> tRefundedAmount t \<le> tCapturedAmount t
     \<and> tCapturedAmount t \<le> amount \<and> wf_status t
     \<and> tMerchantID t = m \<and> tReference t = r \<and> tAmount t = amount \<and> tCurrency t = c"
proof -
  have "new_txn t0" using assms(1,2) unfolding new_txn_def by blast
  then have "wf_txn t" using assms(3) by (rule lifecycle.reachable_inv)
  then show ?thesis
    using run_identity [OF assms(3)] assms(2)
    by (auto simp: wf_txn_def same_identity_def NewTransaction_Inr)
qed

text \<open>The demo transaction of the witnesses: 1500.00 USD, authorized at instant 10.\<close>

definition demo_txn :: transaction where
  "demo_txn = \<lparr> tID = ''t1'', tMerchantID = ''m1'', tReference = ''ORDER-1'',
     tAmount = 150000, tCurrency = USD, tStatus = StatusAuthorized, tCapturedAmount = 0,
     tRefundedAmount = 0, tCardLast4 = ''4242'', tCardBrand = ''visa'',
     tAcquirerRef = ''auth_1'', tFailureCode = [], tMetadata = None, tVersion = 1,
     tAuthorizedAt = Some 10, tCapturedAt = None, tSettledAt = None,
     tCreatedAt = 5, tUpdatedAt = 10 \<rparr>"

lemma wf_demo_txn: "wf_txn demo_txn"
  by (simp add: demo_txn_def wf_txn_def wf_status_def in64_def Currency_Valid_iff)

theorem lifecycle_bounds_witness:
  "\<exists>t0 t. NewTransaction ''t1'' ''m1'' ''ORDER-1'' 150000 USD None 5 = Inr t0
     \<and> txn_step\<^sup>*\<^sup>* t0 t \<and> tStatus t = StatusAuthorized \<and> tCapturedAmount t \<le> 150000"
proof -
  obtain t0 where t0: "NewTransaction ''t1'' ''m1'' ''ORDER-1'' 150000 USD None 5 = Inr t0"
    by (simp add: NewTransaction_Inr Currency_Valid_iff)
  then obtain t where t: "Transaction_Authorize ''a'' ''4242'' ''visa'' 10 t0 = Inr t"
    by (auto simp: NewTransaction_Inr Authorize_Inr)
  then have run: "txn_step\<^sup>*\<^sup>* t0 t" by (blast intro: txn_step.authorize)
  have "in64 150000" by (simp add: in64_def)
  from lifecycle_bounds [OF this t0 run] t run t0 show ?thesis
    by (intro exI [of _ t0] exI [of _ t]) (auto simp: Authorize_Inr)
qed

text \<open>
  Every accepted operation moves the status along the table of allowed transitions, or
  leaves it where it is outside the terminal states; a failed, voided or refunded
  transaction accepts no operation at all.
\<close>

theorem transitions_respected:
  assumes "txn_step t t'"
  shows "(tStatus t' = tStatus t \<or> tStatus t' \<in> set (transitions_of (tStatus t)))
     \<and> \<not> IsTerminal (tStatus t)"
  using txn_step_status [OF assms] terminal_stuck assms by blast

theorem transitions_respected_witness:
  "\<exists>t'. Transaction_Void 11 demo_txn = Inr t' \<and> tStatus t' = StatusVoided
     \<and> \<not> IsTerminal (tStatus demo_txn)"
proof -
  obtain t' where t': "Transaction_Void 11 demo_txn = Inr t'"
    by (simp add: Void_Inr demo_txn_def)
  from transitions_respected [OF txn_step.void [OF t']] t' show ?thesis
    by (auto simp: Void_Inr)
qed

text \<open>
  A capture of a well-formed transaction is accepted exactly if the amount is positive
  and within what is left of the authorization, the transaction is authorized or already
  partly captured, and the authorization has not expired; then the captured total grows by
  the amount, and the first capture instant is kept.
\<close>

theorem capture_accepted_iff:
  assumes "wf_txn t"
  shows "(\<exists>t'. Transaction_Capture amount now t = Inr t' \<and>
            tStatus t' = StatusCaptured \<and> tCapturedAmount t' = tCapturedAmount t + amount \<and>
            tCapturedAt t' = Some (case tCapturedAt t of None \<Rightarrow> now | Some c \<Rightarrow> c))
     \<longleftrightarrow> 0 < amount \<and> amount \<le> tAmount t - tCapturedAmount t \<and>
        (tStatus t = StatusAuthorized \<or> tStatus t = StatusCaptured) \<and>
        \<not> AuthorizationExpired t now"
    (is "?L \<longleftrightarrow> ?R")
proof
  assume ?L then show ?R using assms by (auto simp: Capture_Inr)
next
  assume ?R
  then obtain t' where t': "Transaction_Capture amount now t = Inr t'"
    using assms by (auto simp: Capture_Inr)
  show ?L using t' Capture_wf_Inr [OF assms t'] by (auto simp: Capture_Inr split: option.splits)
qed

theorem capture_accepted_iff_witness:
  "\<exists>t'. Transaction_Capture 50000 20 demo_txn = Inr t' \<and> tCapturedAmount t' = 50000"
proof -
  have "\<not> AuthorizationExpired demo_txn 20"
    by (simp add: AuthorizationExpired_def AuthorizationExpiresAt_def AuthorizationValidity_def
        Second_def demo_txn_def)
  then show ?thesis
    using capture_accepted_iff [OF wf_demo_txn, of 50000 20] by (auto simp: demo_txn_def)
qed

text \<open>
  An accepted refund of a well-formed transaction moves it into the refunded state
  exactly if all captured money has been returned; a partial refund leaves the status
  alone.
\<close>

theorem refund_full_iff_refunded:
  assumes "wf_txn t" and "Transaction_Refund amount now t = Inr t'"
  shows "(tStatus t' = StatusRefunded \<longleftrightarrow> tRefundedAmount t' = tCapturedAmount t')
     \<and> (tStatus t' = StatusRefunded \<or> tStatus t' = tStatus t)
     \<and> tRefundedAmount t' = tRefundedAmount t + amount"
  using Refund_wf_Inr [OF assms] assms(2) by (auto simp: Refund_Inr)

theorem refund_full_iff_refunded_witness:
  "\<exists>t t'. wf_txn t \<and> Transaction_Refund 50000 30 t = Inr t' \<and> tStatus t' = StatusRefunded
     \<and> tRefundedAmount t' = tCapturedAmount t'"
proof -
  obtain t where t: "Transaction_Capture 50000 20 demo_txn = Inr t"
    by (simp add: Capture_Inr AuthorizationExpired_def AuthorizationExpiresAt_def
        AuthorizationValidity_def Second_def demo_txn_def RemainingCapturable_def wrap64_def)
  note wf = wf_Capture [OF wf_demo_txn t] and c = Capture_wf_Inr [OF wf_demo_txn t]
  obtain t' where t': "Transaction_Refund 50000 30 t = Inr t'"
    using wf c by (simp add: Refund_Inr) (simp add: demo_txn_def)
  from refund_full_iff_refunded [OF wf t'] Refund_wf_Inr [OF wf t'] c show ?thesis
    by (intro exI [of _ t] exI [of _ t']) (auto simp: wf t' demo_txn_def)
qed

text \<open>
  Along every run the captured and refunded totals only grow, so a transaction from
  which money was captured is never voided or failed afterwards.
\<close>

theorem money_never_unmoves:
  assumes "wf_txn t" and "txn_step\<^sup>*\<^sup>* t u"
  shows "tCapturedAmount t \<le> tCapturedAmount u \<and> tRefundedAmount t \<le> tRefundedAmount u
     \<and> (0 < tCapturedAmount t \<longrightarrow> tStatus u \<noteq> StatusVoided \<and> tStatus u \<noteq> StatusFailed)"
proof -
  have "wf_txn u" using lifecycle.run_inv assms by blast
  then show ?thesis using run_mono [OF assms(2,1)] by (auto simp: wf_txn_def wf_status_def)
qed

theorem money_never_unmoves_witness:
  "\<exists>t u. wf_txn t \<and> 0 < tCapturedAmount t \<and> txn_step\<^sup>*\<^sup>* t u \<and> tStatus u \<noteq> StatusVoided"
proof -
  obtain t where t: "Transaction_Capture 50000 20 demo_txn = Inr t"
    by (simp add: Capture_Inr AuthorizationExpired_def AuthorizationExpiresAt_def
        AuthorizationValidity_def Second_def demo_txn_def RemainingCapturable_def wrap64_def)
  note wf = wf_Capture [OF wf_demo_txn t] and c = Capture_wf_Inr [OF wf_demo_txn t]
  obtain u where u: "Transaction_Settle 40 t = Inr u"
    using c by (simp add: Settle_Inr)
  have run: "txn_step\<^sup>*\<^sup>* t u" using u by (blast intro: txn_step.settle)
  have "0 < tCapturedAmount t" using c by (simp add: demo_txn_def)
  with money_never_unmoves [OF wf run] wf run show ?thesis by blast
qed

end
