(* ===== verification/Journal.thy ===== *)
theory Journal
  imports Txn
begin

text \<open>
  \<open>internal/domain/ledger.go\<close>: journal entries, entry groups with the double-entry check,
  the constructors of the capture, refund and settlement groups, and the balance as a fold
  over the journal. Sums over amounts are taken in \<open>int64\<close>, as the code does.
\<close>

section \<open>Entries and groups\<close>

datatype Direction = Debit | Credit | OtherDirection string

datatype EventType = EventCapture | EventRefund | EventFee | EventSettlement

fun direction_string :: "Direction \<Rightarrow> string" where
  "direction_string Debit = ''debit''"
| "direction_string Credit = ''credit''"
| "direction_string (OtherDirection s) = s"

fun eventtype_string :: "EventType \<Rightarrow> string" where
  "eventtype_string EventCapture = ''capture''"
| "eventtype_string EventRefund = ''refund''"
| "eventtype_string EventFee = ''fee''"
| "eventtype_string EventSettlement = ''settlement''"

abbreviation "AccountAcquirerReceivable \<equiv> ''acquirer_receivable''"
abbreviation "AccountPlatformFeeRevenue \<equiv> ''platform_fee_revenue''"
abbreviation "AccountPlatformCash \<equiv> ''platform_cash''"
abbreviation "merchantPayablePrefix \<equiv> ''merchant_payable:''"

definition MerchantPayableAccount :: "uuid \<Rightarrow> string" where
  "MerchantPayableAccount merchantID = merchantPayablePrefix @ merchantID"

definition IsMerchantPayable :: "string \<Rightarrow> bool" where
  "IsMerchantPayable account \<longleftrightarrow> HasPrefix account merchantPayablePrefix"

record ledger_entry =
  eID :: int
  eEntryGroupID :: uuid
  eTransactionID :: uuid
  eAccount :: string
  eMerchantID :: "uuid option"
  eDirection :: Direction
  eAmount :: Amount
  eCurrency :: Currency
  eEventType :: EventType
  eCreatedAt :: time

record entry_group =
  gID :: uuid
  gEntries :: "ledger_entry list"

text \<open>The loop of \<open>Validate\<close>, with the two running sums.\<close>

fun Validate_loop ::
  "Currency \<Rightarrow> Amount \<Rightarrow> Amount \<Rightarrow> ledger_entry list \<Rightarrow> (Amount \<times> Amount) result" where
  "Validate_loop currency debits credits [] = Inr (debits, credits)"
| "Validate_loop currency debits credits (e # es) =
     (if \<not> IsPositive (eAmount e) then
        Inl (errorf ErrInvalidAmount (''entry on '' @ eAccount e @ '' has non-positive amount''))
      else if eCurrency e \<noteq> currency then Inl (errorf ErrCurrencyMismatch ''group mixes currencies'')
      else case eDirection e of
        Debit \<Rightarrow> Validate_loop currency (wrap64 (debits + eAmount e)) credits es
      | Credit \<Rightarrow> Validate_loop currency debits (wrap64 (credits + eAmount e)) es
      | OtherDirection d \<Rightarrow> Inl (errorf ErrValidation ''unknown direction''))"

definition EntryGroup_Validate :: "entry_group \<Rightarrow> unit result" where
  "EntryGroup_Validate g =
     (case gEntries g of
        e0 # _ # _ \<Rightarrow>
          (case Validate_loop (eCurrency e0) 0 0 (gEntries g) of
             Inl err \<Rightarrow> Inl err
           | Inr (debits, credits) \<Rightarrow>
               if debits \<noteq> credits then
                 Inl (errorf ErrUnbalancedEntryGroup ''debits and credits differ'')
               else Inr ())
      | _ \<Rightarrow> Inl (errorf ErrUnbalancedEntryGroup ''group has fewer than two entries''))"

fun Totals_loop :: "Amount \<Rightarrow> Amount \<Rightarrow> ledger_entry list \<Rightarrow> Amount \<times> Amount" where
  "Totals_loop debits credits [] = (debits, credits)"
| "Totals_loop debits credits (e # es) =
     (if eDirection e = Debit then Totals_loop (wrap64 (debits + eAmount e)) credits es
      else Totals_loop debits (wrap64 (credits + eAmount e)) es)"

definition EntryGroup_Totals :: "entry_group \<Rightarrow> Amount \<times> Amount" where
  "EntryGroup_Totals g = Totals_loop 0 0 (gEntries g)"

section \<open>The entry groups of the business events\<close>

definition entry ::
  "uuid \<Rightarrow> transaction \<Rightarrow> string \<Rightarrow> Direction \<Rightarrow> Amount \<Rightarrow> EventType \<Rightarrow> time \<Rightarrow> ledger_entry" where
  "entry groupID t account direction amount event now =
     \<lparr> eID = 0, eEntryGroupID = groupID, eTransactionID = tID t, eAccount = account,
       eMerchantID = Some (tMerchantID t), eDirection = direction, eAmount = amount,
       eCurrency = tCurrency t, eEventType = event, eCreatedAt = now \<rparr>"

definition validated :: "entry_group \<Rightarrow> entry_group result" where
  "validated g = (case EntryGroup_Validate g of Inl err \<Rightarrow> Inl err | Inr _ \<Rightarrow> Inr g)"

definition NewCaptureEntryGroup ::
  "uuid \<Rightarrow> transaction \<Rightarrow> Amount \<Rightarrow> Amount \<Rightarrow> time \<Rightarrow> entry_group result" where
  "NewCaptureEntryGroup groupID t amount fee now =
     (if \<not> IsPositive amount then Inl (errorf ErrInvalidAmount ''capture amount'')
      else if fee < 0 \<or> fee > amount then
        Inl (errorf ErrValidation (''fee '' @ show_int fee @ '' out of range for amount '' @ show_int amount))
      else validated \<lparr> gID = groupID, gEntries =
        [entry groupID t AccountAcquirerReceivable Debit amount EventCapture now,
         entry groupID t (MerchantPayableAccount (tMerchantID t)) Credit (wrap64 (amount - fee))
           EventCapture now]
        @ (if fee > 0 then
             [entry groupID t AccountPlatformFeeRevenue Credit fee EventFee now]
           else []) \<rparr>)"

definition NewRefundEntryGroup ::
  "uuid \<Rightarrow> transaction \<Rightarrow> Amount \<Rightarrow> time \<Rightarrow> entry_group result" where
  "NewRefundEntryGroup groupID t amount now =
     (if \<not> IsPositive amount then Inl (errorf ErrInvalidAmount ''refund amount'')
      else validated \<lparr> gID = groupID, gEntries =
        [entry groupID t (MerchantPayableAccount (tMerchantID t)) Debit amount EventRefund now,
         entry groupID t AccountAcquirerReceivable Credit amount EventRefund now] \<rparr>)"

definition NewSettlementEntryGroup ::
  "uuid \<Rightarrow> transaction \<Rightarrow> Amount \<Rightarrow> time \<Rightarrow> entry_group result" where
  "NewSettlementEntryGroup groupID t net now =
     (if \<not> IsPositive net then Inl (errorf ErrInvalidAmount ''settlement amount'')
      else validated \<lparr> gID = groupID, gEntries =
        [entry groupID t (MerchantPayableAccount (tMerchantID t)) Debit net EventSettlement now,
         entry groupID t AccountPlatformCash Credit net EventSettlement now] \<rparr>)"

section \<open>Balances\<close>

record Balance =
  bAccount :: string
  bCurrency :: Currency
  bDebits :: Amount
  bCredits :: Amount

definition Balance_Available :: "Balance \<Rightarrow> Amount" where
  "Balance_Available b = wrap64 (bCredits b - bDebits b)"

fun ComputeBalance_loop :: "Balance \<Rightarrow> ledger_entry list \<Rightarrow> Balance" where
  "ComputeBalance_loop b [] = b"
| "ComputeBalance_loop b (e # es) =
     (if eAccount e \<noteq> bAccount b \<or> eCurrency e \<noteq> bCurrency b then ComputeBalance_loop b es
      else if eDirection e = Debit then
        ComputeBalance_loop (b\<lparr> bDebits := wrap64 (bDebits b + eAmount e) \<rparr>) es
      else ComputeBalance_loop (b\<lparr> bCredits := wrap64 (bCredits b + eAmount e) \<rparr>) es)"

definition ComputeBalance :: "string \<Rightarrow> Currency \<Rightarrow> ledger_entry list \<Rightarrow> Balance" where
  "ComputeBalance account currency entries =
     ComputeBalance_loop \<lparr> bAccount = account, bCurrency = currency, bDebits = 0, bCredits = 0 \<rparr> entries"

section \<open>Exact totals and balance of a list of entries\<close>

text \<open>The sides of a list of entries over the unbounded integers, as SQL's SUM computes them.\<close>

definition debits_of :: "ledger_entry list \<Rightarrow> int" where
  "debits_of es = sum_where (\<lambda>e. eDirection e = Debit) eAmount es"

definition credits_of :: "ledger_entry list \<Rightarrow> int" where
  "credits_of es = sum_where (\<lambda>e. eDirection e = Credit) eAmount es"

definition balanced :: "ledger_entry list \<Rightarrow> bool" where
  "balanced es \<longleftrightarrow> debits_of es = credits_of es"

lemma balanced_append: "balanced xs \<Longrightarrow> balanced ys \<Longrightarrow> balanced (xs @ ys)"
  by (simp add: balanced_def debits_of_def credits_of_def)

lemma side_simps [simp]:
  "debits_of [] = 0" "credits_of [] = 0"
  "debits_of (e # es) = (if eDirection e = Debit then eAmount e else 0) + debits_of es"
  "credits_of (e # es) = (if eDirection e = Credit then eAmount e else 0) + credits_of es"
  "debits_of (xs @ ys) = debits_of xs + debits_of ys"
  "credits_of (xs @ ys) = credits_of xs + credits_of ys"
  by (simp_all add: debits_of_def credits_of_def)

definition sound_entry :: "Currency \<Rightarrow> ledger_entry \<Rightarrow> bool" where
  "sound_entry c e \<longleftrightarrow> 0 < eAmount e \<and> eCurrency e = c \<and> (eDirection e = Debit \<or> eDirection e = Credit)"

lemma Validate_loop_Inr:
  assumes "Validate_loop c (wrap64 d) (wrap64 k) es = Inr (d', k')"
  shows "list_all (sound_entry c) es \<and> d' = wrap64 (d + debits_of es) \<and> k' = wrap64 (k + credits_of es)"
  using assms
proof (induction es arbitrary: d k)
  case (Cons e es)
  from Cons.prems have pos: "0 < eAmount e" and cur: "eCurrency e = c"
    by (auto simp: IsPositive_def split: if_splits)
  show ?case
  proof (cases "eDirection e")
    case Debit
    with Cons.prems pos cur have "Validate_loop c (wrap64 (d + eAmount e)) (wrap64 k) es = Inr (d', k')"
      by (simp add: IsPositive_def)
    from Cons.IH [OF this] Debit pos cur show ?thesis
      by (simp add: sound_entry_def add.assoc)
  next
    case Credit
    with Cons.prems pos cur have "Validate_loop c (wrap64 d) (wrap64 (k + eAmount e)) es = Inr (d', k')"
      by (simp add: IsPositive_def)
    from Cons.IH [OF this] Credit pos cur show ?thesis
      by (simp add: sound_entry_def add.assoc)
  next
    case (OtherDirection s)
    with Cons.prems pos cur show ?thesis by (simp add: IsPositive_def)
  qed
qed simp

lemma Validate_loop_ok:
  "list_all (sound_entry c) es \<Longrightarrow>
     Validate_loop c (wrap64 d) (wrap64 k) es = Inr (wrap64 (d + debits_of es), wrap64 (k + credits_of es))"
proof (induction es arbitrary: d k)
  case (Cons e es)
  from Cons.prems have snd: "sound_entry c e" and es: "list_all (sound_entry c) es" by simp_all
  from snd consider "eDirection e = Debit" | "eDirection e = Credit"
    unfolding sound_entry_def by blast
  then show ?case
    using snd Cons.IH [OF es, of "d + eAmount e" k] Cons.IH [OF es, of d "k + eAmount e"]
    by cases (simp_all add: sound_entry_def IsPositive_def add.assoc)
qed simp

text \<open>
  \<open>Validate\<close> accepts exactly the groups of at least two positive entries in one currency
  whose sides agree.
\<close>

lemma EntryGroup_Validate_iff:
  "EntryGroup_Validate g = Inr () \<longleftrightarrow>
     2 \<le> length (gEntries g) \<and> list_all (sound_entry (eCurrency (hd (gEntries g)))) (gEntries g)
     \<and> wrap64 (debits_of (gEntries g)) = wrap64 (credits_of (gEntries g))"
proof (cases "2 \<le> length (gEntries g)")
  case False
  then show ?thesis by (auto simp: EntryGroup_Validate_def split: list.splits)
next
  case True
  then obtain e0 e1 es where g: "gEntries g = e0 # e1 # es"
    by (cases "gEntries g" rule: list.exhaust [case_product list.exhaust])
      (auto simp: Suc_le_length_iff numeral_2_eq_2)
  have 1: "\<And>d k. Validate_loop (eCurrency e0) 0 0 (gEntries g) = Inr (d, k) \<Longrightarrow>
      list_all (sound_entry (eCurrency e0)) (gEntries g)
      \<and> d = wrap64 (debits_of (gEntries g)) \<and> k = wrap64 (credits_of (gEntries g))"
    using Validate_loop_Inr [of "eCurrency e0" 0 0] by simp
  have 2: "list_all (sound_entry (eCurrency e0)) (gEntries g) \<Longrightarrow>
      Validate_loop (eCurrency e0) 0 0 (gEntries g)
        = Inr (wrap64 (debits_of (gEntries g)), wrap64 (credits_of (gEntries g)))"
    using Validate_loop_ok [of "eCurrency e0" _ 0 0] by simp
  have "EntryGroup_Validate g = Inr () \<longleftrightarrow>
      (\<exists>d. Validate_loop (eCurrency e0) 0 0 (gEntries g) = Inr (d, d))"
    using g by (auto simp: EntryGroup_Validate_def split: sum.splits prod.splits if_splits)
  also have "\<dots> \<longleftrightarrow> list_all (sound_entry (eCurrency e0)) (gEntries g)
      \<and> wrap64 (debits_of (gEntries g)) = wrap64 (credits_of (gEntries g))"
    using 1 2 by metis
  finally show ?thesis using True g by simp
qed

lemma validated_Inr: "validated g = Inr g' \<longleftrightarrow> g' = g \<and> EntryGroup_Validate g = Inr ()"
  by (auto simp: validated_def split: sum.splits)

lemma entry_simps [simp]:
  "eID (entry g t a d n ev now) = 0"
  "eEntryGroupID (entry g t a d n ev now) = g"
  "eTransactionID (entry g t a d n ev now) = tID t"
  "eAccount (entry g t a d n ev now) = a"
  "eMerchantID (entry g t a d n ev now) = Some (tMerchantID t)"
  "eDirection (entry g t a d n ev now) = d"
  "eAmount (entry g t a d n ev now) = n"
  "eCurrency (entry g t a d n ev now) = tCurrency t"
  "eEventType (entry g t a d n ev now) = ev"
  "eCreatedAt (entry g t a d n ev now) = now"
  by (simp_all add: entry_def)

section \<open>The contract of a group constructor\<close>

locale entry_group_builder =
  fixes build :: "Amount \<Rightarrow> uuid \<Rightarrow> transaction \<Rightarrow> time \<Rightarrow> entry_group result"
  assumes build_valid: "build a g t now = Inr grp \<Longrightarrow> EntryGroup_Validate grp = Inr ()"
    and build_origin: "build a g t now = Inr grp \<Longrightarrow> e \<in> set (gEntries grp) \<Longrightarrow>
      eEntryGroupID e = g \<and> eTransactionID e = tID t \<and> eMerchantID e = Some (tMerchantID t)
      \<and> eCurrency e = tCurrency t"
    and build_sides: "in64 a \<Longrightarrow> build a g t now = Inr grp \<Longrightarrow>
      debits_of (gEntries grp) = a \<and> credits_of (gEntries grp) = a"
begin

lemma build_balanced: "in64 a \<Longrightarrow> build a g t now = Inr grp \<Longrightarrow> balanced (gEntries grp)"
  using build_sides by (simp add: balanced_def)

lemma build_two_legs: "build a g t now = Inr grp \<Longrightarrow> 2 \<le> length (gEntries grp)"
  using build_valid by (auto simp: EntryGroup_Validate_iff)

lemma build_positive: "build a g t now = Inr grp \<Longrightarrow> e \<in> set (gEntries grp) \<Longrightarrow> 0 < eAmount e"
  using build_valid by (auto simp: EntryGroup_Validate_iff list_all_iff sound_entry_def)

end

lemma MerchantPayableAccount_neq [simp]:
  "MerchantPayableAccount m \<noteq> AccountAcquirerReceivable"
  "MerchantPayableAccount m \<noteq> AccountPlatformFeeRevenue"
  "MerchantPayableAccount m \<noteq> AccountPlatformCash"
  "AccountAcquirerReceivable \<noteq> MerchantPayableAccount m"
  "AccountPlatformFeeRevenue \<noteq> MerchantPayableAccount m"
  "AccountPlatformCash \<noteq> MerchantPayableAccount m"
  "MerchantPayableAccount m = MerchantPayableAccount m' \<longleftrightarrow> m = m'"
  by (simp_all add: MerchantPayableAccount_def)

definition capture_entries :: "uuid \<Rightarrow> transaction \<Rightarrow> Amount \<Rightarrow> Amount \<Rightarrow> time \<Rightarrow> ledger_entry list" where
  "capture_entries g t amount fee now =
     [entry g t AccountAcquirerReceivable Debit amount EventCapture now,
      entry g t (MerchantPayableAccount (tMerchantID t)) Credit (amount - fee) EventCapture now]
     @ (if fee > 0 then [entry g t AccountPlatformFeeRevenue Credit fee EventFee now] else [])"

text \<open>
  A capture is booked exactly if the fee is below the amount: a fee that eats the whole
  amount leaves a zero entry, which \<open>Validate\<close> refuses.
\<close>

lemma NewCaptureEntryGroup_Inr:
  assumes "in64 amount"
  shows "NewCaptureEntryGroup g t amount fee now = Inr grp \<longleftrightarrow>
     0 < amount \<and> 0 \<le> fee \<and> fee < amount \<and>
     grp = \<lparr> gID = g, gEntries = capture_entries g t amount fee now \<rparr>"
proof (cases "0 < amount \<and> 0 \<le> fee \<and> fee \<le> amount")
  case True
  then have w: "wrap64 (amount - fee) = amount - fee"
    using assms by (simp add: int64_simps)
  show ?thesis using True
    by (auto simp: NewCaptureEntryGroup_def IsPositive_def validated_Inr w capture_entries_def
        EntryGroup_Validate_iff sound_entry_def wrap64_id [OF assms])
qed (auto simp: NewCaptureEntryGroup_def IsPositive_def)

lemma NewRefundEntryGroup_Inr:
  "NewRefundEntryGroup g t amount now = Inr grp \<longleftrightarrow> 0 < amount \<and>
     grp = \<lparr> gID = g, gEntries =
       [entry g t (MerchantPayableAccount (tMerchantID t)) Debit amount EventRefund now,
        entry g t AccountAcquirerReceivable Credit amount EventRefund now] \<rparr>"
  by (auto simp: NewRefundEntryGroup_def IsPositive_def validated_Inr EntryGroup_Validate_iff
      sound_entry_def)

lemma NewSettlementEntryGroup_Inr:
  "NewSettlementEntryGroup g t net now = Inr grp \<longleftrightarrow> 0 < net \<and>
     grp = \<lparr> gID = g, gEntries =
       [entry g t (MerchantPayableAccount (tMerchantID t)) Debit net EventSettlement now,
        entry g t AccountPlatformCash Credit net EventSettlement now] \<rparr>"
  by (auto simp: NewSettlementEntryGroup_def IsPositive_def validated_Inr EntryGroup_Validate_iff
      sound_entry_def)

lemma NewCaptureEntryGroup_valid:
  "NewCaptureEntryGroup g t amount fee now = Inr grp \<Longrightarrow>
     EntryGroup_Validate grp = Inr () \<and> (\<forall>e \<in> set (gEntries grp).
       eEntryGroupID e = g \<and> eTransactionID e = tID t \<and> eMerchantID e = Some (tMerchantID t)
       \<and> eCurrency e = tCurrency t)"
  by (auto simp: NewCaptureEntryGroup_def validated_Inr split: if_splits)

interpretation capture_group: entry_group_builder
  "\<lambda>a g t now. NewCaptureEntryGroup g t a fee now" for fee
  by unfold_locales
    (auto dest: NewCaptureEntryGroup_valid simp: NewCaptureEntryGroup_Inr capture_entries_def)

interpretation refund_group: entry_group_builder "\<lambda>a g t now. NewRefundEntryGroup g t a now"
  by unfold_locales
    (auto simp: NewRefundEntryGroup_Inr EntryGroup_Validate_iff sound_entry_def)

interpretation settlement_group: entry_group_builder
  "\<lambda>a g t now. NewSettlementEntryGroup g t a now"
  by unfold_locales
    (auto simp: NewSettlementEntryGroup_Inr EntryGroup_Validate_iff sound_entry_def)

section \<open>What a journal says about a transaction and an account\<close>

text \<open>The three sums of the reconciliation, per transaction.\<close>

definition captured_in :: "uuid \<Rightarrow> ledger_entry list \<Rightarrow> int" where
  "captured_in i es = sum_where (\<lambda>e. eTransactionID e = i \<and> eEventType e = EventCapture
     \<and> eAccount e = AccountAcquirerReceivable \<and> eDirection e = Debit) eAmount es"

definition refunded_in :: "uuid \<Rightarrow> ledger_entry list \<Rightarrow> int" where
  "refunded_in i es = sum_where (\<lambda>e. eTransactionID e = i \<and> eEventType e = EventRefund
     \<and> eAccount e = AccountAcquirerReceivable \<and> eDirection e = Credit) eAmount es"

definition fees_in :: "uuid \<Rightarrow> ledger_entry list \<Rightarrow> int" where
  "fees_in i es = sum_where (\<lambda>e. eTransactionID e = i \<and> eEventType e = EventFee
     \<and> eAccount e = AccountPlatformFeeRevenue \<and> eDirection e = Credit) eAmount es"

definition owed_in :: "string \<Rightarrow> Currency \<Rightarrow> ledger_entry list \<Rightarrow> int" where
  "owed_in a c es =
     sum_where (\<lambda>e. eAccount e = a \<and> eCurrency e = c \<and> eDirection e \<noteq> Debit) eAmount es
     - sum_where (\<lambda>e. eAccount e = a \<and> eCurrency e = c \<and> eDirection e = Debit) eAmount es"

lemmas sums_in_defs = captured_in_def refunded_in_def fees_in_def owed_in_def

lemma sums_in_append [simp]:
  "captured_in i (xs @ ys) = captured_in i xs + captured_in i ys"
  "refunded_in i (xs @ ys) = refunded_in i xs + refunded_in i ys"
  "fees_in i (xs @ ys) = fees_in i xs + fees_in i ys"
  "owed_in a c (xs @ ys) = owed_in a c xs + owed_in a c ys"
  by (simp_all add: sums_in_defs)

lemma sums_in_Nil [simp]:
  "captured_in i [] = 0" "refunded_in i [] = 0" "fees_in i [] = 0" "owed_in a c [] = 0"
  by (simp_all add: sums_in_defs)

lemma sums_in_capture:
  assumes "in64 amount" and "NewCaptureEntryGroup g t amount fee now = Inr grp"
  shows "captured_in i (gEntries grp) = (if i = tID t then amount else 0)"
    and "refunded_in i (gEntries grp) = 0"
    and "fees_in i (gEntries grp) = (if i = tID t then fee else 0)"
    and "owed_in (MerchantPayableAccount (tMerchantID t)) (tCurrency t) (gEntries grp) = amount - fee"
  using assms by (auto simp: NewCaptureEntryGroup_Inr capture_entries_def sums_in_defs)

lemma sums_in_refund:
  assumes "NewRefundEntryGroup g t amount now = Inr grp"
  shows "captured_in i (gEntries grp) = 0"
    and "refunded_in i (gEntries grp) = (if i = tID t then amount else 0)"
    and "fees_in i (gEntries grp) = 0"
    and "owed_in (MerchantPayableAccount (tMerchantID t)) (tCurrency t) (gEntries grp) = - amount"
  using assms by (auto simp: NewRefundEntryGroup_Inr sums_in_defs)

lemma sums_in_settlement:
  assumes "NewSettlementEntryGroup g t net now = Inr grp"
  shows "captured_in i (gEntries grp) = 0" and "refunded_in i (gEntries grp) = 0"
    and "fees_in i (gEntries grp) = 0"
    and "owed_in (MerchantPayableAccount (tMerchantID t)) (tCurrency t) (gEntries grp) = - net"
  using assms by (auto simp: NewSettlementEntryGroup_Inr sums_in_defs)

text \<open>The fold computes the sums of the account's lines, in \<open>int64\<close>.\<close>

lemma ComputeBalance_loop_eq:
  "ComputeBalance_loop \<lparr> bAccount = a, bCurrency = c, bDebits = wrap64 d, bCredits = wrap64 k \<rparr> es =
     \<lparr> bAccount = a, bCurrency = c,
       bDebits = wrap64 (d + sum_where (\<lambda>e. eAccount e = a \<and> eCurrency e = c \<and> eDirection e = Debit) eAmount es),
       bCredits = wrap64 (k + sum_where (\<lambda>e. eAccount e = a \<and> eCurrency e = c \<and> eDirection e \<noteq> Debit) eAmount es) \<rparr>"
  by (induction es arbitrary: d k) (simp_all add: add.assoc)

lemma Available_ComputeBalance:
  "Balance_Available (ComputeBalance a c es) = wrap64 (owed_in a c es)"
  using ComputeBalance_loop_eq [of a c 0 0 es]
  by (simp add: ComputeBalance_def Balance_Available_def owed_in_def)

section \<open>Properties\<close>

text \<open>
  The check before every journal write accepts exactly the groups of at least two
  entries, all positive, in one currency and on a known side, whose debits and credits
  agree in \<open>int64\<close>.
\<close>

theorem validate_accepts_iff:
  "EntryGroup_Validate g = Inr () \<longleftrightarrow>
     2 \<le> length (gEntries g)
     \<and> list_all (\<lambda>e. 0 < eAmount e \<and> eCurrency e = eCurrency (hd (gEntries g))
                     \<and> (eDirection e = Debit \<or> eDirection e = Credit)) (gEntries g)
     \<and> wrap64 (debits_of (gEntries g)) = wrap64 (credits_of (gEntries g))"
  by (simp add: EntryGroup_Validate_iff sound_entry_def [abs_def])

text \<open>
  A capture of an \<open>int64\<close> amount is booked exactly if the fee is not negative and
  below the amount; the group then balances, passes the check again before the write, and
  books the amount as captured, the fee as fee and the rest as owed to the merchant.
\<close>

theorem capture_group_iff:
  assumes "in64 amount"
  shows "(\<exists>grp. NewCaptureEntryGroup g t amount fee now = Inr grp
            \<and> EntryGroup_Validate grp = Inr () \<and> balanced (gEntries grp)
            \<and> captured_in (tID t) (gEntries grp) = amount
            \<and> fees_in (tID t) (gEntries grp) = fee
            \<and> owed_in (MerchantPayableAccount (tMerchantID t)) (tCurrency t) (gEntries grp)
                = amount - fee)
     \<longleftrightarrow> 0 < amount \<and> 0 \<le> fee \<and> fee < amount" (is "?L \<longleftrightarrow> ?R")
proof
  assume ?L then show ?R using assms by (auto simp: NewCaptureEntryGroup_Inr)
next
  assume ?R
  then obtain grp where grp: "NewCaptureEntryGroup g t amount fee now = Inr grp"
    using assms by (auto simp: NewCaptureEntryGroup_Inr)
  then show ?L
    using capture_group.build_valid [OF grp] capture_group.build_balanced [OF assms grp]
      sums_in_capture [OF assms grp] by auto
qed

theorem capture_group_iff_witness:
  "\<exists>grp. NewCaptureEntryGroup ''g'' demo_txn 150000 3000 20 = Inr grp \<and> balanced (gEntries grp)
     \<and> owed_in (MerchantPayableAccount ''m1'') USD (gEntries grp) = 147000"
proof -
  have "in64 150000" by (simp add: in64_def)
  from capture_group_iff [OF this, of "''g''" demo_txn 3000 20] show ?thesis
    by (auto simp: demo_txn_def)
qed

text \<open>
  At the highest fee rate the configuration admits, 10000 basis points, no capture can
  be booked: the merchant's leg would be zero, and the group is refused.
\<close>

theorem full_fee_capture_refused:
  assumes "0 < amount" and "fee_exact amount 10000"
  shows "\<exists>err. NewCaptureEntryGroup g t amount (Fee amount 10000) now = Inl err
     \<and> errors_Is err ErrInvalidAmount"
proof -
  have "Fee amount 10000 = amount" using assms by (simp add: Fee_exact)
  with assms(1) show ?thesis
    by (simp add: NewCaptureEntryGroup_def IsPositive_def validated_def EntryGroup_Validate_def)
qed

theorem full_fee_capture_refused_witness:
  "\<exists>err. NewCaptureEntryGroup ''g'' demo_txn 150000 (Fee 150000 10000) 20 = Inl err"
proof -
  have "fee_exact 150000 10000" by (simp add: fee_exact_def in64_def)
  from full_fee_capture_refused [OF _ this] show ?thesis by simp blast
qed

text \<open>
  The balance of an account is, in \<open>int64\<close>, what its credits exceed its debits by
  over the whole journal, and appending a journal to another adds their balances.
\<close>

theorem balance_is_fold:
  "Balance_Available (ComputeBalance a c (xs @ ys)) = wrap64 (owed_in a c xs + owed_in a c ys)
   \<and> bAccount (ComputeBalance a c xs) = a \<and> bCurrency (ComputeBalance a c xs) = c"
proof -
  have "bAccount (ComputeBalance a c xs) = a \<and> bCurrency (ComputeBalance a c xs) = c"
    using ComputeBalance_loop_eq [of a c 0 0 xs] by (simp add: ComputeBalance_def)
  then show ?thesis by (simp add: Available_ComputeBalance)
qed

end
