(* ===== verification/Merchant.thy ===== *)
theory Merchant
  imports Errors
begin

text \<open>
  \<open>internal/domain/merchant.go\<close>: the merchant record and the checks on what an
  administrator supplies.
\<close>

datatype MerchantStatus = MerchantActive | MerchantSuspended

fun merchant_status_string :: "MerchantStatus \<Rightarrow> string" where
  "merchant_status_string MerchantActive = ''active''"
| "merchant_status_string MerchantSuspended = ''suspended''"

record merchant =
  mID :: uuid
  mName :: string
  mEmail :: string
  mAPIKey :: string
  mAPISecretEnc :: string
  mWebhookURL :: string
  mWebhookSecretEnc :: string
  mStatus :: MerchantStatus
  mCreatedAt :: time
  mUpdatedAt :: time

definition IsActive :: "merchant \<Rightarrow> bool" where
  "IsActive m \<longleftrightarrow> mStatus m = MerchantActive"

text \<open>
  The loop over the runes of the string; the rune searched for is one byte, which occurs
  in no multi-byte encoding.
\<close>

fun containsRune :: "string \<Rightarrow> char \<Rightarrow> bool" where
  "containsRune [] r = False"
| "containsRune (c # cs) r = (if c = r then True else containsRune cs r)"

definition hasHTTPScheme :: "string \<Rightarrow> bool" where
  "hasHTTPScheme s \<longleftrightarrow> length s > 7 \<and> (take 7 s = ''http://'' \<or> (length s > 8 \<and> take 8 s = ''https://''))"

definition ValidateMerchantInput :: "string \<Rightarrow> string \<Rightarrow> string \<Rightarrow> unit result" where
  "ValidateMerchantInput name email webhookURL =
     (if name = [] then Inl (Invalid ''name'' ''must not be empty'')
      else if email = [] then Inl (Invalid ''email'' ''must not be empty'')
      else if length email < 3 \<or> \<not> containsRune email (CHR ''@'') then
        Inl (Invalid ''email'' ''must be a valid email address'')
      else if webhookURL \<noteq> [] \<and> \<not> hasHTTPScheme webhookURL then
        Inl (Invalid ''webhook_url'' ''must be an http(s) URL'')
      else Inr ())"

lemma containsRune_iff [simp]: "containsRune s r \<longleftrightarrow> r \<in> set s"
  by (induction s) auto

lemma ValidateMerchantInput_Inr:
  "ValidateMerchantInput name email url = Inr () \<longleftrightarrow>
     name \<noteq> [] \<and> 3 \<le> length email \<and> CHR ''@'' \<in> set email \<and> (url = [] \<or> hasHTTPScheme url)"
  by (auto simp: ValidateMerchantInput_def)

text \<open>A URL accepted by the scheme check has a non-empty part after its scheme.\<close>

lemma hasHTTPScheme_iff:
  "hasHTTPScheme s \<longleftrightarrow> (\<exists>rest. rest \<noteq> [] \<and> (s = ''http://'' @ rest \<or> s = ''https://'' @ rest))"
proof
  assume h: "hasHTTPScheme s"
  then consider "take 7 s = ''http://''" "7 < length s" | "take 8 s = ''https://''" "8 < length s"
    unfolding hasHTTPScheme_def by blast
  then show "\<exists>rest. rest \<noteq> [] \<and> (s = ''http://'' @ rest \<or> s = ''https://'' @ rest)"
    by cases (metis append_take_drop_id drop_eq_Nil not_le)+
qed (auto simp: hasHTTPScheme_def)

end
