(* ===== verification/Delivery.thy ===== *)
theory Delivery
  imports Errors Complex_Main
begin

text \<open>
  \<open>internal/domain/webhook.go\<close>: the outbox row of a webhook and its retry state. The
  jitter drawn from \<open>rand.Rand\<close> is an argument: \<open>None\<close> is the nil generator,
  \<open>Some f\<close> the generator whose next \<open>Float64\<close> is \<open>f\<close>. Floating-point products are
  taken over the rationals, exact up to the rounding of a \<open>float64\<close>.
\<close>

datatype WebhookEvent =
    EventPaymentAuthorized | EventPaymentCaptured | EventPaymentFailed
  | EventPaymentRefunded | EventPaymentVoided | EventPaymentSettled

fun event_string :: "WebhookEvent \<Rightarrow> string" where
  "event_string EventPaymentAuthorized = ''payment.authorized''"
| "event_string EventPaymentCaptured = ''payment.captured''"
| "event_string EventPaymentFailed = ''payment.failed''"
| "event_string EventPaymentRefunded = ''payment.refunded''"
| "event_string EventPaymentVoided = ''payment.voided''"
| "event_string EventPaymentSettled = ''payment.settled''"

datatype DeliveryStatus =
  DeliveryPending | DeliveryDelivering | DeliveryDelivered | DeliveryFailed | DeliveryDead

record delivery =
  dID :: uuid
  dMerchantID :: uuid
  dTransactionID :: uuid
  dEventType :: WebhookEvent
  dPayload :: string
  dStatus :: DeliveryStatus
  dAttemptCount :: int
  dNextAttemptAt :: time
  dLastError :: string
  dCreatedAt :: time
  dUpdatedAt :: time

definition NewWebhookDelivery ::
  "uuid \<Rightarrow> uuid \<Rightarrow> uuid \<Rightarrow> WebhookEvent \<Rightarrow> string \<Rightarrow> time \<Rightarrow> delivery" where
  "NewWebhookDelivery newID merchantID transactionID event payload now =
     \<lparr> dID = newID, dMerchantID = merchantID, dTransactionID = transactionID,
       dEventType = event, dPayload = payload, dStatus = DeliveryPending, dAttemptCount = 0,
       dNextAttemptAt = now, dLastError = [], dCreatedAt = now, dUpdatedAt = now \<rparr>"

definition BackoffDelay :: "int \<Rightarrow> rat option \<Rightarrow> duration" where
  "BackoffDelay attempt rnd =
     (let attempt = (if attempt < 1 then 1 else attempt);
          attempt = (if attempt > 16 then 16 else attempt);
          base = 2 ^ nat attempt;
          jitter = (case rnd of None \<Rightarrow> 1 | Some f \<Rightarrow> 8 / 10 + f * (4 / 10))
      in \<lfloor>base * jitter * of_int Second\<rfloor>)"

definition RecordFailure :: "string \<Rightarrow> int \<Rightarrow> time \<Rightarrow> rat option \<Rightarrow> delivery \<Rightarrow> delivery" where
  "RecordFailure errMsg maxAttempts now rnd d =
     (let d = d\<lparr> dAttemptCount := dAttemptCount d + 1, dLastError := errMsg, dUpdatedAt := now \<rparr>
      in if dAttemptCount d \<ge> maxAttempts then d\<lparr> dStatus := DeliveryDead \<rparr>
         else d\<lparr> dStatus := DeliveryFailed,
                 dNextAttemptAt := now + BackoffDelay (dAttemptCount d) rnd \<rparr>)"

definition RecordSuccess :: "time \<Rightarrow> delivery \<Rightarrow> delivery" where
  "RecordSuccess now d =
     d\<lparr> dAttemptCount := dAttemptCount d + 1, dStatus := DeliveryDelivered, dLastError := [],
        dUpdatedAt := now \<rparr>"

section \<open>Lemmas\<close>

definition draws :: "rat option \<Rightarrow> bool" where
  "draws rnd = (case rnd of None \<Rightarrow> True | Some f \<Rightarrow> 0 \<le> f \<and> f < 1)"

definition clamped :: "int \<Rightarrow> nat" where
  "clamped attempt = nat (max 1 (min 16 attempt))"

lemma BackoffDelay_eq:
  "BackoffDelay attempt rnd = \<lfloor>2 ^ clamped attempt *
     (case rnd of None \<Rightarrow> 1 | Some f \<Rightarrow> 8 / 10 + f * (4 / 10)) * of_int Second\<rfloor>"
proof -
  have "nat (if (if attempt < 1 then 1 else attempt) > 16 then 16 else (if attempt < 1 then 1 else attempt))
      = clamped attempt" by (simp add: clamped_def)
  then show ?thesis unfolding BackoffDelay_def Let_def by simp
qed

lemma RecordFailure_simps [simp]:
  "dID (RecordFailure m k now rnd d) = dID d"
  "dMerchantID (RecordFailure m k now rnd d) = dMerchantID d"
  "dTransactionID (RecordFailure m k now rnd d) = dTransactionID d"
  "dEventType (RecordFailure m k now rnd d) = dEventType d"
  "dPayload (RecordFailure m k now rnd d) = dPayload d"
  "dAttemptCount (RecordFailure m k now rnd d) = dAttemptCount d + 1"
  "dLastError (RecordFailure m k now rnd d) = m"
  "dStatus (RecordFailure m k now rnd d) =
     (if dAttemptCount d + 1 \<ge> k then DeliveryDead else DeliveryFailed)"
  by (simp_all add: RecordFailure_def Let_def)

lemma backoff_bounds_pos:
  assumes "draws rnd" shows "0 < BackoffDelay attempt rnd"
proof -
  have j: "1 / 2 \<le> (case rnd of None \<Rightarrow> 1 | Some f \<Rightarrow> 8 / 10 + f * (4 / 10))"
    using assms by (auto simp: draws_def split: option.splits)
  have "1 \<le> (2 :: rat) ^ clamped attempt" by simp
  then have "1 / 2 \<le> 2 ^ clamped attempt * (case rnd of None \<Rightarrow> 1 | Some f \<Rightarrow> 8 / 10 + f * (4 / 10))"
    using mult_mono [OF _ j] by fastforce
  then show ?thesis unfolding BackoffDelay_eq by (simp add: Second_def)
qed

section \<open>Properties\<close>

text \<open>
  The wait before a retry is two to the number of attempts in seconds, within twenty
  percent either way; whatever the attempt number, it lies between 1.6 and 78643.2 seconds.
\<close>

theorem backoff_bounds:
  assumes "draws rnd"
  shows "8 * 2 ^ clamped attempt * Second \<le> 10 * BackoffDelay attempt rnd + 9
     \<and> 10 * BackoffDelay attempt rnd \<le> 12 * 2 ^ clamped attempt * Second
     \<and> 1600000000 \<le> BackoffDelay attempt rnd \<and> BackoffDelay attempt rnd \<le> 78643200000000"
proof -
  define j :: rat where "j = (case rnd of None \<Rightarrow> 1 | Some f \<Rightarrow> 8 / 10 + f * (4 / 10))"
  define p :: int where "p = 2 ^ clamped attempt"
  have j: "8 / 10 \<le> j" "j \<le> 12 / 10"
    using assms by (auto simp: j_def draws_def split: option.splits)
  have p: "2 \<le> p" "p \<le> 65536"
  proof -
    have k: "1 \<le> clamped attempt" "clamped attempt \<le> 16" by (auto simp: clamped_def)
    show "2 \<le> p" using power_increasing [OF k(1), of "2 :: int"] by (simp add: p_def)
    show "p \<le> 65536" using power_increasing [OF k(2), of "2 :: int"] by (simp add: p_def)
  qed
  define m :: int where "m = p * Second"
  define x :: rat where "x = of_int m * j"
  have "BackoffDelay attempt rnd = \<lfloor>of_int p * j * of_int Second\<rfloor>"
    unfolding BackoffDelay_eq j_def p_def by simp
  also have "of_int p * j * of_int Second = x" by (simp add: x_def m_def)
  finally have d: "BackoffDelay attempt rnd = \<lfloor>x\<rfloor>" .
  have q: "0 \<le> (of_int m :: rat)" using p by (simp add: m_def Second_def)
  have "of_int m * (8 / 10) \<le> x" unfolding x_def by (rule mult_left_mono [OF j(1) q])
  moreover have "x \<le> of_int m * (12 / 10)" unfolding x_def by (rule mult_left_mono [OF j(2) q])
  moreover have "x < of_int \<lfloor>x\<rfloor> + 1" "of_int \<lfloor>x\<rfloor> \<le> x" by linarith+
  ultimately have "(8 * of_int m :: rat) < 10 * of_int \<lfloor>x\<rfloor> + 10"
    and "(10 * of_int \<lfloor>x\<rfloor> :: rat) \<le> 12 * of_int m" by linarith+
  then have "of_int (8 * m) < (of_int (10 * \<lfloor>x\<rfloor> + 10) :: rat)"
    and "(of_int (10 * \<lfloor>x\<rfloor>) :: rat) \<le> of_int (12 * m)" by simp_all
  then have "8 * m < 10 * \<lfloor>x\<rfloor> + 10" and "10 * \<lfloor>x\<rfloor> \<le> 12 * m"
    unfolding of_int_less_iff of_int_le_iff by simp_all
  with p show ?thesis
    unfolding d p_def [symmetric] m_def Second_def by (intro conjI) linarith+
qed

theorem backoff_bounds_witness:
  "BackoffDelay 3 None = 8000000000 \<and> 10 * BackoffDelay 3 (Some (1 / 2)) \<le> 12 * 2 ^ clamped 3 * Second"
proof -
  have "draws (Some (1 / 2))" by (simp add: draws_def)
  from backoff_bounds [OF this, of 3] show ?thesis
    by (simp add: BackoffDelay_eq clamped_def Second_def)
qed

text \<open>
  A failed attempt is counted and its reason kept; the delivery is parked as dead
  exactly if the attempts used up reach the limit, and otherwise is due again strictly
  later than now.
\<close>

theorem record_failure_outcome:
  assumes "draws rnd"
  shows "dAttemptCount (RecordFailure msg k now rnd d) = dAttemptCount d + 1
     \<and> dLastError (RecordFailure msg k now rnd d) = msg
     \<and> (dStatus (RecordFailure msg k now rnd d) = DeliveryDead \<longleftrightarrow> k \<le> dAttemptCount d + 1)
     \<and> (dAttemptCount d + 1 < k \<longrightarrow> dStatus (RecordFailure msg k now rnd d) = DeliveryFailed
          \<and> now < dNextAttemptAt (RecordFailure msg k now rnd d))"
  using backoff_bounds_pos [OF assms, of "dAttemptCount d + 1"]
  by (auto simp: RecordFailure_def Let_def)

theorem record_failure_outcome_witness:
  "dStatus (RecordFailure ''timeout'' 6 100 None
      (NewWebhookDelivery ''d'' ''m'' ''t'' EventPaymentCaptured ''{}'' 50)) = DeliveryFailed"
proof -
  have "draws None" by (simp add: draws_def)
  from record_failure_outcome [OF this, of "''timeout''" 6 100
      "NewWebhookDelivery ''d'' ''m'' ''t'' EventPaymentCaptured ''{}'' 50"]
  show ?thesis by (simp add: NewWebhookDelivery_def)
qed

end
