(* ===== verification/Database.thy ===== *)
theory Database
  imports Journal Merchant Delivery
    "HOL-Library.Char_ord" "HOL-Library.List_Lexorder" "HOL-Library.Product_Lexorder"
begin

text \<open>
  \<open>internal/repository\<close> (\<open>postgres.go\<close>, \<open>transaction_repo.go\<close>, \<open>merchant_repo.go\<close>) over the
  tables of \<open>migrations/\<close>: the database is the record of its tables, each statement is a
  function on it with the CHECK, UNIQUE and foreign key constraints written out.

  A statement may also fail for a reason outside the program (a lost connection, a
  cancelled context): every statement takes the driver's error as an argument, \<open>None\<close>
  when there is none. The database's \<open>now()\<close> is an argument as well. A text column whose
  value is NULL is read back as the empty string (COALESCE), and an empty string is written
  as NULL (NULLIF), so the column is kept as the string. Instants keep their full
  precision, and serial numbers are taken back with a rolled back transaction.
\<close>

type_synonym fault = "error option"

record db =
  dbMerchants :: "merchant list"
  dbTransactions :: "transaction list"
  dbLedger :: "ledger_entry list"
  dbLedgerSeq :: int
  dbWebhooks :: "delivery list"

section \<open>Database transactions\<close>

text \<open>
  The outcome of COMMIT when it fails is not known to the caller: the flag says whether
  the server applied the transaction.
\<close>

record tx_faults =
  fBegin :: fault
  fCommit :: "(error \<times> bool) option"

definition no_tx_faults :: tx_faults where
  "no_tx_faults = \<lparr> fBegin = None, fCommit = None \<rparr>"

definition WithTx :: "tx_faults \<Rightarrow> (db \<Rightarrow> ('r \<times> db) result) \<Rightarrow> db \<Rightarrow> 'r result \<times> db" where
  "WithTx f fn d =
     (case fBegin f of
        Some e \<Rightarrow> (Inl (wrapf ''begin transaction'' e), d)
      | None \<Rightarrow>
          (case fn d of
             Inl err \<Rightarrow> (Inl err, d)
           | Inr (r, d') \<Rightarrow>
               (case fCommit f of
                  Some (e, applied) \<Rightarrow>
                    (Inl (wrapf ''commit transaction'' e), if applied then d' else d)
                | None \<Rightarrow> (Inr r, d'))))"

text \<open>A transaction commits all of its writes or none of them.\<close>

lemma WithTx_Inr:
  "WithTx f fn d = (Inr r, d') \<longleftrightarrow> fBegin f = None \<and> fCommit f = None \<and> fn d = Inr (r, d')"
  by (auto simp: WithTx_def split: option.splits sum.splits)

lemma WithTx_Inl:
  "WithTx f fn d = (Inl err, d') \<Longrightarrow> d' = d \<or> (\<exists>r e. fn d = Inr (r, d') \<and> fCommit f = Some (e, True))"
  by (auto simp: WithTx_def split: option.splits sum.splits if_splits)

lemma WithTx_cases:
  obtains (unchanged) err where "WithTx f fn d = (Inl err, d)"
  | (lost) r d' err where "fn d = Inr (r, d')" "WithTx f fn d = (Inl err, d')"
  | (committed) r d' where "fn d = Inr (r, d')" "WithTx f fn d = (Inr r, d')"
proof (cases "WithTx f fn d")
  case (Pair res d')
  show thesis
  proof (cases res)
    case (Inl err)
    with WithTx_Inl [of f fn d err d'] Pair show thesis using unchanged lost by blast
  next
    case (Inr r)
    with Pair show thesis using committed [of r d'] by (simp add: WithTx_Inr)
  qed
qed

section \<open>The transactions table\<close>

definition nonNilMetadata :: "metadata \<Rightarrow> metadata" where
  "nonNilMetadata m = (case m of None \<Rightarrow> Some [] | Some xs \<Rightarrow> Some xs)"

text \<open>The CHECK constraints of \<open>00002_create_transactions.sql\<close>.\<close>

definition txn_checks :: "transaction \<Rightarrow> bool" where
  "txn_checks t \<longleftrightarrow> tAmount t > 0
     \<and> tCapturedAmount t \<ge> 0 \<and> tCapturedAmount t \<le> tAmount t
     \<and> tRefundedAmount t \<ge> 0 \<and> tRefundedAmount t \<le> tCapturedAmount t
     \<and> Status_Valid (tStatus t)"

text \<open>The row an INSERT of the listed columns makes; the other columns take their defaults.\<close>

definition inserted_row :: "transaction \<Rightarrow> transaction" where
  "inserted_row t = t\<lparr> tMetadata := nonNilMetadata (tMetadata t), tCardLast4 := [], tCardBrand := [],
     tAcquirerRef := [], tFailureCode := [], tAuthorizedAt := None, tCapturedAt := None,
     tSettledAt := None \<rparr>"

definition TransactionRepo_Create :: "fault \<Rightarrow> transaction \<Rightarrow> db \<Rightarrow> db result" where
  "TransactionRepo_Create f t d =
     (case f of
        Some e \<Rightarrow> Inl (wrapf ''insert transaction'' e)
      | None \<Rightarrow>
          if \<not> txn_checks t then Inl (errorf ErrValidation ''check constraint'')
          else if list_ex (\<lambda>r. tID r = tID t) (dbTransactions d) then
            Inl (wrapf ''insert transaction'' (Opaque ''duplicate key: transactions_pkey''))
          else if list_ex (\<lambda>r. tMerchantID r = tMerchantID t \<and> tReference r = tReference t)
                    (dbTransactions d) then
            Inl (errorf ErrDuplicateReference ''reference'')
          else if \<not> list_ex (\<lambda>m. mID m = tMerchantID t) (dbMerchants d) then
            Inl (wrapf ''insert transaction'' (Opaque ''foreign key: merchant_id''))
          else Inr (d\<lparr> dbTransactions := dbTransactions d @ [inserted_row t] \<rparr>))"

definition scanTransaction :: "fault \<Rightarrow> transaction option \<Rightarrow> transaction result" where
  "scanTransaction f row =
     (case f of
        Some e \<Rightarrow> Inl (wrapf ''scan transaction'' e)
      | None \<Rightarrow> (case row of None \<Rightarrow> Inl (Sentinel ErrNotFound) | Some t \<Rightarrow> Inr t))"

definition TransactionRepo_GetByID :: "fault \<Rightarrow> uuid \<Rightarrow> db \<Rightarrow> transaction result" where
  "TransactionRepo_GetByID f i d = scanTransaction f (find (\<lambda>t. tID t = i) (dbTransactions d))"

definition GetByMerchantAndID :: "fault \<Rightarrow> uuid \<Rightarrow> uuid \<Rightarrow> db \<Rightarrow> transaction result" where
  "GetByMerchantAndID f merchantID i d =
     scanTransaction f (find (\<lambda>t. tID t = i \<and> tMerchantID t = merchantID) (dbTransactions d))"

definition GetByReference :: "fault \<Rightarrow> uuid \<Rightarrow> string \<Rightarrow> db \<Rightarrow> transaction result" where
  "GetByReference f merchantID reference d =
     scanTransaction f
       (find (\<lambda>t. tMerchantID t = merchantID \<and> tReference t = reference) (dbTransactions d))"

text \<open>
  The row lock serialises database transactions on one row, so a transaction that takes
  it runs as one atomic function on the database; the lock itself leaves no trace.
\<close>

definition GetForUpdate :: "fault \<Rightarrow> uuid \<Rightarrow> db \<Rightarrow> transaction result" where
  "GetForUpdate f i d = scanTransaction f (find (\<lambda>t. tID t = i) (dbTransactions d))"

definition updated_row :: "time \<Rightarrow> transaction \<Rightarrow> transaction \<Rightarrow> transaction" where
  "updated_row dbnow t r = r\<lparr> tStatus := tStatus t, tCapturedAmount := tCapturedAmount t,
     tRefundedAmount := tRefundedAmount t, tCardLast4 := tCardLast4 t, tCardBrand := tCardBrand t,
     tAcquirerRef := tAcquirerRef t, tFailureCode := tFailureCode t,
     tAuthorizedAt := tAuthorizedAt t, tCapturedAt := tCapturedAt t, tSettledAt := tSettledAt t,
     tVersion := tVersion r + 1, tUpdatedAt := dbnow \<rparr>"

definition set_row :: "transaction \<Rightarrow> db \<Rightarrow> db" where
  "set_row r d = d\<lparr> dbTransactions := map (\<lambda>x. if tID x = tID r then r else x) (dbTransactions d) \<rparr>"

definition TransactionRepo_Update ::
  "fault \<Rightarrow> time \<Rightarrow> transaction \<Rightarrow> db \<Rightarrow> (transaction \<times> db) result" where
  "TransactionRepo_Update f dbnow t d =
     (case f of
        Some e \<Rightarrow> Inl (wrapf ''update transaction'' e)
      | None \<Rightarrow>
          (case find (\<lambda>r. tID r = tID t \<and> tVersion r = tVersion t) (dbTransactions d) of
             None \<Rightarrow> Inl (errorf ErrConcurrentModification ''transaction version'')
           | Some r \<Rightarrow>
               if tVersion r + 1 \<ge> 2 ^ 31 then
                 Inl (wrapf ''update transaction'' (Opaque ''integer out of range''))
               else if \<not> txn_checks (updated_row dbnow t r) then
                 Inl (errorf ErrValidation ''check constraint'')
               else Inr (t\<lparr> tVersion := tVersion r + 1, tUpdatedAt := dbnow \<rparr>,
                         set_row (updated_row dbnow t r) d)))"

record list_filter =
  lfMerchantID :: uuid
  lfStatus :: "Status option"
  lfFrom :: "time option"
  lfTo :: "time option"
  lfCursor :: "(time \<times> uuid) option"
  lfLimit :: int

definition clamp_limit :: "int \<Rightarrow> nat" where
  "clamp_limit n = nat (if n \<le> 0 then 50 else if n > 201 then 201 else n)"

definition opt_le :: "time option \<Rightarrow> time \<Rightarrow> bool" where
  "opt_le b x = (case b of None \<Rightarrow> True | Some t \<Rightarrow> t \<le> x)"

definition opt_ge :: "time option \<Rightarrow> time \<Rightarrow> bool" where
  "opt_ge b x = (case b of None \<Rightarrow> True | Some t \<Rightarrow> x \<le> t)"

definition list_matches :: "list_filter \<Rightarrow> transaction \<Rightarrow> bool" where
  "list_matches f t \<longleftrightarrow> tMerchantID t = lfMerchantID f
     \<and> (case lfStatus f of None \<Rightarrow> True | Some s \<Rightarrow> tStatus t = s)
     \<and> opt_le (lfFrom f) (tCreatedAt t) \<and> opt_ge (lfTo f) (tCreatedAt t)
     \<and> (case lfCursor f of None \<Rightarrow> True | Some k \<Rightarrow> (tCreatedAt t, tID t) < k)"

definition TransactionRepo_List :: "fault \<Rightarrow> list_filter \<Rightarrow> db \<Rightarrow> transaction list result" where
  "TransactionRepo_List fl f d =
     (case fl of
        Some e \<Rightarrow> Inl (wrapf ''list transactions'' e)
      | None \<Rightarrow> Inr (take (clamp_limit (lfLimit f))
          (rev (sort_key (\<lambda>t. (tCreatedAt t, tID t)) (filter (list_matches f) (dbTransactions d))))))"

definition captured_between :: "time \<Rightarrow> time \<Rightarrow> transaction \<Rightarrow> bool" where
  "captured_between frm til t = (case tCapturedAt t of None \<Rightarrow> False | Some c \<Rightarrow> frm \<le> c \<and> c < til)"

definition ListCapturedBetween :: "fault \<Rightarrow> time \<Rightarrow> time \<Rightarrow> db \<Rightarrow> transaction list result" where
  "ListCapturedBetween fl frm til d =
     (case fl of
        Some e \<Rightarrow> Inl (wrapf ''list captured transactions'' e)
      | None \<Rightarrow> Inr (sort_key (\<lambda>t. (tMerchantID t, case tCapturedAt t of None \<Rightarrow> 0 | Some c \<Rightarrow> c))
          (filter (\<lambda>t. captured_between frm til t \<and>
              (tStatus t = StatusCaptured \<or> tStatus t = StatusSettled \<or> tStatus t = StatusRefunded))
            (dbTransactions d))))"

section \<open>The merchants table\<close>

definition MerchantRepo_Create :: "fault \<Rightarrow> merchant \<Rightarrow> db \<Rightarrow> db result" where
  "MerchantRepo_Create f m d =
     (case f of
        Some e \<Rightarrow> Inl (wrapf ''insert merchant'' e)
      | None \<Rightarrow>
          if list_ex (\<lambda>r. mID r = mID m) (dbMerchants d) then
            Inl (wrapf ''insert merchant'' (Opaque ''duplicate key: merchants_pkey''))
          else if list_ex (\<lambda>r. mEmail r = mEmail m) (dbMerchants d) then
            Inl (errorf ErrValidation ''email already registered'')
          else if list_ex (\<lambda>r. mAPIKey r = mAPIKey m) (dbMerchants d) then
            Inl (errorf ErrValidation ''api key collision'')
          else Inr (d\<lparr> dbMerchants := dbMerchants d @ [m] \<rparr>))"

definition scanMerchant :: "fault \<Rightarrow> merchant option \<Rightarrow> merchant result" where
  "scanMerchant f row =
     (case f of
        Some e \<Rightarrow> Inl (wrapf ''scan merchant'' e)
      | None \<Rightarrow> (case row of None \<Rightarrow> Inl (Sentinel ErrNotFound) | Some m \<Rightarrow> Inr m))"

definition MerchantRepo_GetByID :: "fault \<Rightarrow> uuid \<Rightarrow> db \<Rightarrow> merchant result" where
  "MerchantRepo_GetByID f i d = scanMerchant f (find (\<lambda>m. mID m = i) (dbMerchants d))"

definition GetByAPIKey :: "fault \<Rightarrow> string \<Rightarrow> db \<Rightarrow> merchant result" where
  "GetByAPIKey f apiKey d = scanMerchant f (find (\<lambda>m. mAPIKey m = apiKey) (dbMerchants d))"

definition UpdateWebhook :: "fault \<Rightarrow> time \<Rightarrow> uuid \<Rightarrow> string \<Rightarrow> db \<Rightarrow> db result" where
  "UpdateWebhook f dbnow i url d =
     (case f of
        Some e \<Rightarrow> Inl (wrapf ''update merchant webhook'' e)
      | None \<Rightarrow>
          if \<not> list_ex (\<lambda>m. mID m = i) (dbMerchants d) then Inl (Sentinel ErrNotFound)
          else Inr (d\<lparr> dbMerchants :=
            map (\<lambda>m. if mID m = i then m\<lparr> mWebhookURL := url, mUpdatedAt := dbnow \<rparr> else m)
              (dbMerchants d) \<rparr>))"

section \<open>Reading a row after writing it\<close>

definition row_of :: "uuid \<Rightarrow> db \<Rightarrow> transaction option" where
  "row_of i d = find (\<lambda>t. tID t = i) (dbTransactions d)"

definition distinct_rows :: "db \<Rightarrow> bool" where
  "distinct_rows d \<longleftrightarrow> distinct (map tID (dbTransactions d))"

lemma row_of_Some:
  "row_of i d = Some t \<Longrightarrow> t \<in> set (dbTransactions d) \<and> tID t = i"
  by (auto simp: row_of_def find_Some_iff)

lemma row_of_key: "row_of i d = Some t \<Longrightarrow> tID t = i"
  using row_of_Some by blast

lemma row_of_None: "row_of i d = None \<longleftrightarrow> (\<forall>t \<in> set (dbTransactions d). tID t \<noteq> i)"
  by (auto simp: row_of_def find_None_iff)

lemma row_of_mem:
  assumes "distinct_rows d" and "t \<in> set (dbTransactions d)"
  shows "row_of (tID t) d = Some t"
proof (cases "row_of (tID t) d")
  case None
  with assms(2) show ?thesis by (auto simp: row_of_None)
next
  case (Some u)
  with row_of_Some [OF Some] assms show ?thesis
    by (auto simp: distinct_rows_def distinct_map dest: inj_onD)
qed

lemma find_same_key:
  "distinct (map key xs) \<Longrightarrow>
     find (\<lambda>x. key x = k \<and> P x) xs =
       (case find (\<lambda>x. key x = k) xs of Some x \<Rightarrow> if P x then Some x else None | None \<Rightarrow> None)"
proof (induction xs)
  case (Cons x xs)
  have none: "find (\<lambda>y. key y = key x \<and> P y) xs = None"
    using Cons.prems by (auto simp: find_None_iff image_iff)
  show ?case using Cons none by auto
qed simp

lemma GetForUpdate_Inr:
  "GetForUpdate f i d = Inr t \<longleftrightarrow> f = None \<and> row_of i d = Some t"
  by (auto simp: GetForUpdate_def scanTransaction_def row_of_def split: option.splits)

lemma GetByMerchantAndID_Inr:
  assumes "distinct_rows d"
  shows "GetByMerchantAndID f m i d = Inr t \<longleftrightarrow> f = None \<and> row_of i d = Some t \<and> tMerchantID t = m"
  using find_same_key [OF assms [unfolded distinct_rows_def], of i "\<lambda>t. tMerchantID t = m"]
  by (auto simp: GetByMerchantAndID_def scanTransaction_def row_of_def split: option.splits if_splits)

lemma set_row_simps [simp]:
  "dbMerchants (set_row r d) = dbMerchants d" "dbLedger (set_row r d) = dbLedger d"
  "dbLedgerSeq (set_row r d) = dbLedgerSeq d" "dbWebhooks (set_row r d) = dbWebhooks d"
  "map tID (dbTransactions (set_row r d)) = map tID (dbTransactions d)"
  by (simp_all add: set_row_def comp_def)

lemma distinct_set_row [simp]: "distinct_rows (set_row r d) \<longleftrightarrow> distinct_rows d"
  by (simp add: distinct_rows_def)

lemma row_of_set_row:
  "row_of i (set_row r d) =
     (if i = tID r then (if row_of i d = None then None else Some r) else row_of i d)"
proof -
  have "find (\<lambda>t. tID t = i) (map (\<lambda>x. if tID x = tID r then r else x) xs) =
      (if i = tID r then (if find (\<lambda>t. tID t = i) xs = None then None else Some r)
       else find (\<lambda>t. tID t = i) xs)" for xs by (induction xs) auto
  then show ?thesis by (simp add: row_of_def set_row_def)
qed

lemma updated_row_simps [simp]:
  "tID (updated_row now t r) = tID r" "tMerchantID (updated_row now t r) = tMerchantID r"
  "tReference (updated_row now t r) = tReference r" "tAmount (updated_row now t r) = tAmount r"
  "tCurrency (updated_row now t r) = tCurrency r" "tVersion (updated_row now t r) = tVersion r + 1"
  "tMetadata (updated_row now t r) = tMetadata r" "tCreatedAt (updated_row now t r) = tCreatedAt r"
  by (simp_all add: updated_row_def)

text \<open>An update that succeeds found the version it was read with.\<close>

lemma TransactionRepo_Update_Inr:
  assumes "distinct_rows d"
  shows "TransactionRepo_Update f now t d = Inr (t', d') \<longleftrightarrow>
     f = None \<and> (\<exists>r. row_of (tID t) d = Some r \<and> tVersion r = tVersion t \<and> tVersion r + 1 < 2 ^ 31
       \<and> txn_checks (updated_row now t r) \<and> t' = t\<lparr> tVersion := tVersion r + 1, tUpdatedAt := now \<rparr>
       \<and> d' = set_row (updated_row now t r) d)"
  using find_same_key [OF assms [unfolded distinct_rows_def], of "tID t" "\<lambda>r. tVersion r = tVersion t"]
  by (auto simp: TransactionRepo_Update_def row_of_def split: option.splits if_splits)

lemma TransactionRepo_Update_stale:
  assumes "distinct_rows d" and "row_of (tID t) d = Some r" and "tVersion r \<noteq> tVersion t"
  shows "TransactionRepo_Update None now t d = Inl (errorf ErrConcurrentModification ''transaction version'')"
  using find_same_key [OF assms(1) [unfolded distinct_rows_def], of "tID t" "\<lambda>r. tVersion r = tVersion t"]
    assms(2,3) by (simp add: TransactionRepo_Update_def row_of_def)

section \<open>The contract of a versioned table\<close>

locale versioned_store =
  fixes get :: "'k \<Rightarrow> 'd \<Rightarrow> 'r option"
    and key :: "'r \<Rightarrow> 'k"
    and ver :: "'r \<Rightarrow> int"
    and put :: "'c \<Rightarrow> 'r \<Rightarrow> 'd \<Rightarrow> ('r \<times> 'd) result"
    and ok :: "'d \<Rightarrow> bool"
  assumes put_ok: "ok d \<Longrightarrow> put c t d = Inr (t', d') \<Longrightarrow> ok d'"
    and put_current: "ok d \<Longrightarrow> put c t d = Inr (t', d') \<Longrightarrow>
      \<exists>r. get (key t) d = Some r \<and> ver r = ver t"
    and put_bumps: "ok d \<Longrightarrow> put c t d = Inr (t', d') \<Longrightarrow>
      key t' = key t \<and> ver t' = ver t + 1 \<and> (\<exists>r. get (key t) d' = Some r \<and> ver r = ver t + 1)"
    and put_stale: "ok d \<Longrightarrow> get (key t) d = Some r \<Longrightarrow> ver r \<noteq> ver t \<Longrightarrow>
      \<exists>err. put c t d = Inl err \<and> errors_Is err ErrConcurrentModification"
    and put_frame: "ok d \<Longrightarrow> put c t d = Inr (t', d') \<Longrightarrow> k \<noteq> key t \<Longrightarrow> get k d' = get k d"
begin

definition writes :: "'k \<Rightarrow> 'd \<Rightarrow> 'd \<Rightarrow> bool" where
  "writes k d d' \<longleftrightarrow> (\<exists>c t t'. key t = k \<and> put c t d = Inr (t', d'))"

lemma writes_version:
  assumes "(writes k)\<^sup>*\<^sup>* d d'" and "ok d" and "get k d = Some r"
  shows "ok d' \<and> (\<exists>r'. get k d' = Some r' \<and> ver r \<le> ver r')"
  using assms(1)
proof (induction rule: rtranclp_induct)
  case base
  show ?case using assms by simp
next
  case (step y z)
  from step.hyps(2) obtain c t t' where t: "key t = k" "put c t y = Inr (t', z)"
    unfolding writes_def by blast
  from step.IH obtain r' where r': "ok y" "get k y = Some r'" "ver r \<le> ver r'" by blast
  from put_current [OF r'(1) t(2)] t(1) r'(2) have "ver r' = ver t" by simp
  moreover from put_bumps [OF r'(1) t(2)] t(1)
  obtain s where "get k z = Some s" "ver s = ver t + 1" by blast
  ultimately show ?case using put_ok [OF r'(1) t(2)] r'(3) by auto
qed

lemma stale_write_refused:
  assumes "ok d" and "put c t d = Inr (t', d')" and "(writes (key t))\<^sup>*\<^sup>* d' d''"
    and "key u = key t" and "ver u \<le> ver t"
  shows "\<exists>err. put c' u d'' = Inl err \<and> errors_Is err ErrConcurrentModification"
proof -
  from put_bumps [OF assms(1,2)] obtain r where "get (key t) d' = Some r" "ver r = ver t + 1"
    by blast
  with writes_version [OF assms(3) put_ok [OF assms(1,2)]] obtain r' where
    "ok d''" "get (key u) d'' = Some r'" "ver t < ver r'" using assms(4) by force
  then show ?thesis using put_stale [of d'' u r'] assms(5) by auto
qed

end

interpretation txn_store: versioned_store row_of tID tVersion "TransactionRepo_Update None" distinct_rows
proof unfold_locales
  fix d now t t' d' assume ok: "distinct_rows d" and put: "TransactionRepo_Update None now t d = Inr (t', d')"
  from put obtain r where r: "row_of (tID t) d = Some r" "tVersion r = tVersion t"
    "t' = t\<lparr> tVersion := tVersion r + 1, tUpdatedAt := now \<rparr>" "d' = set_row (updated_row now t r) d"
    by (auto simp: TransactionRepo_Update_Inr [OF ok])
  note k = row_of_key [OF r(1)]
  show "distinct_rows d'" using r ok by simp
  show "\<exists>r. row_of (tID t) d = Some r \<and> tVersion r = tVersion t" using r by simp
  show "tID t' = tID t \<and> tVersion t' = tVersion t + 1
      \<and> (\<exists>r. row_of (tID t) d' = Some r \<and> tVersion r = tVersion t + 1)"
    using r k by (simp add: row_of_set_row)
  show "row_of i d' = row_of i d" if "i \<noteq> tID t" for i using r k that by (simp add: row_of_set_row)
qed (auto simp: TransactionRepo_Update_stale)

section \<open>Properties\<close>

definition row_updated :: "uuid \<Rightarrow> db \<Rightarrow> db \<Rightarrow> bool" where
  "row_updated i d d' \<longleftrightarrow> (\<exists>now t t'. tID t = i \<and> TransactionRepo_Update None now t d = Inr (t', d'))"

lemma row_updated_eq: "row_updated i = txn_store.writes i"
  by (intro ext) (simp add: row_updated_def txn_store.writes_def)

text \<open>
  No update is lost: once one writer's update of a transaction row has succeeded, every
  update of that row that still carries the version it read (or an older one) is refused as
  a concurrent modification, also after further updates.
\<close>

theorem lost_update_refused:
  assumes "distinct_rows d" and "TransactionRepo_Update None now t d = Inr (t', d')"
    and "(row_updated (tID t))\<^sup>*\<^sup>* d' d''" and "tID u = tID t" and "tVersion u \<le> tVersion t"
  shows "\<exists>err. TransactionRepo_Update None now' u d'' = Inl err \<and> errors_Is err ErrConcurrentModification"
  using txn_store.stale_write_refused [OF assms(1,2) _ assms(4,5)] assms(3) by (simp add: row_updated_eq)

theorem lost_update_refused_witness:
  "\<exists>err. TransactionRepo_Update None 11 demo_txn
      (set_row (updated_row 9 demo_txn demo_txn)
        \<lparr> dbMerchants = [], dbTransactions = [demo_txn], dbLedger = [], dbLedgerSeq = 0, dbWebhooks = [] \<rparr>) = Inl err
     \<and> errors_Is err ErrConcurrentModification"
proof -
  let ?d = "\<lparr> dbMerchants = [], dbTransactions = [demo_txn], dbLedger = [], dbLedgerSeq = 0, dbWebhooks = [] \<rparr>"
  have d: "distinct_rows ?d" by (simp add: distinct_rows_def)
  have "\<exists>t'. TransactionRepo_Update None 9 demo_txn ?d = Inr (t', set_row (updated_row 9 demo_txn demo_txn) ?d)"
    by (simp add: TransactionRepo_Update_def txn_checks_def updated_row_def demo_txn_def Status_Valid_def)
  then show ?thesis using lost_update_refused [OF d _ rtranclp.rtrancl_refl] by blast
qed

definition no_cursor :: "list_filter \<Rightarrow> list_filter" where
  "no_cursor f = f\<lparr> lfCursor := None \<rparr>"

definition listing :: "list_filter \<Rightarrow> db \<Rightarrow> transaction list" where
  "listing f d = rev (sort_key (\<lambda>t. (tCreatedAt t, tID t))
     (filter (list_matches (no_cursor f)) (dbTransactions d)))"

text \<open>The page asked for with the cursor of a row of the listing is what follows that row.\<close>

lemma next_page_follows:
  assumes "distinct_rows d" and "i < length (listing f d)"
  shows "TransactionRepo_List None
      (f\<lparr> lfCursor := Some (tCreatedAt (listing f d ! i), tID (listing f d ! i)) \<rparr>) d
    = Inr (take (clamp_limit (lfLimit f)) (drop (Suc i) (listing f d)))"
proof -
  let ?k = "\<lambda>t. (tCreatedAt t, tID t)"
  let ?xs = "filter (list_matches (no_cursor f)) (dbTransactions d)"
  have ids: "distinct (map tID ?xs)"
    using assms(1) by (simp add: distinct_rows_def distinct_map_filter)
  have "distinct (map ?k ?xs)"
  proof -
    have "map tID ?xs = map snd (map ?k ?xs)" by simp
    with ids show ?thesis using distinct_map by metis
  qed
  moreover have "i < length ?xs" using assms(2) by (simp add: listing_def)
  ultimately have "rev (sort_key ?k (filter (\<lambda>t. ?k t < ?k (listing f d ! i)) ?xs)) = drop (Suc i) (listing f d)"
    using page_after [of ?k ?xs i] by (simp add: listing_def)
  moreover have "filter (\<lambda>t. ?k t < ?k (listing f d ! i)) ?xs
      = filter (list_matches (f\<lparr> lfCursor := Some (?k (listing f d ! i)) \<rparr>)) (dbTransactions d)"
    by (auto simp: list_matches_def no_cursor_def intro!: filter_cong)
  ultimately show ?thesis by (simp add: TransactionRepo_List_def)
qed

end
