(* ===== verification/Ledger_Repo.thy ===== *)
theory Ledger_Repo
  imports Database
begin

text \<open>
  \<open>internal/repository/ledger_repo.go\<close> and \<open>internal/service/ledger_service.go\<close>: the
  append-only journal. There is no statement that changes or deletes an entry. SQL's SUM
  over BIGINT is exact; scanning it into an \<open>int64\<close> fails when it does not fit. The rows
  of a GROUP BY without ORDER BY come in the order in which their groups first appear,
  one of the orders the database may choose.
\<close>

section \<open>Writing\<close>

text \<open>The CHECK constraints and references of \<open>00003_create_ledger_entries.sql\<close>.\<close>

definition entry_checks :: "ledger_entry \<Rightarrow> bool" where
  "entry_checks e \<longleftrightarrow> (eDirection e = Debit \<or> eDirection e = Credit) \<and> eAmount e > 0"

definition entry_refs :: "db \<Rightarrow> ledger_entry \<Rightarrow> bool" where
  "entry_refs d e \<longleftrightarrow> list_ex (\<lambda>t. tID t = eTransactionID e) (dbTransactions d)
     \<and> (case eMerchantID e of None \<Rightarrow> True | Some m \<Rightarrow> list_ex (\<lambda>r. mID r = m) (dbMerchants d))"

text \<open>The loop of \<open>InsertGroup\<close>; \<open>fs k\<close> is the driver's error on the \<open>k\<close>-th INSERT.\<close>

fun insert_entries :: "(nat \<Rightarrow> fault) \<Rightarrow> nat \<Rightarrow> ledger_entry list \<Rightarrow> db \<Rightarrow> db result" where
  "insert_entries fs k [] d = Inr d"
| "insert_entries fs k (e # es) d =
     (case fs k of
        Some err \<Rightarrow> Inl (wrapf ''insert ledger entry'' err)
      | None \<Rightarrow>
          if \<not> entry_checks e then Inl (wrapf ''insert ledger entry'' (Opaque ''check constraint''))
          else if \<not> entry_refs d e then Inl (wrapf ''insert ledger entry'' (Opaque ''foreign key''))
          else insert_entries fs (Suc k) es
            (d\<lparr> dbLedger := dbLedger d @ [e\<lparr> eID := dbLedgerSeq d + 1 \<rparr>],
                dbLedgerSeq := dbLedgerSeq d + 1 \<rparr>))"

definition InsertGroup :: "(nat \<Rightarrow> fault) \<Rightarrow> entry_group \<Rightarrow> db \<Rightarrow> db result" where
  "InsertGroup fs grp d =
     (case EntryGroup_Validate grp of
        Inl err \<Rightarrow> Inl err
      | Inr _ \<Rightarrow> insert_entries fs 0 (gEntries grp) d)"

section \<open>Reading\<close>

definition scan_int64 :: "string \<Rightarrow> int \<Rightarrow> int result" where
  "scan_int64 what n = (if in64 n then Inr n else Inl (wrapf what (Opaque ''value out of range'')))"

definition LedgerRepo_Balance :: "fault \<Rightarrow> uuid \<Rightarrow> Currency \<Rightarrow> db \<Rightarrow> Balance result" where
  "LedgerRepo_Balance f merchantID currency d =
     (let account = MerchantPayableAccount merchantID;
          es = filter (\<lambda>e. eMerchantID e = Some merchantID \<and> eAccount e = account
                           \<and> eCurrency e = currency) (dbLedger d)
      in case f of
           Some err \<Rightarrow> Inl (wrapf ''compute balance'' err)
         | None \<Rightarrow>
             (case scan_int64 ''compute balance'' (debits_of es) of
                Inl err \<Rightarrow> Inl err
              | Inr debits \<Rightarrow>
                  (case scan_int64 ''compute balance'' (credits_of es) of
                     Inl err \<Rightarrow> Inl err
                   | Inr credits \<Rightarrow> Inr \<lparr> bAccount = account, bCurrency = currency,
                       bDebits = debits, bCredits = credits \<rparr>)))"

record entry_filter =
  efMerchantID :: uuid
  efAccount :: string
  efFrom :: "time option"
  efTo :: "time option"
  efCursorID :: "int option"
  efLimit :: int

definition entry_matches :: "entry_filter \<Rightarrow> ledger_entry \<Rightarrow> bool" where
  "entry_matches f e \<longleftrightarrow> eMerchantID e = Some (efMerchantID f)
     \<and> (efAccount f = [] \<or> eAccount e = efAccount f)
     \<and> opt_le (efFrom f) (eCreatedAt e) \<and> opt_ge (efTo f) (eCreatedAt e)
     \<and> (case efCursorID f of None \<Rightarrow> True | Some k \<Rightarrow> eID e < k)"

definition ListEntries :: "fault \<Rightarrow> entry_filter \<Rightarrow> db \<Rightarrow> ledger_entry list result" where
  "ListEntries fl f d =
     (case fl of
        Some err \<Rightarrow> Inl (wrapf ''list ledger entries'' err)
      | None \<Rightarrow> Inr (take (clamp_limit (efLimit f))
          (rev (sort_key eID (filter (entry_matches f) (dbLedger d))))))"

definition Ledger_ListByTransaction :: "fault \<Rightarrow> uuid \<Rightarrow> db \<Rightarrow> ledger_entry list result" where
  "Ledger_ListByTransaction fl txID d =
     (case fl of
        Some err \<Rightarrow> Inl (wrapf ''list entries by transaction'' err)
      | None \<Rightarrow> Inr (sort_key eID (filter (\<lambda>e. eTransactionID e = txID) (dbLedger d))))"

definition CountEntryGroups :: "fault \<Rightarrow> uuid \<Rightarrow> EventType \<Rightarrow> db \<Rightarrow> int result" where
  "CountEntryGroups fl txID event d =
     (case fl of
        Some err \<Rightarrow> Inl (wrapf ''count entry groups'' err)
      | None \<Rightarrow> Inr (int (length (remdups (map eEntryGroupID
          (filter (\<lambda>e. eTransactionID e = txID \<and> eEventType e = event) (dbLedger d)))))))"

record UnbalancedGroup =
  ugEntryGroupID :: uuid
  ugDebits :: Amount
  ugCredits :: Amount

text \<open>Scanning rows one after the other, up to the first that fails.\<close>

fun scan_rows :: "('a \<Rightarrow> 'b result) \<Rightarrow> 'a list \<Rightarrow> 'b list result" where
  "scan_rows f [] = Inr []"
| "scan_rows f (x # xs) =
     (case f x of
        Inl err \<Rightarrow> Inl err
      | Inr y \<Rightarrow> (case scan_rows f xs of Inl err \<Rightarrow> Inl err | Inr ys \<Rightarrow> Inr (y # ys)))"

definition group_entries :: "uuid \<Rightarrow> ledger_entry list \<Rightarrow> ledger_entry list" where
  "group_entries g es = filter (\<lambda>e. eEntryGroupID e = g) es"

definition scan_unbalanced :: "ledger_entry list \<Rightarrow> uuid \<Rightarrow> UnbalancedGroup result" where
  "scan_unbalanced es g =
     (case scan_int64 ''scan unbalanced group'' (debits_of (group_entries g es)) of
        Inl err \<Rightarrow> Inl err
      | Inr debits \<Rightarrow>
          (case scan_int64 ''scan unbalanced group'' (credits_of (group_entries g es)) of
             Inl err \<Rightarrow> Inl err
           | Inr credits \<Rightarrow> Inr \<lparr> ugEntryGroupID = g, ugDebits = debits, ugCredits = credits \<rparr>))"

definition FindUnbalancedGroups :: "fault \<Rightarrow> db \<Rightarrow> UnbalancedGroup list result" where
  "FindUnbalancedGroups fl d =
     (case fl of
        Some err \<Rightarrow> Inl (wrapf ''find unbalanced groups'' err)
      | None \<Rightarrow> scan_rows (scan_unbalanced (dbLedger d))
          (filter (\<lambda>g. debits_of (group_entries g (dbLedger d)) \<noteq> credits_of (group_entries g (dbLedger d)))
            (remdups (map eEntryGroupID (dbLedger d)))))"

record DailyTotals =
  dtMerchantID :: uuid
  dtCurrency :: Currency
  dtCaptured :: Amount
  dtRefunded :: Amount
  dtFees :: Amount

text \<open>The JOIN with the transactions captured in the window.\<close>

definition joined_entries :: "time \<Rightarrow> time \<Rightarrow> db \<Rightarrow> ledger_entry list" where
  "joined_entries frm til d =
     filter (\<lambda>e. eMerchantID e \<noteq> None \<and>
         list_ex (\<lambda>t. tID t = eTransactionID e \<and> captured_between frm til t) (dbTransactions d))
       (dbLedger d)"

definition key_entries :: "uuid \<times> Currency \<Rightarrow> ledger_entry list \<Rightarrow> ledger_entry list" where
  "key_entries k es = filter (\<lambda>e. eMerchantID e = Some (fst k) \<and> eCurrency e = snd k) es"

definition sum_captured :: "ledger_entry list \<Rightarrow> int" where
  "sum_captured es = sum_where (\<lambda>e. eEventType e = EventCapture
     \<and> eAccount e = AccountAcquirerReceivable \<and> eDirection e = Debit) eAmount es"

definition sum_refunded :: "ledger_entry list \<Rightarrow> int" where
  "sum_refunded es = sum_where (\<lambda>e. eEventType e = EventRefund
     \<and> eAccount e = AccountAcquirerReceivable \<and> eDirection e = Credit) eAmount es"

definition sum_fees :: "ledger_entry list \<Rightarrow> int" where
  "sum_fees es = sum_where (\<lambda>e. eEventType e = EventFee
     \<and> eAccount e = AccountPlatformFeeRevenue \<and> eDirection e = Credit) eAmount es"

definition scan_totals :: "ledger_entry list \<Rightarrow> uuid \<times> Currency \<Rightarrow> DailyTotals result" where
  "scan_totals es k =
     (let g = key_entries k es
      in if in64 (sum_captured g) \<and> in64 (sum_refunded g) \<and> in64 (sum_fees g) then
           Inr \<lparr> dtMerchantID = fst k, dtCurrency = snd k, dtCaptured = sum_captured g,
                 dtRefunded = sum_refunded g, dtFees = sum_fees g \<rparr>
         else Inl (wrapf ''scan ledger aggregate'' (Opaque ''value out of range'')))"

definition entry_key :: "ledger_entry \<Rightarrow> uuid \<times> Currency" where
  "entry_key e = (the (eMerchantID e), eCurrency e)"

definition AggregateByMerchant :: "fault \<Rightarrow> time \<Rightarrow> time \<Rightarrow> db \<Rightarrow> DailyTotals list result" where
  "AggregateByMerchant fl frm til d =
     (case fl of
        Some err \<Rightarrow> Inl (wrapf ''aggregate ledger by merchant'' err)
      | None \<Rightarrow>
          (let es = joined_entries frm til d
           in scan_rows (scan_totals es) (sort_key fst (remdups (map entry_key es)))))"

section \<open>The ledger service\<close>

definition LedgerService_Balance :: "fault \<Rightarrow> uuid \<Rightarrow> Currency \<Rightarrow> db \<Rightarrow> Balance result" where
  "LedgerService_Balance f merchantID currency d =
     (let currency = (if Currency_String currency = [] then VND else currency)
      in if \<not> Currency_Valid currency then
           Inl (Invalid ''currency'' ''must be one of VND, USD'')
         else LedgerRepo_Balance f merchantID currency d)"

definition LedgerService_Entries :: "fault \<Rightarrow> entry_filter \<Rightarrow> db \<Rightarrow> ledger_entry list result" where
  "LedgerService_Entries fl f d = ListEntries fl f d"

definition CheckInvariant :: "fault \<Rightarrow> db \<Rightarrow> UnbalancedGroup list result" where
  "CheckInvariant fl d = FindUnbalancedGroups fl d"

section \<open>The contract of the journal\<close>

text \<open>The entry as the caller built it, without the number the database gives it.\<close>

definition unnumbered :: "ledger_entry \<Rightarrow> ledger_entry" where
  "unnumbered e = e\<lparr> eID := 0 \<rparr>"

definition groups_balanced :: "ledger_entry list \<Rightarrow> bool" where
  "groups_balanced es \<longleftrightarrow> (\<forall>g. balanced (group_entries g es))"

lemma unnumbered_simps [simp]:
  "eAccount (unnumbered e) = eAccount e" "eDirection (unnumbered e) = eDirection e"
  "eAmount (unnumbered e) = eAmount e" "eCurrency (unnumbered e) = eCurrency e"
  "eEventType (unnumbered e) = eEventType e" "eTransactionID (unnumbered e) = eTransactionID e"
  "eMerchantID (unnumbered e) = eMerchantID e" "eEntryGroupID (unnumbered e) = eEntryGroupID e"
  by (simp_all add: unnumbered_def)

lemma sum_where_unnumbered:
  assumes "map unnumbered xs = map unnumbered ys"
    and "\<And>e. P (unnumbered e) = P e" and "\<And>e. f (unnumbered e) = f e"
  shows "sum_where P f xs = sum_where P f ys"
proof -
  have "sum_where P f zs = sum_where P f (map unnumbered zs)" for zs
    using assms(2,3) by (induction zs) auto
  with assms(1) show ?thesis by metis
qed

lemma sums_unnumbered:
  assumes "map unnumbered xs = map unnumbered ys"
  shows "captured_in i xs = captured_in i ys" "refunded_in i xs = refunded_in i ys"
    "fees_in i xs = fees_in i ys" "owed_in a c xs = owed_in a c ys"
    "debits_of xs = debits_of ys" "credits_of xs = credits_of ys"
  unfolding sums_in_defs debits_of_def credits_of_def
  by (auto intro!: sum_where_unnumbered [OF assms] arg_cong2 [where f = "(-)"])

lemma group_entries_unnumbered:
  "map unnumbered xs = map unnumbered ys \<Longrightarrow>
     map unnumbered (group_entries g xs) = map unnumbered (group_entries g ys)"
proof (induction xs arbitrary: ys)
  case (Cons x xs)
  then obtain y ys' where ys: "ys = y # ys'" "unnumbered x = unnumbered y"
    "map unnumbered xs = map unnumbered ys'" by (cases ys) auto
  then have "eEntryGroupID x = eEntryGroupID y" by (metis unnumbered_simps(8))
  with ys Cons.IH [OF ys(3)] show ?case by (simp add: group_entries_def)
qed (simp add: group_entries_def)

lemma groups_balanced_append:
  assumes "groups_balanced es0" and "balanced es" and "\<And>e. e \<in> set es \<Longrightarrow> eEntryGroupID e = i"
    and "map unnumbered new = map unnumbered es"
  shows "groups_balanced (es0 @ new)"
  unfolding groups_balanced_def
proof
  fix g
  have "group_entries g es = (if g = i then es else [])"
    using assms(3) by (auto simp: group_entries_def filter_empty_conv intro!: filter_True)
  then have "balanced (group_entries g es)" using assms(2) by (simp add: balanced_def)
  then have "balanced (group_entries g new)"
    using sums_unnumbered [OF group_entries_unnumbered [OF assms(4)]] by (simp add: balanced_def)
  moreover have "balanced (group_entries g es0)" using assms(1) by (simp add: groups_balanced_def)
  ultimately show "balanced (group_entries g (es0 @ new))"
    by (simp add: group_entries_def balanced_append)
qed

locale append_only_journal =
  fixes entries :: "'d \<Rightarrow> ledger_entry list"
    and insert :: "entry_group \<Rightarrow> 'd \<Rightarrow> 'd result"
  assumes insert_appends: "insert grp d = Inr d' \<Longrightarrow>
      \<exists>es. entries d' = entries d @ es \<and> map unnumbered es = map unnumbered (gEntries grp)"
    and insert_validates: "insert grp d = Inr d' \<Longrightarrow> EntryGroup_Validate grp = Inr ()"
begin

lemma insert_prefix: "insert grp d = Inr d' \<Longrightarrow> prefix (entries d) (entries d')"
  using insert_appends by fastforce

lemma insert_sums:
  assumes "insert grp d = Inr d'"
  shows "captured_in i (entries d') = captured_in i (entries d) + captured_in i (gEntries grp)"
    and "refunded_in i (entries d') = refunded_in i (entries d) + refunded_in i (gEntries grp)"
    and "fees_in i (entries d') = fees_in i (entries d) + fees_in i (gEntries grp)"
    and "owed_in a c (entries d') = owed_in a c (entries d) + owed_in a c (gEntries grp)"
proof -
  from insert_appends [OF assms] obtain es where es: "entries d' = entries d @ es"
    "map unnumbered es = map unnumbered (gEntries grp)" by blast
  note [simp] = sums_unnumbered [OF es(2)]
  show "captured_in i (entries d') = captured_in i (entries d) + captured_in i (gEntries grp)"
    and "refunded_in i (entries d') = refunded_in i (entries d) + refunded_in i (gEntries grp)"
    and "fees_in i (entries d') = fees_in i (entries d) + fees_in i (gEntries grp)"
    and "owed_in a c (entries d') = owed_in a c (entries d) + owed_in a c (gEntries grp)"
    by (simp_all add: es(1))
qed

lemma insert_balanced:
  assumes "insert grp d = Inr d'" and "balanced (gEntries grp)"
    and "\<And>e. e \<in> set (gEntries grp) \<Longrightarrow> eEntryGroupID e = i" and "groups_balanced (entries d)"
  shows "groups_balanced (entries d')"
  using insert_appends [OF assms(1)] groups_balanced_append [OF assms(4,2,3)] by auto

end

text \<open>An INSERT touches nothing but the journal and its sequence.\<close>

lemma insert_entries_Inr:
  "insert_entries fs k es d = Inr d' \<Longrightarrow>
     d' = d\<lparr> dbLedger := dbLedger d', dbLedgerSeq := dbLedgerSeq d + int (length es) \<rparr>
     \<and> (\<exists>new. dbLedger d' = dbLedger d @ new \<and> map unnumbered new = map unnumbered es
            \<and> map eID new = map (\<lambda>n. dbLedgerSeq d + 1 + int n) [0..<length es])
     \<and> list_all entry_checks es"
proof (induction fs k es d rule: insert_entries.induct)
  case (2 fs k e es d)
  let ?d = "d\<lparr> dbLedger := dbLedger d @ [e\<lparr> eID := dbLedgerSeq d + 1 \<rparr>], dbLedgerSeq := dbLedgerSeq d + 1 \<rparr>"
  from 2(2) have f: "fs k = None" and c: "entry_checks e" and r: "entry_refs d e"
    and rest: "insert_entries fs (Suc k) es ?d = Inr d'"
    by (auto split: option.splits if_splits)
  from 2(1) [OF f _ _ rest] c r obtain new where
    d': "d' = ?d\<lparr> dbLedger := dbLedger d', dbLedgerSeq := dbLedgerSeq ?d + int (length es) \<rparr>" and
    new: "dbLedger d' = dbLedger ?d @ new" "map unnumbered new = map unnumbered es"
      "map eID new = map (\<lambda>n. dbLedgerSeq ?d + 1 + int n) [0..<length es]" and
    cs: "list_all entry_checks es" by blast
  let ?new = "e\<lparr> eID := dbLedgerSeq d + 1 \<rparr> # new"
  have 1: "dbLedger d' = dbLedger d @ ?new" using new(1) by simp
  have 2: "map unnumbered ?new = map unnumbered (e # es)" using new(2) by (simp add: unnumbered_def)
  have 3: "map eID ?new = map (\<lambda>n. dbLedgerSeq d + 1 + int n) [0..<length (e # es)]"
    using new(3) by (simp add: upt_rec [of 0 "Suc (length es)"] map_Suc_upt [symmetric] comp_def del: upt_Suc)
  have 4: "d' = d\<lparr> dbLedger := dbLedger d', dbLedgerSeq := dbLedgerSeq d + int (length (e # es)) \<rparr>"
    using d' by (cases d') (simp add: algebra_simps)
  from 1 2 3 4 c cs show ?case by auto
qed simp

lemma InsertGroup_Inr:
  assumes "InsertGroup fs grp d = Inr d'"
  shows "EntryGroup_Validate grp = Inr ()"
    and "\<exists>new. dbLedger d' = dbLedger d @ new \<and> map unnumbered new = map unnumbered (gEntries grp)
            \<and> map eID new = map (\<lambda>n. dbLedgerSeq d + 1 + int n) [0..<length (gEntries grp)]"
    and "dbTransactions d' = dbTransactions d" and "dbMerchants d' = dbMerchants d"
    and "dbWebhooks d' = dbWebhooks d" and "dbLedgerSeq d' = dbLedgerSeq d + int (length (gEntries grp))"
proof -
  from assms have v: "EntryGroup_Validate grp = Inr ()" and i: "insert_entries fs 0 (gEntries grp) d = Inr d'"
    by (auto simp: InsertGroup_def split: sum.splits)
  show "EntryGroup_Validate grp = Inr ()" by (rule v)
  from insert_entries_Inr [OF i]
  have d': "d' = d\<lparr> dbLedger := dbLedger d', dbLedgerSeq := dbLedgerSeq d + int (length (gEntries grp)) \<rparr>"
    by blast
  show "dbTransactions d' = dbTransactions d" "dbMerchants d' = dbMerchants d"
    "dbWebhooks d' = dbWebhooks d" "dbLedgerSeq d' = dbLedgerSeq d + int (length (gEntries grp))"
    by (subst d', simp)+
  from insert_entries_Inr [OF i]
  show "\<exists>new. dbLedger d' = dbLedger d @ new \<and> map unnumbered new = map unnumbered (gEntries grp)
            \<and> map eID new = map (\<lambda>n. dbLedgerSeq d + 1 + int n) [0..<length (gEntries grp)]" by blast
qed

interpretation journal: append_only_journal dbLedger "InsertGroup fs" for fs
proof unfold_locales
  fix grp d d' assume i: "InsertGroup fs grp d = Inr d'"
  show "\<exists>es. dbLedger d' = dbLedger d @ es \<and> map unnumbered es = map unnumbered (gEntries grp)"
    using InsertGroup_Inr(2) [OF i] by blast
  show "EntryGroup_Validate grp = Inr ()" by (rule InsertGroup_Inr(1) [OF i])
qed

text \<open>Without a fault of the driver, a valid group of existing rows is written.\<close>

lemma insert_entries_ok:
  "list_all entry_checks es \<Longrightarrow> list_all (entry_refs d) es \<Longrightarrow>
     \<exists>d'. insert_entries (\<lambda>_. None) k es d = Inr d'"
proof (induction es arbitrary: k d)
  case (Cons e es)
  let ?d = "d\<lparr> dbLedger := dbLedger d @ [e\<lparr> eID := dbLedgerSeq d + 1 \<rparr>], dbLedgerSeq := dbLedgerSeq d + 1 \<rparr>"
  have "list_all (entry_refs ?d) es"
    using Cons.prems(2) by (auto simp: entry_refs_def list_all_iff split: option.splits)
  with Cons show ?case by simp
qed simp

lemma InsertGroup_ok:
  assumes v: "EntryGroup_Validate grp = Inr ()" and "list_all (entry_refs d) (gEntries grp)"
  shows "\<exists>d'. InsertGroup (\<lambda>_. None) grp d = Inr d'"
proof -
  have "list_all entry_checks (gEntries grp)"
    using v by (auto simp: EntryGroup_Validate_iff sound_entry_def [abs_def] entry_checks_def list_all_iff)
  then show ?thesis using insert_entries_ok [OF _ assms(2)] v by (simp add: InsertGroup_def)
qed

lemma scan_rows_Nil [simp]: "scan_rows f xs = Inr [] \<longleftrightarrow> xs = []"
  by (cases xs) (auto split: sum.splits)

lemma group_entries_outside: "g \<notin> set (map eEntryGroupID es) \<Longrightarrow> group_entries g es = []"
  by (auto simp: group_entries_def filter_empty_conv)

lemma FindUnbalancedGroups_Nil:
  "FindUnbalancedGroups None d = Inr [] \<longleftrightarrow> groups_balanced (dbLedger d)"
proof -
  have "groups_balanced (dbLedger d) \<longleftrightarrow>
      (\<forall>g \<in> set (map eEntryGroupID (dbLedger d)). balanced (group_entries g (dbLedger d)))"
    unfolding groups_balanced_def using group_entries_outside [of _ "dbLedger d"]
    by (metis balanced_def side_simps(1,2))
  then show ?thesis by (simp add: FindUnbalancedGroups_def balanced_def filter_empty_conv)
qed

section \<open>Properties\<close>

text \<open>
  The journal audit reports nothing exactly when every entry group of the whole journal
  has equal debits and credits, over the unbounded integers.
\<close>

theorem audit_iff_balanced:
  "CheckInvariant None d = Inr [] \<longleftrightarrow> (\<forall>g. debits_of (group_entries g (dbLedger d))
       = credits_of (group_entries g (dbLedger d)))"
  using FindUnbalancedGroups_Nil by (simp add: CheckInvariant_def groups_balanced_def balanced_def)

text \<open>
  Writing an entry group appends its lines, in order and with consecutive numbers, and
  changes nothing else of the database: no earlier line is ever touched.
\<close>

theorem insert_group_appends:
  assumes "InsertGroup fs grp d = Inr d'"
  shows "\<exists>new. d' = d\<lparr> dbLedger := dbLedger d @ new, dbLedgerSeq := dbLedgerSeq d + int (length new) \<rparr>
     \<and> map unnumbered new = map unnumbered (gEntries grp)
     \<and> map eID new = map (\<lambda>n. dbLedgerSeq d + 1 + int n) [0..<length new]"
proof -
  from InsertGroup_Inr(2) [OF assms] obtain new where
    new: "dbLedger d' = dbLedger d @ new" "map unnumbered new = map unnumbered (gEntries grp)"
      "map eID new = map (\<lambda>n. dbLedgerSeq d + 1 + int n) [0..<length (gEntries grp)]" by blast
  from new(2) have len: "length new = length (gEntries grp)" by (rule map_eq_imp_length_eq)
  have "d' = d\<lparr> dbLedger := dbLedger d @ new, dbLedgerSeq := dbLedgerSeq d + int (length new) \<rparr>"
    using InsertGroup_Inr(3-6) [OF assms] new(1) len by (cases d; cases d') simp
  with new(2,3) len show ?thesis by metis
qed

definition demo_merchant :: merchant where
  "demo_merchant = \<lparr> mID = ''m1'', mName = ''Shop'', mEmail = ''a@b'', mAPIKey = ''pk'',
     mAPISecretEnc = ''s'', mWebhookURL = ''http://x/'', mWebhookSecretEnc = ''w'',
     mStatus = MerchantActive, mCreatedAt = 0, mUpdatedAt = 0 \<rparr>"

definition demo_db :: db where
  "demo_db = \<lparr> dbMerchants = [demo_merchant], dbTransactions = [demo_txn], dbLedger = [],
     dbLedgerSeq = 0, dbWebhooks = [] \<rparr>"

theorem insert_group_appends_witness:
  "\<exists>new d'. InsertGroup (\<lambda>_. None)
       \<lparr> gID = ''g'', gEntries = capture_entries ''g'' demo_txn 100 2 20 \<rparr> demo_db = Inr d'
     \<and> dbLedger d' = new \<and> map eID new = [1, 2, 3]"
proof -
  let ?g = "\<lparr> gID = ''g'', gEntries = capture_entries ''g'' demo_txn 100 2 20 \<rparr>"
  have "EntryGroup_Validate ?g = Inr ()"
    by (simp add: EntryGroup_Validate_iff capture_entries_def sound_entry_def)
  moreover have "list_all (entry_refs demo_db) (gEntries ?g)"
    by (simp add: capture_entries_def entry_refs_def demo_db_def demo_merchant_def demo_txn_def)
  ultimately obtain d' where d': "InsertGroup (\<lambda>_. None) ?g demo_db = Inr d'"
    using InsertGroup_ok by blast
  from insert_group_appends [OF d'] obtain new where
    new: "d' = demo_db\<lparr> dbLedger := dbLedger demo_db @ new, dbLedgerSeq := dbLedgerSeq demo_db + int (length new) \<rparr>"
      "map unnumbered new = map unnumbered (gEntries ?g)"
      "map eID new = map (\<lambda>n. dbLedgerSeq demo_db + 1 + int n) [0..<length new]" by blast
  from new(2) have "length new = length (gEntries ?g)" by (rule map_eq_imp_length_eq)
  then have "length new = 3" by (simp add: capture_entries_def)
  with new d' show ?thesis by (auto simp: demo_db_def upt_rec numeral_eq_Suc)
qed

end
