(* ===== verification/Webhook_Repo.thy ===== *)
theory Webhook_Repo
  imports Database
begin

text \<open>
  \<open>internal/repository/webhook_repo.go\<close>: the outbox of webhook deliveries. The rows that
  another session has locked when \<open>ClaimDue\<close> runs, which SKIP LOCKED steps over, are an
  argument of it. The rows of the RETURNING clause come in table order, one of the orders
  the database may choose.
\<close>

section \<open>Statements\<close>

definition WebhookRepo_Create :: "fault \<Rightarrow> delivery \<Rightarrow> db \<Rightarrow> db result" where
  "WebhookRepo_Create f w d =
     (case f of
        Some err \<Rightarrow> Inl (wrapf ''insert webhook delivery'' err)
      | None \<Rightarrow>
          if list_ex (\<lambda>r. dID r = dID w) (dbWebhooks d) then
            Inl (wrapf ''insert webhook delivery'' (Opaque ''duplicate key: webhook_deliveries_pkey''))
          else if \<not> list_ex (\<lambda>m. mID m = dMerchantID w) (dbMerchants d)
                  \<or> \<not> list_ex (\<lambda>t. tID t = dTransactionID w) (dbTransactions d) then
            Inl (wrapf ''insert webhook delivery'' (Opaque ''foreign key''))
          else Inr (d\<lparr> dbWebhooks := dbWebhooks d @ [w\<lparr> dLastError := [] \<rparr>] \<rparr>))"

definition is_due :: "time \<Rightarrow> delivery \<Rightarrow> bool" where
  "is_due now w \<longleftrightarrow> (dStatus w = DeliveryPending \<or> dStatus w = DeliveryFailed) \<and> dNextAttemptAt w \<le> now"

definition due_ids :: "(uuid \<Rightarrow> bool) \<Rightarrow> nat \<Rightarrow> time \<Rightarrow> delivery list \<Rightarrow> uuid list" where
  "due_ids locked limit now ws =
     map dID (take limit (sort_key dNextAttemptAt (filter (\<lambda>w. is_due now w \<and> \<not> locked (dID w)) ws)))"

definition claimed :: "time \<Rightarrow> delivery \<Rightarrow> delivery" where
  "claimed dbnow w = w\<lparr> dStatus := DeliveryDelivering, dUpdatedAt := dbnow \<rparr>"

definition ClaimDue ::
  "fault \<Rightarrow> time \<Rightarrow> (uuid \<Rightarrow> bool) \<Rightarrow> int \<Rightarrow> time \<Rightarrow> db \<Rightarrow> (delivery list \<times> db) result" where
  "ClaimDue f dbnow locked limit now d =
     (case f of
        Some err \<Rightarrow> Inl (wrapf ''claim due webhooks'' err)
      | None \<Rightarrow>
          if limit < 0 then Inl (wrapf ''claim due webhooks'' (Opaque ''LIMIT must not be negative''))
          else (let ids = due_ids locked (nat limit) now (dbWebhooks d)
                in Inr (map (claimed dbnow) (filter (\<lambda>w. dID w \<in> set ids) (dbWebhooks d)),
                        d\<lparr> dbWebhooks := map (\<lambda>w. if dID w \<in> set ids then claimed dbnow w else w)
                             (dbWebhooks d) \<rparr>)))"

definition UpdateAttempt :: "fault \<Rightarrow> time \<Rightarrow> delivery \<Rightarrow> db \<Rightarrow> db result" where
  "UpdateAttempt f dbnow w d =
     (case f of
        Some err \<Rightarrow> Inl (wrapf ''update webhook delivery'' err)
      | None \<Rightarrow>
          if \<not> list_ex (\<lambda>r. dID r = dID w) (dbWebhooks d) then Inl (Sentinel ErrNotFound)
          else Inr (d\<lparr> dbWebhooks := map (\<lambda>r. if dID r = dID w then
              r\<lparr> dStatus := dStatus w, dAttemptCount := dAttemptCount w,
                 dNextAttemptAt := dNextAttemptAt w, dLastError := dLastError w,
                 dUpdatedAt := dbnow \<rparr> else r) (dbWebhooks d) \<rparr>))"

definition is_stale :: "time \<Rightarrow> delivery \<Rightarrow> bool" where
  "is_stale cutoff w \<longleftrightarrow> dStatus w = DeliveryDelivering \<and> dUpdatedAt w < cutoff"

definition ReleaseStale :: "fault \<Rightarrow> time \<Rightarrow> duration \<Rightarrow> time \<Rightarrow> db \<Rightarrow> (int \<times> db) result" where
  "ReleaseStale f dbnow olderThan now d =
     (case f of
        Some err \<Rightarrow> Inl (wrapf ''release stale webhooks'' err)
      | None \<Rightarrow> Inr (int (length (filter (is_stale (now - olderThan)) (dbWebhooks d))),
          d\<lparr> dbWebhooks := map (\<lambda>w. if is_stale (now - olderThan) w then
              w\<lparr> dStatus := DeliveryFailed, dNextAttemptAt := now, dUpdatedAt := dbnow \<rparr> else w)
            (dbWebhooks d) \<rparr>))"

definition scanDelivery :: "fault \<Rightarrow> delivery option \<Rightarrow> delivery result" where
  "scanDelivery f row =
     (case f of
        Some err \<Rightarrow> Inl (wrapf ''scan webhook delivery'' err)
      | None \<Rightarrow> (case row of None \<Rightarrow> Inl (Sentinel ErrNotFound) | Some w \<Rightarrow> Inr w))"

definition WebhookRepo_GetByID :: "fault \<Rightarrow> uuid \<Rightarrow> db \<Rightarrow> delivery result" where
  "WebhookRepo_GetByID f i d = scanDelivery f (find (\<lambda>w. dID w = i) (dbWebhooks d))"

definition Webhook_ListByTransaction :: "fault \<Rightarrow> uuid \<Rightarrow> db \<Rightarrow> delivery list result" where
  "Webhook_ListByTransaction f txID d =
     (case f of
        Some err \<Rightarrow> Inl (wrapf ''list webhook deliveries'' err)
      | None \<Rightarrow> Inr (sort_key dCreatedAt (filter (\<lambda>w. dTransactionID w = txID) (dbWebhooks d))))"

section \<open>The contract of a work queue\<close>

locale work_queue =
  fixes waiting :: "'d \<Rightarrow> 'i \<Rightarrow> bool"
    and held :: "'d \<Rightarrow> 'i \<Rightarrow> bool"
    and claim :: "'c \<Rightarrow> 'd \<Rightarrow> 'i list \<times> 'd"
  assumes claim_takes: "claim c d = (ids, d') \<Longrightarrow> i \<in> set ids \<Longrightarrow>
      waiting d i \<and> held d' i \<and> \<not> waiting d' i"
    and claim_frame: "claim c d = (ids, d') \<Longrightarrow> i \<notin> set ids \<Longrightarrow>
      waiting d' i = waiting d i \<and> held d' i = held d i"
begin

fun claims :: "'c list \<Rightarrow> 'd \<Rightarrow> 'i list list \<times> 'd" where
  "claims [] d = ([], d)"
| "claims (c # cs) d =
     (let (ids, d1) = claim c d; (rest, d2) = claims cs d1 in (ids # rest, d2))"

lemma claims_waiting: "claims cs d = (idss, d') \<Longrightarrow> ids \<in> set idss \<Longrightarrow> i \<in> set ids \<Longrightarrow> waiting d i"
proof (induction cs arbitrary: d idss d')
  case (Cons c cs)
  obtain ids1 d1 where c: "claim c d = (ids1, d1)" by fastforce
  obtain rest d2 where r: "claims cs d1 = (rest, d2)" by fastforce
  from Cons.prems c r have idss: "idss = ids1 # rest" "d' = d2" by auto
  show ?case
  proof (cases "i \<in> set ids1")
    case True
    then show ?thesis using claim_takes [OF c] by blast
  next
    case False
    with Cons.prems idss have "ids \<in> set rest" by auto
    with Cons.IH [OF r] Cons.prems(3) have "waiting d1 i" by blast
    with claim_frame [OF c False] show ?thesis by simp
  qed
qed simp

lemma claims_disjoint:
  "claims cs d = (idss, d') \<Longrightarrow> j < k \<Longrightarrow> k < length idss \<Longrightarrow> set (idss ! j) \<inter> set (idss ! k) = {}"
proof (induction cs arbitrary: d idss d' j k)
  case (Cons c cs)
  obtain ids1 d1 where c: "claim c d = (ids1, d1)" by fastforce
  obtain rest d2 where r: "claims cs d1 = (rest, d2)" by fastforce
  from Cons.prems c r have idss: "idss = ids1 # rest" "d' = d2" by auto
  obtain k' where k: "k = Suc k'" "k' < length rest" using Cons.prems(2,3) idss(1) by (cases k) auto
  show ?case
  proof (cases j)
    case 0
    have "i \<notin> set (rest ! k')" if "i \<in> set ids1" for i
      using claim_takes [OF c that] claims_waiting [OF r, of "rest ! k'" i] k(2) by auto
    then show ?thesis using 0 k idss by auto
  next
    case (Suc j')
    then show ?thesis using Cons.IH [OF r, of j' k'] Cons.prems(2) k idss by simp
  qed
qed simp

end

definition delivery_waiting :: "db \<Rightarrow> uuid \<Rightarrow> bool" where
  "delivery_waiting d i \<longleftrightarrow>
     list_ex (\<lambda>w. dID w = i \<and> (dStatus w = DeliveryPending \<or> dStatus w = DeliveryFailed)) (dbWebhooks d)"

definition delivery_held :: "db \<Rightarrow> uuid \<Rightarrow> bool" where
  "delivery_held d i \<longleftrightarrow> list_ex (\<lambda>w. dID w = i \<and> dStatus w = DeliveryDelivering) (dbWebhooks d)"

record claim_call =
  ccFault :: fault
  ccDBNow :: time
  ccLocked :: "uuid \<Rightarrow> bool"
  ccLimit :: int
  ccNow :: time

text \<open>What a worker holds after the call: nothing if the statement failed.\<close>

definition claim_ids :: "claim_call \<Rightarrow> db \<Rightarrow> uuid list \<times> db" where
  "claim_ids c d =
     (case ClaimDue (ccFault c) (ccDBNow c) (ccLocked c) (ccLimit c) (ccNow c) d of
        Inl _ \<Rightarrow> ([], d) | Inr (ws, d') \<Rightarrow> (map dID ws, d'))"

lemma claimed_simps [simp]:
  "dID (claimed now w) = dID w" "dStatus (claimed now w) = DeliveryDelivering"
  "dUpdatedAt (claimed now w) = now" "dPayload (claimed now w) = dPayload w"
  "dAttemptCount (claimed now w) = dAttemptCount w" "dMerchantID (claimed now w) = dMerchantID w"
  by (simp_all add: claimed_def)

lemma due_ids_mem:
  assumes "i \<in> set (due_ids locked n now ws)"
  shows "\<exists>w \<in> set ws. dID w = i \<and> is_due now w \<and> \<not> locked i"
  using assms by (auto simp: due_ids_def dest!: in_set_takeD)

lemma length_due_ids: "length (due_ids locked n now ws) \<le> n"
  by (simp add: due_ids_def)

lemma ClaimDue_Inr:
  "ClaimDue f dbnow locked limit now d = Inr (ws, d') \<longleftrightarrow> f = None \<and> 0 \<le> limit \<and>
     ws = map (claimed dbnow) (filter (\<lambda>w. dID w \<in> set (due_ids locked (nat limit) now (dbWebhooks d))) (dbWebhooks d)) \<and>
     d' = d\<lparr> dbWebhooks := map (\<lambda>w. if dID w \<in> set (due_ids locked (nat limit) now (dbWebhooks d))
                                  then claimed dbnow w else w) (dbWebhooks d) \<rparr>"
  by (auto simp: ClaimDue_def Let_def split: option.splits)

lemma due_is_claimed:
  assumes i: "i \<in> set (due_ids locked (nat limit) now (dbWebhooks d))" and "0 \<le> limit"
  shows "\<exists>ws d'. ClaimDue None dbnow locked limit now d = Inr (ws, d') \<and> i \<in> set (map dID ws)"
proof -
  from due_ids_mem [OF i] obtain w where "w \<in> set (dbWebhooks d)" "dID w = i" by blast
  then show ?thesis using assms by (auto simp: ClaimDue_Inr image_iff intro!: bexI [of _ w])
qed

lemma ClaimDue_takes:
  assumes c: "ClaimDue f dbnow locked limit now d = Inr (ws, d')" and i: "i \<in> set (map dID ws)"
  shows "delivery_waiting d i \<and> delivery_held d' i \<and> \<not> delivery_waiting d' i"
proof -
  let ?I = "set (due_ids locked (nat limit) now (dbWebhooks d))"
  from c i have "i \<in> ?I" by (auto simp: ClaimDue_Inr)
  from due_ids_mem [OF this] obtain w where "w \<in> set (dbWebhooks d)" "dID w = i" "is_due now w" by blast
  note w = this
  from c have d': "dbWebhooks d' = map (\<lambda>w. if dID w \<in> ?I then claimed dbnow w else w) (dbWebhooks d)"
    by (simp add: ClaimDue_Inr)
  have "claimed dbnow w \<in> set (dbWebhooks d')" using w \<open>i \<in> ?I\<close> d' by (auto simp: image_iff)
  with w have "delivery_held d' i"
    unfolding delivery_held_def list_ex_iff by (intro bexI [of _ "claimed dbnow w"]) simp_all
  moreover have "delivery_waiting d i" using w by (auto simp: delivery_waiting_def list_ex_iff is_due_def)
  moreover have "\<not> delivery_waiting d' i"
    using \<open>i \<in> ?I\<close> d' by (auto simp: delivery_waiting_def list_ex_iff)
  ultimately show ?thesis by blast
qed

lemma ClaimDue_frame:
  assumes c: "ClaimDue f dbnow locked limit now d = Inr (ws, d')" and i: "i \<notin> set (map dID ws)"
  shows "delivery_waiting d' i = delivery_waiting d i \<and> delivery_held d' i = delivery_held d i"
proof -
  let ?I = "set (due_ids locked (nat limit) now (dbWebhooks d))"
  have "i \<notin> ?I"
  proof
    assume "i \<in> ?I"
    from due_ids_mem [OF this] obtain w where "w \<in> set (dbWebhooks d)" "dID w = i" by blast
    with c i \<open>i \<in> ?I\<close> show False by (auto simp: ClaimDue_Inr)
  qed
  with c show ?thesis
    by (auto simp: ClaimDue_Inr delivery_waiting_def delivery_held_def list_ex_iff)
qed

interpretation outbox: work_queue delivery_waiting delivery_held claim_ids
proof unfold_locales
  fix c d ids d' i assume claim: "claim_ids c d = (ids, d')"
  let ?call = "ClaimDue (ccFault c) (ccDBNow c) (ccLocked c) (ccLimit c) (ccNow c) d"
  show "delivery_waiting d i \<and> delivery_held d' i \<and> \<not> delivery_waiting d' i" if "i \<in> set ids"
    using claim that ClaimDue_takes by (cases ?call) (fastforce simp: claim_ids_def)+
  show "delivery_waiting d' i = delivery_waiting d i \<and> delivery_held d' i = delivery_held d i"
    if "i \<notin> set ids"
    using claim that ClaimDue_frame by (cases ?call) (fastforce simp: claim_ids_def)+
qed

section \<open>Properties\<close>

text \<open>Several workers' claims, one after the other; each may see other rows locked.\<close>

fun claim_all :: "claim_call list \<Rightarrow> db \<Rightarrow> uuid list list \<times> db" where
  "claim_all [] d = ([], d)"
| "claim_all (c # cs) d =
     (let (ids, d1) = claim_ids c d; (rest, d2) = claim_all cs d1 in (ids # rest, d2))"

lemma claim_all_eq: "claim_all cs d = outbox.claims cs d"
  by (induction cs arbitrary: d) (auto simp: Let_def split: prod.splits)


definition demo_delivery :: "uuid \<Rightarrow> delivery" where
  "demo_delivery i = NewWebhookDelivery i ''m1'' ''t1'' EventPaymentCaptured ''{}'' 5"

definition demo_outbox :: db where
  "demo_outbox = \<lparr> dbMerchants = [], dbTransactions = [], dbLedger = [], dbLedgerSeq = 0,
     dbWebhooks = [demo_delivery ''w1'', demo_delivery ''w2''] \<rparr>"

definition demo_claim :: claim_call where
  "demo_claim = \<lparr> ccFault = None, ccDBNow = 7, ccLocked = (\<lambda>_. False), ccLimit = 1, ccNow = 6 \<rparr>"

lemmas demo_outbox_simps = demo_outbox_def demo_delivery_def demo_claim_def NewWebhookDelivery_def
  claim_ids_def ClaimDue_def due_ids_def is_due_def claimed_def




end
