(* ===== verification/Payment.thy ===== *)
theory Payment
  imports Ledger_Repo Webhook_Repo Acquirer
begin

text \<open>
  \<open>internal/service/payment_service.go\<close>: the authorize, capture, refund and void use cases.

  Each operation reads the row, calls the acquirer with no lock held, and then commits in
  one database transaction that reads the row again under its lock. What other sessions
  commit while an operation is outside its database transaction is an argument, a function
  on the database applied at that point (a \<open>gap\<close>), so that a statement about an operation
  for all gaps is a statement about all interleavings with other sessions. Inside a database
  transaction the row lock keeps other writers of that row out; the other writes are
  insertions, so the body is one atomic function.

  The readings of the clock, the fresh UUIDs, the driver's faults and the rendering of the
  payload as the JSONB column keeps it are arguments, gathered in one record per database
  transaction.
\<close>

section \<open>Webhook payloads\<close>

record EventPayloadTxn =
  ptID :: string
  ptMerchantID :: string
  ptReference :: string
  ptAmount :: int
  ptCurrency :: string
  ptStatus :: string
  ptCapturedAmount :: int
  ptRefundedAmount :: int
  ptCardLast4 :: string
  ptCardBrand :: string
  ptFailureCode :: string
  ptMetadata :: metadata
  ptCreatedAt :: time

record EventPayload =
  epID :: string
  epType :: string
  epCreatedAt :: time
  epData :: EventPayloadTxn

definition event_payload :: "uuid \<Rightarrow> WebhookEvent \<Rightarrow> transaction \<Rightarrow> time \<Rightarrow> EventPayload" where
  "event_payload u event txn now =
     \<lparr> epID = ''evt_'' @ u, epType = event_string event, epCreatedAt = now,
       epData = \<lparr> ptID = tID txn, ptMerchantID = tMerchantID txn, ptReference = tReference txn,
         ptAmount = tAmount txn, ptCurrency = Currency_String (tCurrency txn),
         ptStatus = status_string (tStatus txn), ptCapturedAmount = tCapturedAmount txn,
         ptRefundedAmount = tRefundedAmount txn, ptCardLast4 = tCardLast4 txn,
         ptCardBrand = tCardBrand txn, ptFailureCode = tFailureCode txn,
         ptMetadata = tMetadata txn, ptCreatedAt = tCreatedAt txn \<rparr> \<rparr>"

definition BuildEventPayload ::
  "(EventPayload \<Rightarrow> string result) \<Rightarrow> uuid \<Rightarrow> WebhookEvent \<Rightarrow> transaction \<Rightarrow> time \<Rightarrow> string result" where
  "BuildEventPayload marshal u event txn now =
     (case marshal (event_payload u event txn now) of
        Inl err \<Rightarrow> Inl (wrapf ''marshal webhook payload'' err)
      | Inr body \<Rightarrow> Inr body)"

section \<open>The bodies of the database transactions\<close>

record tx_env =
  xTx :: tx_faults
  xGet :: fault
  xUpdate :: fault
  xLedger :: "nat \<Rightarrow> fault"
  xWebhook :: fault
  xDBNow :: time
  xNow :: time
  xPayloadNow :: time
  xQueueNow :: time
  xGroupID :: uuid
  xEventID :: uuid
  xDeliveryID :: uuid
  xMarshal :: "EventPayload \<Rightarrow> string result"

definition queueWebhook :: "tx_env \<Rightarrow> transaction \<Rightarrow> WebhookEvent \<Rightarrow> db \<Rightarrow> db result" where
  "queueWebhook x txn event d =
     andThen (BuildEventPayload (xMarshal x) (xEventID x) event txn (xPayloadNow x)) (\<lambda>payload.
     WebhookRepo_Create (xWebhook x)
       (NewWebhookDelivery (xDeliveryID x) (tMerchantID txn) (tID txn) event payload (xQueueNow x)) d)"

definition authorize_body ::
  "tx_env \<Rightarrow> uuid \<Rightarrow> AuthorizeResponse \<Rightarrow> db \<Rightarrow> (transaction \<times> db) result" where
  "authorize_body x i authRes d =
     andThen (GetForUpdate (xGet x) i d) (\<lambda>fresh.
     if tStatus fresh \<noteq> StatusCreated then
       Inl (errorf ErrConcurrentModification (''status is '' @ status_string (tStatus fresh)))
     else
       andThen (Transaction_Authorize (rsRef authRes) (rsCardLast4 authRes) (rsCardBrand authRes) (xNow x) fresh) (\<lambda>fresh.
       andThen (TransactionRepo_Update (xUpdate x) (xDBNow x) fresh d) (\<lambda>(fresh, d).
       andThen (queueWebhook x fresh EventPaymentAuthorized d) (\<lambda>d.
       Inr (fresh, d)))))"

definition fail_body :: "tx_env \<Rightarrow> uuid \<Rightarrow> string \<Rightarrow> db \<Rightarrow> (unit \<times> db) result" where
  "fail_body x i code d =
     andThen (GetForUpdate (xGet x) i d) (\<lambda>fresh.
     if tStatus fresh \<noteq> StatusCreated then Inr ((), d)
     else
       andThen (Transaction_Fail code (xNow x) fresh) (\<lambda>fresh.
       andThen (TransactionRepo_Update (xUpdate x) (xDBNow x) fresh d) (\<lambda>(fresh, d).
       andThen (queueWebhook x fresh EventPaymentFailed d) (\<lambda>d.
       Inr ((), d)))))"

definition capture_body ::
  "int \<Rightarrow> tx_env \<Rightarrow> uuid \<Rightarrow> uuid \<Rightarrow> Amount \<Rightarrow> db \<Rightarrow> (transaction \<times> db) result" where
  "capture_body feeBPS x merchantID txID amount d =
     andThen (GetForUpdate (xGet x) txID d) (\<lambda>fresh.
     if tMerchantID fresh \<noteq> merchantID then Inl (Sentinel ErrNotFound)
     else
       andThen (Transaction_Capture amount (xNow x) fresh) (\<lambda>fresh.
       andThen (TransactionRepo_Update (xUpdate x) (xDBNow x) fresh d) (\<lambda>(fresh, d).
       andThen (NewCaptureEntryGroup (xGroupID x) fresh amount (Fee amount feeBPS) (xNow x)) (\<lambda>grp.
       andThen (InsertGroup (xLedger x) grp d) (\<lambda>d.
       andThen (queueWebhook x fresh EventPaymentCaptured d) (\<lambda>d.
       Inr (fresh, d)))))))"

definition refund_body ::
  "tx_env \<Rightarrow> uuid \<Rightarrow> uuid \<Rightarrow> Amount \<Rightarrow> db \<Rightarrow> (transaction \<times> db) result" where
  "refund_body x merchantID txID amount d =
     andThen (GetForUpdate (xGet x) txID d) (\<lambda>fresh.
     if tMerchantID fresh \<noteq> merchantID then Inl (Sentinel ErrNotFound)
     else
       andThen (Transaction_Refund amount (xNow x) fresh) (\<lambda>fresh.
       andThen (TransactionRepo_Update (xUpdate x) (xDBNow x) fresh d) (\<lambda>(fresh, d).
       andThen (NewRefundEntryGroup (xGroupID x) fresh amount (xNow x)) (\<lambda>grp.
       andThen (InsertGroup (xLedger x) grp d) (\<lambda>d.
       andThen (queueWebhook x fresh EventPaymentRefunded d) (\<lambda>d.
       Inr (fresh, d)))))))"

definition void_body :: "tx_env \<Rightarrow> uuid \<Rightarrow> uuid \<Rightarrow> db \<Rightarrow> (transaction \<times> db) result" where
  "void_body x merchantID txID d =
     andThen (GetForUpdate (xGet x) txID d) (\<lambda>fresh.
     if tMerchantID fresh \<noteq> merchantID then Inl (Sentinel ErrNotFound)
     else
       andThen (Transaction_Void (xNow x) fresh) (\<lambda>fresh.
       andThen (TransactionRepo_Update (xUpdate x) (xDBNow x) fresh d) (\<lambda>(fresh, d).
       andThen (queueWebhook x fresh EventPaymentVoided d) (\<lambda>d.
       Inr (fresh, d)))))"

section \<open>The operations\<close>

text \<open>The environment of the read before the acquirer call, and what happens during it.\<close>

record pre_env =
  pGet :: fault
  pNow :: time
  pGap :: "db \<Rightarrow> db"

definition Payment_Capture ::
  "int \<Rightarrow> acquirer_port \<Rightarrow> pre_env \<Rightarrow> tx_env \<Rightarrow> uuid \<Rightarrow> uuid \<Rightarrow> Amount \<Rightarrow> db
     \<Rightarrow> transaction result \<times> db" where
  "Payment_Capture feeBPS acq p x merchantID txID amount d =
     (case GetByMerchantAndID (pGet p) merchantID txID d of
        Inl err \<Rightarrow> (Inl err, d)
      | Inr txn \<Rightarrow>
          (let amount = (if amount = 0 then RemainingCapturable txn else amount)
           in case Transaction_Capture amount (pNow p) txn of
                Inl err \<Rightarrow> (Inl err, d)
              | Inr _ \<Rightarrow>
                  (case acqCapture acq (tAcquirerRef txn) amount of
                     Inl err \<Rightarrow> (Inl err, pGap p d)
                   | Inr _ \<Rightarrow> WithTx (xTx x) (capture_body feeBPS x merchantID txID amount) (pGap p d))))"

definition Payment_Refund ::
  "acquirer_port \<Rightarrow> pre_env \<Rightarrow> tx_env \<Rightarrow> uuid \<Rightarrow> uuid \<Rightarrow> Amount \<Rightarrow> db
     \<Rightarrow> transaction result \<times> db" where
  "Payment_Refund acq p x merchantID txID amount d =
     (case GetByMerchantAndID (pGet p) merchantID txID d of
        Inl err \<Rightarrow> (Inl err, d)
      | Inr txn \<Rightarrow>
          (let amount = (if amount = 0 then RemainingRefundable txn else amount)
           in case Transaction_Refund amount (pNow p) txn of
                Inl err \<Rightarrow> (Inl err, d)
              | Inr _ \<Rightarrow>
                  (case acqRefund acq (tAcquirerRef txn) amount of
                     Inl err \<Rightarrow> (Inl err, pGap p d)
                   | Inr _ \<Rightarrow> WithTx (xTx x) (refund_body x merchantID txID amount) (pGap p d))))"

definition Payment_Void ::
  "acquirer_port \<Rightarrow> pre_env \<Rightarrow> tx_env \<Rightarrow> uuid \<Rightarrow> uuid \<Rightarrow> db \<Rightarrow> transaction result \<times> db" where
  "Payment_Void acq p x merchantID txID d =
     (case GetByMerchantAndID (pGet p) merchantID txID d of
        Inl err \<Rightarrow> (Inl err, d)
      | Inr txn \<Rightarrow>
          (case Transaction_Void (pNow p) txn of
             Inl err \<Rightarrow> (Inl err, d)
           | Inr _ \<Rightarrow>
               (case acqVoid acq (tAcquirerRef txn) of
                  Inl err \<Rightarrow> (Inl err, pGap p d)
                | Inr _ \<Rightarrow> WithTx (xTx x) (void_body x merchantID txID) (pGap p d))))"

definition Payment_Get :: "fault \<Rightarrow> uuid \<Rightarrow> uuid \<Rightarrow> db \<Rightarrow> transaction result" where
  "Payment_Get f merchantID txID d = GetByMerchantAndID f merchantID txID d"

definition Payment_List :: "fault \<Rightarrow> list_filter \<Rightarrow> db \<Rightarrow> transaction list result" where
  "Payment_List fl f d = TransactionRepo_List fl f d"

definition finalizeFailure :: "tx_env \<Rightarrow> transaction \<Rightarrow> string \<Rightarrow> db \<Rightarrow> unit result \<times> db" where
  "finalizeFailure x txn code d = WithTx (xTx x) (fail_body x (tID txn) code) d"

record AuthorizeInput =
  aiMerchantID :: uuid
  aiReference :: string
  aiAmount :: Amount
  aiCurrency :: Currency
  aiCard :: Card
  aiCapture :: bool
  aiMetadata :: metadata

record auth_env =
  aNow :: time
  aID :: uuid
  aCreate :: fault
  aGetRef :: fault
  aRetryGap :: "db \<Rightarrow> db"
  aGap :: "db \<Rightarrow> db"
  aCaptureGap :: "db \<Rightarrow> db"

text \<open>The row an authorization works on: a new one, or the unfinished one of a retry.\<close>

definition obtain_row ::
  "auth_env \<Rightarrow> AuthorizeInput \<Rightarrow> transaction \<Rightarrow> db \<Rightarrow> transaction result \<times> db" where
  "obtain_row a inp txn d =
     (case TransactionRepo_Create (aCreate a) txn d of
        Inr d' \<Rightarrow> (Inr txn, d')
      | Inl err \<Rightarrow>
          if \<not> errors_Is err ErrDuplicateReference then (Inl err, d)
          else
            (let d = aRetryGap a d
             in case GetByReference (aGetRef a) (aiMerchantID inp) (aiReference inp) d of
                  Inl getErr \<Rightarrow> (Inl err, d)
                | Inr existing \<Rightarrow>
                    if tStatus existing \<noteq> StatusCreated then (Inl err, d)
                    else if tAmount existing \<noteq> aiAmount inp \<or> tCurrency existing \<noteq> aiCurrency inp
                    then (Inl err, d)
                    else (Inr existing, d)))"

text \<open>The pair that \<open>Authorize\<close> returns: the transaction, if any, and the error, if any.\<close>

type_synonym auth_result = "transaction option \<times> error option"

definition Payment_Authorize ::
  "int \<Rightarrow> acquirer_port \<Rightarrow> auth_env \<Rightarrow> tx_env \<Rightarrow> pre_env \<Rightarrow> tx_env \<Rightarrow> AuthorizeInput \<Rightarrow> db
     \<Rightarrow> auth_result \<times> db" where
  "Payment_Authorize feeBPS acq a x p xc inp d =
     (case NewTransaction (aID a) (aiMerchantID inp) (aiReference inp) (aiAmount inp)
             (aiCurrency inp) (aiMetadata inp) (aNow a) of
        Inl err \<Rightarrow> ((None, Some err), d)
      | Inr txn \<Rightarrow>
          (case obtain_row a inp txn d of
             (Inl err, d) \<Rightarrow> ((None, Some err), d)
           | (Inr txn, d) \<Rightarrow>
               (let d = aGap a d
                in case acqAuthorize acq \<lparr> arTransactionID = tID txn, arAmount = tAmount txn,
                          arCurrency = tCurrency txn, arCard = aiCard inp \<rparr> of
                     Inl acqErr \<Rightarrow>
                       (case as_DeclinedError acqErr of
                          Some (code, _) \<Rightarrow>
                            (case finalizeFailure x txn code d of
                               (Inl err, d) \<Rightarrow> ((None, Some err), d)
                             | (Inr _, d) \<Rightarrow> ((None, Some acqErr), d))
                        | None \<Rightarrow>
                            if errors_Is acqErr ErrAcquirerUnavailable then ((None, Some acqErr), d)
                            else if errors_Is acqErr ErrValidation \<or> errors_Is acqErr ErrInvalidAmount
                            then ((None, Some acqErr), d)
                            else ((None, Some (wrapf ''acquirer authorize'' acqErr)), d))
                   | Inr authRes \<Rightarrow>
                       (case WithTx (xTx x) (authorize_body x (tID txn) authRes) d of
                          (Inl err, d) \<Rightarrow> ((None, Some err), d)
                        | (Inr txn, d) \<Rightarrow>
                            if \<not> aiCapture inp then ((Some txn, None), d)
                            else
                              (case Payment_Capture feeBPS acq p xc (tMerchantID txn) (tID txn)
                                      (tAmount txn) (aCaptureGap a d) of
                                 (Inl err, d) \<Rightarrow> ((Some txn, Some err), d)
                               | (Inr captured, d) \<Rightarrow> ((Some captured, None), d))))))"

section \<open>What a committed body has done\<close>

lemma queueWebhook_Inr:
  "queueWebhook x txn event d = Inr d' \<longleftrightarrow>
     (\<exists>payload. xMarshal x (event_payload (xEventID x) event txn (xPayloadNow x)) = Inr payload
       \<and> WebhookRepo_Create (xWebhook x)
           (NewWebhookDelivery (xDeliveryID x) (tMerchantID txn) (tID txn) event payload (xQueueNow x)) d = Inr d')"
  by (auto simp: queueWebhook_def BuildEventPayload_def andThen_Inr split: sum.splits)

lemma WebhookRepo_Create_Inr:
  "WebhookRepo_Create f w d = Inr d' \<Longrightarrow> f = None \<and>
     d' = d\<lparr> dbWebhooks := dbWebhooks d @ [w\<lparr> dLastError := [] \<rparr>] \<rparr>
     \<and> dID w \<notin> set (map dID (dbWebhooks d))"
  by (auto simp: WebhookRepo_Create_def list_ex_iff split: option.splits if_splits)

text \<open>One pending delivery of the transaction's current state is queued.\<close>

definition queued :: "transaction \<Rightarrow> WebhookEvent \<Rightarrow> db \<Rightarrow> db \<Rightarrow> bool" where
  "queued t event d d' \<longleftrightarrow> (\<exists>w. dbWebhooks d' = dbWebhooks d @ [w] \<and> dStatus w = DeliveryPending
     \<and> dAttemptCount w = 0 \<and> dEventType w = event \<and> dTransactionID w = tID t \<and> dMerchantID w = tMerchantID t
     \<and> dID w \<notin> set (map dID (dbWebhooks d)))"

lemma queueWebhook_effect:
  assumes "queueWebhook x txn event d = Inr d'"
  shows "d' = d\<lparr> dbWebhooks := dbWebhooks d' \<rparr> \<and> queued txn event d d'"
proof -
  from assms obtain payload where
    "WebhookRepo_Create (xWebhook x)
      (NewWebhookDelivery (xDeliveryID x) (tMerchantID txn) (tID txn) event payload (xQueueNow x)) d = Inr d'"
    by (auto simp: queueWebhook_Inr)
  from WebhookRepo_Create_Inr [OF this] show ?thesis
    by (auto simp: queued_def NewWebhookDelivery_def)
qed

end
