(* ===== verification/Base64.thy ===== *)
theory Base64
  imports Errors
begin

text \<open>
  The encodings of \<open>encoding/base64\<close> and \<open>encoding/hex\<close> that the gateway uses: the
  standard alphabet with padding for stored secrets, the URL alphabet without padding for
  pagination cursors, and both spellings of a configured key
  (\<open>internal/config/encoding.go\<close>).
\<close>

definition b64_std :: string where
  "b64_std = ''ABCDEFGHIJKLMNOPQRSTUVWXYZabcdefghijklmnopqrstuvwxyz0123456789+/''"

definition b64_url :: string where
  "b64_url = ''ABCDEFGHIJKLMNOPQRSTUVWXYZabcdefghijklmnopqrstuvwxyz0123456789-_''"

abbreviation (input) byte :: "char \<Rightarrow> nat" where
  "byte c \<equiv> of_char c"

section \<open>Encoding\<close>

fun b64_encode :: "string \<Rightarrow> bool \<Rightarrow> string \<Rightarrow> string" where
  "b64_encode alpha pad [] = []"
| "b64_encode alpha pad [a] =
     [alpha ! (byte a div 4), alpha ! (byte a mod 4 * 16)] @ (if pad then ''=='' else [])"
| "b64_encode alpha pad [a, b] =
     [alpha ! (byte a div 4), alpha ! (byte a mod 4 * 16 + byte b div 16),
      alpha ! (byte b mod 16 * 4)] @ (if pad then ''='' else [])"
| "b64_encode alpha pad (a # b # c # rest) =
     alpha ! (byte a div 4) # alpha ! (byte a mod 4 * 16 + byte b div 16)
       # alpha ! (byte b mod 16 * 4 + byte c div 64) # alpha ! (byte c mod 64)
       # b64_encode alpha pad rest"

section \<open>Decoding\<close>

definition b64_digit :: "string \<Rightarrow> char \<Rightarrow> nat option" where
  "b64_digit alpha c = find (\<lambda>i. alpha ! i = c) [0..<64]"

definition byte1 :: "nat \<Rightarrow> nat \<Rightarrow> char" where "byte1 w x = char_of (w * 4 + x div 16)"
definition byte2 :: "nat \<Rightarrow> nat \<Rightarrow> char" where "byte2 x y = char_of (x mod 16 * 16 + y div 4)"
definition byte3 :: "nat \<Rightarrow> nat \<Rightarrow> char" where "byte3 y z = char_of (y mod 4 * 64 + z)"

text \<open>
  A last group of two or three digits stands alone without padding and is filled up to
  four with it; bits beyond the last byte are ignored.
\<close>

definition b64_last2 :: "string \<Rightarrow> char \<Rightarrow> char \<Rightarrow> string option" where
  "b64_last2 alpha a b =
     (case (b64_digit alpha a, b64_digit alpha b) of
        (Some w, Some x) \<Rightarrow> Some [byte1 w x] | _ \<Rightarrow> None)"

definition b64_last3 :: "string \<Rightarrow> char \<Rightarrow> char \<Rightarrow> char \<Rightarrow> string option" where
  "b64_last3 alpha a b c =
     (case (b64_digit alpha a, b64_digit alpha b, b64_digit alpha c) of
        (Some w, Some x, Some y) \<Rightarrow> Some [byte1 w x, byte2 x y] | _ \<Rightarrow> None)"

fun b64_groups :: "string \<Rightarrow> bool \<Rightarrow> string \<Rightarrow> string option" where
  "b64_groups alpha pad (a # b # c # d # rest) =
     (if pad \<and> d = CHR ''='' \<and> rest = [] then
        (if c = CHR ''='' then b64_last2 alpha a b else b64_last3 alpha a b c)
      else (case (b64_digit alpha a, b64_digit alpha b, b64_digit alpha c, b64_digit alpha d) of
              (Some w, Some x, Some y, Some z) \<Rightarrow>
                map_option (\<lambda>r. byte1 w x # byte2 x y # byte3 y z # r) (b64_groups alpha pad rest)
            | _ \<Rightarrow> None))"
| "b64_groups alpha pad [a, b, c] = (if pad then None else b64_last3 alpha a b c)"
| "b64_groups alpha pad [a, b] = (if pad then None else b64_last2 alpha a b)"
| "b64_groups alpha pad [a] = None"
| "b64_groups alpha pad [] = Some []"

text \<open>Line breaks are skipped wherever they stand.\<close>

definition not_eol :: "char \<Rightarrow> bool" where
  "not_eol c \<longleftrightarrow> c \<noteq> char_of (10 :: nat) \<and> c \<noteq> char_of (13 :: nat)"

definition b64_decode :: "string \<Rightarrow> bool \<Rightarrow> string \<Rightarrow> string option" where
  "b64_decode alpha pad s = b64_groups alpha pad (filter not_eol s)"

section \<open>Decoding what was encoded\<close>

lemma byte_parts:
  "byte a div 4 < 64" "byte a mod 4 < 4" "byte a div 16 < 16" "byte a mod 16 < 16"
  "byte a div 64 < 4" "byte a mod 64 < 64"
  using of_char_less [of a] by (auto simp: less_mult_imp_div_less)

lemma byte_join:
  "byte1 (byte a div 4) (byte a mod 4 * 16) = a"
  "byte1 (byte a div 4) (byte a mod 4 * 16 + byte b div 16) = a"
  "byte2 (byte a mod 4 * 16 + byte b div 16) (byte b mod 16 * 4) = b"
  "byte2 (byte a mod 4 * 16 + byte b div 16) (byte b mod 16 * 4 + byte c div 64) = b"
  "byte3 (byte b mod 16 * 4 + byte c div 64) (byte c mod 64) = c"
  using byte_parts [of b] byte_parts [of c]
  by (simp_all add: byte1_def byte2_def byte3_def)

lemma not_eol_pad: "not_eol CHR ''=''"
  by (simp add: not_eol_def char_of_def)

locale b64_alphabet =
  fixes alpha :: string
  assumes len: "length alpha = 64"
    and dist: "distinct alpha"
    and no_pad: "CHR ''='' \<notin> set alpha"
    and no_eol: "list_all not_eol alpha"
begin

lemma digit [simp]:
  assumes "n < 64"
  shows "b64_digit alpha (alpha ! n) = Some n"
proof -
  have "\<And>j. j < n \<Longrightarrow> alpha ! j \<noteq> alpha ! n"
    using assms len dist by (auto simp: nth_eq_iff_index_eq)
  then show ?thesis
    using assms by (auto simp: b64_digit_def find_Some_iff intro!: exI [of _ n])
qed

lemma not_padding [simp]: "n < 64 \<Longrightarrow> alpha ! n \<noteq> CHR ''=''"
  using no_pad len by (metis nth_mem)

lemma not_eol_nth [simp]: "n < 64 \<Longrightarrow> not_eol (alpha ! n)"
  using no_eol len by (simp add: list_all_length)

lemma sextets [simp]:
  "byte a div 4 < 64" "byte a mod 4 * 16 < 64" "byte a mod 4 * 16 + byte b div 16 < 64"
  "byte b mod 16 * 4 < 64" "byte b mod 16 * 4 + byte c div 64 < 64"
  using byte_parts [of a] byte_parts [of b] byte_parts [of c] by linarith+

lemma encode_no_eol: "filter not_eol (b64_encode alpha pad s) = b64_encode alpha pad s"
  by (induction alpha\<equiv>alpha pad s rule: b64_encode.induct) (auto simp: not_eol_pad)

lemma groups_encode: "b64_groups alpha pad (b64_encode alpha pad s) = Some s"
  by (induction alpha\<equiv>alpha pad s rule: b64_encode.induct)
    (auto simp: b64_last2_def b64_last3_def byte_join)

lemma decode_encode: "b64_decode alpha pad (b64_encode alpha pad s) = Some s"
  by (simp add: b64_decode_def encode_no_eol groups_encode)

end

interpretation std: b64_alphabet b64_std
  by unfold_locales (simp_all add: b64_std_def not_eol_def char_of_def)

interpretation url: b64_alphabet b64_url
  by unfold_locales (simp_all add: b64_url_def not_eol_def char_of_def)

end
