(* ===== verification/Http.thy ===== *)
theory Http
  imports Acquirer Payment Base64
begin

text \<open>
  \<open>internal/transport/http/response.go\<close> and \<open>request.go\<close>: what a request and a
  response are, how an error becomes a status code, and how the parts of a request are
  decoded. The JSON encoder and decoder, the UUID parser and the RFC 3339 parser are
  parameters; base64, decimal numbers and the byte-string functions are the models of the
  prelude.
\<close>

section \<open>Responses\<close>

type_synonym headers = "(string \<times> string) list"

definition header_Get :: "headers \<Rightarrow> string \<Rightarrow> string" where
  "header_Get h k = (case map_of h k of None \<Rightarrow> [] | Some v \<Rightarrow> v)"

definition header_Set :: "string \<Rightarrow> string \<Rightarrow> headers \<Rightarrow> headers" where
  "header_Set k v h = (k, v) # filter (\<lambda>(k', _). k' \<noteq> k) h"

lemma header_Get_Set [simp]:
  "header_Get (header_Set k v h) k = v"
  "k \<noteq> k' \<Longrightarrow> header_Get (header_Set k v h) k' = header_Get h k'"
proof -
  show "header_Get (header_Set k v h) k = v" by (simp add: header_Get_def header_Set_def)
  assume "k \<noteq> k'"
  moreover from this have "map_of (filter (\<lambda>(k', _). k' \<noteq> k) h) k' = map_of h k'"
    by (induction h) auto
  ultimately show "header_Get (header_Set k v h) k' = header_Get h k'"
    by (simp add: header_Get_def header_Set_def)
qed

record response =
  rsStatus :: int
  rsHeader :: headers
  rsBody :: string

text \<open>
  What a handler does: it answers, or it panics. A panic carries the headers set so far and
  whether it is \<open>http.ErrAbortHandler\<close>.
\<close>

datatype outcome = Answer response | Panic bool headers

section \<open>Errors\<close>

type_synonym ErrorType = string

abbreviation "TypeValidation \<equiv> ''validation_error''"
abbreviation "TypeAuthentication \<equiv> ''authentication_error''"
abbreviation "TypeCard \<equiv> ''card_error''"
abbreviation "TypeIdempotency \<equiv> ''idempotency_error''"
abbreviation "TypeRateLimit \<equiv> ''rate_limit_error''"
abbreviation "TypeAPI \<equiv> ''api_error''"

record ErrorBody =
  ebCode :: string
  ebMessage :: string
  ebType :: ErrorType
  ebRequestID :: string
  ebField :: string

definition error_body :: "string \<Rightarrow> string \<Rightarrow> ErrorType \<Rightarrow> ErrorBody" where
  "error_body code message type =
     \<lparr> ebCode = code, ebMessage = message, ebType = type, ebRequestID = [], ebField = [] \<rparr>"

definition mapError :: "error \<Rightarrow> int \<times> ErrorBody" where
  "mapError err =
     (case as_DeclinedError err of
        Some (code, message) \<Rightarrow> (402, error_body code message TypeCard)
      | None \<Rightarrow>
     (case as_ValidationError err of
        Some (field, message) \<Rightarrow>
          (400, (error_body ''invalid_request'' message TypeValidation)\<lparr> ebField := field \<rparr>)
      | None \<Rightarrow>
     (if errors_Is err ErrNotFound then
        (404, error_body ''resource_not_found'' ''The requested resource does not exist.'' TypeValidation)
      else if errors_Is err ErrUnauthenticated \<or> errors_Is err ErrDecrypt then
        (401, error_body ''authentication_failed'' ''The request signature could not be verified.'' TypeAuthentication)
      else if errors_Is err ErrMerchantSuspended then
        (403, error_body ''merchant_suspended'' ''This merchant account is suspended.'' TypeAuthentication)
      else if errors_Is err ErrDuplicateReference then
        (409, error_body ''duplicate_reference'' ''A transaction with this reference already exists.'' TypeValidation)
      else if errors_Is err ErrInvalidStateTransition then
        (409, error_body ''invalid_state'' ''The transaction is not in a state that allows this operation.'' TypeValidation)
      else if errors_Is err ErrAuthorizationExpired then
        (409, error_body ''authorization_expired'' ''The authorization is older than 7 days and can no longer be captured.'' TypeValidation)
      else if errors_Is err ErrCaptureExceedsAuthlzd then
        (422, error_body ''capture_exceeds_authorized'' ''The capture amount exceeds the authorized amount.'' TypeValidation)
      else if errors_Is err ErrRefundExceedsCaptured then
        (422, error_body ''refund_exceeds_captured'' ''The refund amount exceeds the captured amount.'' TypeValidation)
      else if errors_Is err ErrConcurrentModification then
        (409, error_body ''concurrent_modification'' ''The transaction was modified by another request. Retry.'' TypeAPI)
      else if errors_Is err ErrInFlight then
        (409, error_body ''request_in_progress'' ''A request with this Idempotency-Key is still in progress. Retry shortly.'' TypeIdempotency)
      else if errors_Is err ErrKeyReuse then
        (422, error_body ''idempotency_key_reuse'' ''This Idempotency-Key was already used with a different request body.'' TypeIdempotency)
      else if errors_Is err ErrRateLimited then
        (429, error_body ''rate_limit_exceeded'' ''Too many requests. Slow down.'' TypeRateLimit)
      else if errors_Is err ErrAcquirerUnavailable then
        (503, error_body ''acquirer_unavailable'' ''The card processor did not respond. The outcome is unknown; retry with the same Idempotency-Key.'' TypeAPI)
      else if errors_Is err ErrInvalidAmount \<or> errors_Is err ErrCurrencyMismatch
              \<or> errors_Is err ErrUnsupportedCurrency \<or> errors_Is err ErrValidation then
        (400, error_body ''invalid_request'' (error_text err) TypeValidation)
      else if errors_Is err ContextCanceled \<or> errors_Is err ContextDeadlineExceeded then
        (503, error_body ''request_cancelled'' ''The request was cancelled or timed out.'' TypeAPI)
      else (500, error_body ''internal_error'' ''An unexpected error occurred.'' TypeAPI))))"

section \<open>Requests\<close>

text \<open>
  A request, with the body as the server reads it (\<open>None\<close> for no body), the path
  parameter of its route and what earlier middleware has put into its context.
\<close>

record request =
  hqMethod :: string
  hqPath :: string
  hqHeader :: headers
  hqQuery :: headers
  hqBody :: "string result option"
  hqContentLength :: int
  hqParamID :: string
  hqRequestID :: string
  hqMerchant :: "merchant option"
  hqRawBody :: "string option"

definition maxBodyBytes :: nat where "maxBodyBytes = 64 * 1024"

text \<open>
  \<open>http.MaxBytesReader\<close>: the bytes a reader gets and the error it meets at their end, if it is
  not the end of the body.
\<close>

definition MaxBytesReader :: "nat \<Rightarrow> string result option \<Rightarrow> string \<times> error option" where
  "MaxBytesReader n body =
     (case body of
        None \<Rightarrow> ([], None)
      | Some (Inl err) \<Rightarrow> ([], Some err)
      | Some (Inr b) \<Rightarrow>
          if length b > n then (take n b, Some (Opaque ''http: request body too large'')) else (b, None))"

definition readAndRestoreBody :: "request \<Rightarrow> string option result" where
  "readAndRestoreBody r =
     (case hqBody r of
        None \<Rightarrow> Inr None
      | Some b \<Rightarrow>
          (case MaxBytesReader maxBodyBytes (Some b) of
             (body, Some err) \<Rightarrow> Inl (Invalid ''body'' ''could not be read'')
           | (body, None) \<Rightarrow> Inr (Some body)))"

lemma readAndRestoreBody_eq:
  "readAndRestoreBody r =
     (case hqBody r of
        None \<Rightarrow> Inr None
      | Some (Inl err) \<Rightarrow> Inl (Invalid ''body'' ''could not be read'')
      | Some (Inr body) \<Rightarrow>
          if length body > maxBodyBytes then Inl (Invalid ''body'' ''could not be read'')
          else Inr (Some body))"
  by (auto simp: readAndRestoreBody_def MaxBytesReader_def split: option.splits sum.splits)

text \<open>
  What the JSON decoder answers on the bytes and the error of its reader, and whether more input
  follows the value.
\<close>

datatype decode_error = MaxBytesError | SyntaxError int | TypeError string | EOFError | OtherError string

type_synonym 'a decoder = "string \<times> error option \<Rightarrow> decode_error + 'a \<times> bool"

definition decodeJSON :: "'a decoder \<Rightarrow> request \<Rightarrow> 'a result" where
  "decodeJSON dec r =
     (case dec (MaxBytesReader maxBodyBytes (hqBody r)) of
        Inl MaxBytesError \<Rightarrow> Inl (Invalid ''body'' ''request body is too large'')
      | Inl (SyntaxError offset) \<Rightarrow> Inl (Invalid ''body'' (''malformed JSON at byte '' @ show_int offset))
      | Inl (TypeError field) \<Rightarrow> Inl (Invalid field ''has the wrong type'')
      | Inl EOFError \<Rightarrow> Inl (Invalid ''body'' ''request body is empty'')
      | Inl (OtherError msg) \<Rightarrow> Inl (Invalid ''body'' (TrimPrefix msg ''json: ''))
      | Inr (v, trailing) \<Rightarrow>
          if trailing then Inl (Invalid ''body'' ''request body must contain a single JSON object'')
          else Inr v)"

text \<open>The zero value is kept when there is no body.\<close>

definition decodeOptionalJSON :: "'a decoder \<Rightarrow> 'a \<Rightarrow> request \<Rightarrow> 'a result" where
  "decodeOptionalJSON dec zero r =
     (if hqContentLength r = 0 then Inr zero
      else case decodeJSON dec r of
             Inr v \<Rightarrow> Inr v
           | Inl err \<Rightarrow>
               (case as_ValidationError err of
                  Some (field, message) \<Rightarrow> if message = ''request body is empty'' then Inr zero else Inl err
                | None \<Rightarrow> Inl err))"

record CreateMerchantRequest =
  cmrName :: string
  cmrEmail :: string
  cmrWebhookURL :: string

record CardRequest =
  crNumber :: string
  crExpMonth :: int
  crExpYear :: int
  crCVV :: string

record CreatePaymentRequest =
  cprReference :: string
  cprAmount :: int
  cprCurrency :: string
  cprCard :: CardRequest
  cprCapture :: bool
  cprMetadata :: metadata

definition metadata_too_long :: "metadata \<Rightarrow> bool" where
  "metadata_too_long md =
     (case md of None \<Rightarrow> False | Some kvs \<Rightarrow> list_ex (\<lambda>(k, v). length k > 40 \<or> length v > 500) kvs)"

definition ToInput :: "(string \<Rightarrow> string) \<Rightarrow> uuid \<Rightarrow> CreatePaymentRequest \<Rightarrow> AuthorizeInput result" where
  "ToInput ToUpper merchantID r =
     (if cprAmount r \<le> 0 then Inl (Invalid ''amount'' ''must be greater than zero'')
      else
        (let currency = currencyOf (ToUpper (cprCurrency r))
         in if \<not> Currency_Valid currency then Inl (Invalid ''currency'' ''must be one of VND, USD'')
            else if crNumber (cprCard r) = [] then Inl (Invalid ''card.number'' ''must not be empty'')
            else if metadata_too_long (cprMetadata r) then
              Inl (Invalid ''metadata'' ''keys are limited to 40 and values to 500 characters'')
            else Inr \<lparr> aiMerchantID = merchantID, aiReference = TrimSpace (cprReference r),
                   aiAmount = cprAmount r, aiCurrency = currency,
                   aiCard = \<lparr> cNumber = TrimSpace (crNumber (cprCard r)), cExpMonth = crExpMonth (cprCard r),
                              cExpYear = crExpYear (cprCard r), cCVV = crCVV (cprCard r) \<rparr>,
                   aiCapture = cprCapture r, aiMetadata = cprMetadata r \<rparr>))"

type_synonym AmountRequest = int

definition AmountRequest_Validate :: "AmountRequest \<Rightarrow> Amount result" where
  "AmountRequest_Validate amount =
     (if amount < 0 then Inl (Invalid ''amount'' ''must not be negative'') else Inr amount)"

section \<open>Path and query parameters\<close>

definition pathUUID :: "(string \<Rightarrow> uuid option) \<Rightarrow> string \<Rightarrow> string \<Rightarrow> uuid result" where
  "pathUUID parseUUID raw field =
     (case parseUUID raw of None \<Rightarrow> Inl (Invalid field ''must be a UUID'') | Some i \<Rightarrow> Inr i)"

definition queryTime :: "(string \<Rightarrow> time option) \<Rightarrow> string \<Rightarrow> string \<Rightarrow> time option result" where
  "queryTime parseTime raw field =
     (if raw = [] then Inr None
      else case parseTime raw of
             None \<Rightarrow> Inl (Invalid field ''must be an RFC3339 timestamp'')
           | Some t \<Rightarrow> Inr (Some t))"

definition queryLimit :: "string \<Rightarrow> int \<Rightarrow> int \<Rightarrow> int result" where
  "queryLimit raw def maximum =
     (if raw = [] then Inr def
      else case ParseInt raw of
             None \<Rightarrow> Inl (Invalid ''limit'' ''must be a positive integer'')
           | Some n \<Rightarrow>
               if n < 1 then Inl (Invalid ''limit'' ''must be a positive integer'')
               else Inr (if n > maximum then maximum else n))"

section \<open>Cursors\<close>

definition bad_cursor :: error where
  "bad_cursor = Invalid ''cursor'' ''is not a valid cursor''"

definition encodeCursor :: "(time \<Rightarrow> string) \<Rightarrow> time \<Rightarrow> uuid \<Rightarrow> string" where
  "encodeCursor formatTime ts i = b64_encode b64_url False (formatTime ts @ ''|'' @ i)"

definition decodeCursor ::
  "(string \<Rightarrow> time option) \<Rightarrow> (string \<Rightarrow> uuid option) \<Rightarrow> string \<Rightarrow> (time \<times> uuid) option result" where
  "decodeCursor parseTime parseUUID raw =
     (if raw = [] then Inr None
      else case b64_decode b64_url False raw of
        None \<Rightarrow> Inl bad_cursor
      | Some decoded \<Rightarrow>
          (case Cut CHR ''|'' decoded of
             None \<Rightarrow> Inl bad_cursor
           | Some (tsRaw, idRaw) \<Rightarrow>
               (case parseTime tsRaw of
                  None \<Rightarrow> Inl bad_cursor
                | Some ts \<Rightarrow>
                    (case parseUUID idRaw of
                       None \<Rightarrow> Inl bad_cursor
                     | Some i \<Rightarrow> Inr (Some (ts, i))))))"

definition encodeLedgerCursor :: "int \<Rightarrow> string" where
  "encodeLedgerCursor i = b64_encode b64_url False (show_int i)"

definition decodeLedgerCursor :: "string \<Rightarrow> int option result" where
  "decodeLedgerCursor raw =
     (if raw = [] then Inr None
      else case b64_decode b64_url False raw of
        None \<Rightarrow> Inl bad_cursor
      | Some decoded \<Rightarrow>
          (case ParseInt decoded of None \<Rightarrow> Inl bad_cursor | Some i \<Rightarrow> Inr (Some i)))"

lemma b64_encode_nonempty: "s \<noteq> [] \<Longrightarrow> b64_encode alpha pad s \<noteq> []"
  by (cases "(alpha, pad, s)" rule: b64_encode.cases) auto

lemma decode_encode_ledger_cursor:
  "in64 i \<Longrightarrow> decodeLedgerCursor (encodeLedgerCursor i) = Inr (Some i)"
  by (simp add: decodeLedgerCursor_def encodeLedgerCursor_def b64_encode_nonempty url.decode_encode
      ParseInt_show_int)

text \<open>What the time and UUID packages promise of a value they print.\<close>

definition prints_time :: "(time \<Rightarrow> string) \<Rightarrow> (string \<Rightarrow> time option) \<Rightarrow> time \<Rightarrow> bool" where
  "prints_time formatTime parseTime t \<longleftrightarrow>
     parseTime (formatTime t) = Some t \<and> CHR ''|'' \<notin> set (formatTime t)"

lemma decode_encode_cursor:
  assumes "prints_time formatTime parseTime ts" and "parseUUID i = Some i"
  shows "decodeCursor parseTime parseUUID (encodeCursor formatTime ts i) = Inr (Some (ts, i))"
  using assms by (simp add: prints_time_def decodeCursor_def encodeCursor_def b64_encode_nonempty
      url.decode_encode Cut_append)

text \<open>
  Cursors survive the round trip. The cursor of a journal line decodes to its number, and
  the cursor of a transaction to its time and identifier, for every 64-bit number and every
  time and identifier that the standard printers print readably; the cursor has at least two
  characters, so it is never mistaken for an absent one.
\<close>

theorem cursor_roundtrip:
  assumes "prints_time formatTime parseTime ts" and "parseUUID i = Some i" and "in64 n"
  shows "decodeCursor parseTime parseUUID (encodeCursor formatTime ts i) = Inr (Some (ts, i))
     \<and> decodeLedgerCursor (encodeLedgerCursor n) = Inr (Some n)
     \<and> encodeCursor formatTime ts i \<noteq> [] \<and> encodeLedgerCursor n \<noteq> []"
  using decode_encode_cursor [where parseUUID = parseUUID and i = i, OF assms(1,2)]
    decode_encode_ledger_cursor [OF assms(3)]
  by (simp add: encodeCursor_def encodeLedgerCursor_def b64_encode_nonempty)

theorem cursor_roundtrip_witness:
  "decodeCursor ParseInt Some (encodeCursor show_int 1700000000 ''6ba7b810'') = Inr (Some (1700000000, ''6ba7b810''))
   \<and> decodeLedgerCursor (encodeLedgerCursor 42) = Inr (Some 42)"
proof -
  have "prints_time show_int ParseInt 1700000000"
    by (simp add: prints_time_def ParseInt_show_int in64_def is_digit_def)
  from cursor_roundtrip [OF this, of Some "''6ba7b810''" 42] show ?thesis by (simp add: in64_def)
qed

section \<open>Writing responses\<close>

definition json_content :: string where
  "json_content = ''application/json; charset=utf-8''"

text \<open>
  \<open>writeJSON\<close> with the encoded value as its argument, and \<open>writeError\<close> with the encoder
  of the error envelope as a parameter.
\<close>

definition writeJSON :: "headers \<Rightarrow> int \<Rightarrow> string \<Rightarrow> outcome" where
  "writeJSON h status body =
     Answer \<lparr> rsStatus = status, rsHeader = header_Set ''Content-Type'' json_content h, rsBody = body \<rparr>"

definition writeError :: "(ErrorBody \<Rightarrow> string) \<Rightarrow> request \<Rightarrow> headers \<Rightarrow> error \<Rightarrow> outcome" where
  "writeError enc r h err =
     (case mapError err of
        (status, body) \<Rightarrow> writeJSON h status (enc (body\<lparr> ebRequestID := hqRequestID r \<rparr>)))"

section \<open>What an error reveals\<close>

text \<open>The class of an error: what it wraps in the end.\<close>

fun cause :: "error \<Rightarrow> error" where
  "cause (Wrap m e) = cause e"
| "cause e = e"

lemma cause_simps:
  "errors_Is (cause e) s = errors_Is e s" "as_DeclinedError (cause e) = as_DeclinedError e"
  "as_ValidationError (cause e) = as_ValidationError e"
  by (induction e) auto

lemma cause_leaf: "\<nexists>m e'. cause e = Wrap m e'"
  by (induction e) auto

text \<open>The sentinels that no branch of \<open>mapError\<close> names.\<close>

definition unmapped :: "sentinel set" where
  "unmapped = {ErrUnbalancedEntryGroup, ErrCircuitOpen, ErrMalformedSignature, ErrSignatureMismatch,
     ErrSignatureExpired}"

definition is_internal :: "error \<Rightarrow> bool" where
  "is_internal e \<longleftrightarrow> (\<exists>m. cause e = Opaque m) \<or> (\<exists>s \<in> unmapped. cause e = Sentinel s)"

lemma mapError_text:
  assumes "as_ValidationError e = None" and "errors_Is e s"
    and "s \<in> {ErrInvalidAmount, ErrCurrencyMismatch, ErrUnsupportedCurrency, ErrValidation}"
  shows "mapError e = (400, error_body ''invalid_request'' (error_text e) TypeValidation)"
proof -
  have none: "as_DeclinedError e = None" using assms(2) as_Declined_not_Is by (metis not_None_eq)
  have other: "\<not> errors_Is e s'" if "s' \<noteq> s" for s' using assms(2) errors_Is_unique that by blast
  from assms(3) consider "s = ErrInvalidAmount" | "s = ErrCurrencyMismatch" | "s = ErrUnsupportedCurrency"
    | "s = ErrValidation" by blast
  then show ?thesis
    by cases (use assms(1,2) none other in \<open>simp_all add: mapError_def\<close>)
qed

lemma mapError_field:
  assumes "as_ValidationError e = Some (f, m)"
  shows "mapError e = (400, (error_body ''invalid_request'' m TypeValidation)\<lparr> ebField := f \<rparr>)"
proof -
  have "as_DeclinedError e = None"
    using as_Declined_not_Is as_Validation_Is [OF assms] by (metis not_None_eq)
  with assms show ?thesis by (simp add: mapError_def)
qed

lemma mapError_cause:
  "fst (mapError e) = fst (mapError (cause e)) \<and> ebCode (snd (mapError e)) = ebCode (snd (mapError (cause e)))
     \<and> ebType (snd (mapError e)) = ebType (snd (mapError (cause e)))
     \<and> (fst (mapError e) \<noteq> 400 \<longrightarrow> snd (mapError e) = snd (mapError (cause e)))"
proof -
  consider (field) f m where "as_ValidationError e = Some (f, m)"
    | (worded) s where "as_ValidationError e = None" "errors_Is e s"
        "s \<in> {ErrInvalidAmount, ErrCurrencyMismatch, ErrUnsupportedCurrency, ErrValidation}"
    | (fixed) "\<not> (errors_Is e ErrInvalidAmount \<or> errors_Is e ErrCurrencyMismatch
        \<or> errors_Is e ErrUnsupportedCurrency \<or> errors_Is e ErrValidation)"
    by (cases "as_ValidationError e") auto
  then show ?thesis
  proof cases
    case field
    then show ?thesis using mapError_field [of e] mapError_field [of "cause e"] by (simp add: cause_simps)
  next
    case worded
    then show ?thesis
      using mapError_text [of e s] mapError_text [of "cause e" s]
      by (simp add: cause_simps error_body_def del: insert_iff)
  next
    case fixed
    then have "mapError e = mapError (cause e)"
      by (simp add: mapError_def cause_simps cong: if_cong option.case_cong split del: if_split)
    then show ?thesis by simp
  qed
qed

lemma mapError_leaf:
  "mapError (Opaque m) = (500, error_body ''internal_error'' ''An unexpected error occurred.'' TypeAPI)"
  "s \<in> unmapped \<Longrightarrow> mapError (Sentinel s) = (500, error_body ''internal_error'' ''An unexpected error occurred.'' TypeAPI)"
  "s \<notin> unmapped \<Longrightarrow> fst (mapError (Sentinel s)) \<in> {400, 401, 403, 404, 409, 422, 429, 503}"
  "fst (mapError (DeclinedError c m)) = 402" "fst (mapError (ValidationError f m)) = 400"
  by (simp_all add: mapError_def) (cases s; simp add: unmapped_def)+

text \<open>
  C33. One place decides the status. However often an error has been wrapped, the response has
  the status, code and type of its cause. The status is 500 exactly for an error outside of
  the mapped classes, and then the body is one fixed text: nothing of the internal message
  reaches the client.
\<close>

theorem error_mapping:
  "(fst (mapError e) = 500 \<longleftrightarrow> is_internal e)
   \<and> (is_internal e \<longrightarrow> snd (mapError e) = error_body ''internal_error'' ''An unexpected error occurred.'' TypeAPI)
   \<and> fst (mapError (wrapf msg e)) = fst (mapError e)
   \<and> ebCode (snd (mapError (wrapf msg e))) = ebCode (snd (mapError e))
   \<and> ebType (snd (mapError (wrapf msg e))) = ebType (snd (mapError e))"
proof -
  have c: "cause (wrapf msg e) = cause e" by (simp add: wrapf_def)
  have 500: "fst (mapError e) = 500 \<longleftrightarrow> is_internal e"
  proof (cases "cause e")
    case (Sentinel s)
    then show ?thesis
      using mapError_cause [of e] mapError_leaf(2,3) [of s] by (cases "s \<in> unmapped") (auto simp: is_internal_def)
  next
    case (Wrap m e')
    then show ?thesis using cause_leaf by blast
  qed (use mapError_cause [of e] mapError_leaf in \<open>auto simp: is_internal_def\<close>)
  have "snd (mapError e) = error_body ''internal_error'' ''An unexpected error occurred.'' TypeAPI" if "is_internal e"
  proof -
    from that 500 mapError_cause [of e] have "snd (mapError e) = snd (mapError (cause e))" by simp
    with that mapError_leaf(1,2) show ?thesis by (auto simp: is_internal_def)
  qed
  with 500 mapError_cause [of e] mapError_cause [of "wrapf msg e"] c show ?thesis by simp
qed

theorem error_mapping_witness:
  "snd (mapError (wrapf ''query'' (Opaque ''password authentication failed'')))
     = error_body ''internal_error'' ''An unexpected error occurred.'' TypeAPI"
proof -
  have "is_internal (wrapf ''query'' (Opaque ''password authentication failed''))"
    by (simp add: is_internal_def wrapf_def)
  with error_mapping [of "wrapf ''query'' (Opaque ''password authentication failed'')"] show ?thesis by blast
qed

end
