(* ===== verification/Redis.thy ===== *)
theory Redis
  imports Errors
begin

text \<open>
  The Redis server as the gateway's packages see it. The client library and the server are
  not part of the repository: they are a record of commands over an arbitrary server state,
  a parameter of every definition that uses them. What the gateway relies on is the contract
  \<open>redis_server\<close>, the documented effect of each command on the live keys; a command that
  answers with an error may or may not have taken effect. \<open>keyspace\<close> is an executable
  server with injected faults that meets the contract.
\<close>

record 's redis =
  rdSetNX :: "time \<Rightarrow> string \<Rightarrow> string \<Rightarrow> duration \<Rightarrow> 's \<Rightarrow> bool result \<times> 's"
  rdGet :: "time \<Rightarrow> string \<Rightarrow> 's \<Rightarrow> string option result \<times> 's"
  rdSet :: "time \<Rightarrow> string \<Rightarrow> string \<Rightarrow> duration \<Rightarrow> 's \<Rightarrow> unit result \<times> 's"
  rdDel :: "time \<Rightarrow> string \<Rightarrow> 's \<Rightarrow> unit result \<times> 's"
  rdIncrExpire :: "time \<Rightarrow> string \<Rightarrow> duration \<Rightarrow> 's \<Rightarrow> int result \<times> 's"

text \<open>A key holds a value until its deadline. A missing key counts from zero.\<close>

type_synonym keyspace = "string \<Rightarrow> (string \<times> time) option"

definition live :: "keyspace \<Rightarrow> time \<Rightarrow> string \<Rightarrow> string option" where
  "live m t k = (case m k of None \<Rightarrow> None | Some (v, deadline) \<Rightarrow> if t < deadline then Some v else None)"

definition put :: "string \<Rightarrow> string \<Rightarrow> time \<Rightarrow> keyspace \<Rightarrow> keyspace" where
  "put k v deadline m = m(k \<mapsto> (v, deadline))"

definition counter :: "keyspace \<Rightarrow> time \<Rightarrow> string \<Rightarrow> int option" where
  "counter m t k = (case live m t k of None \<Rightarrow> Some 0 | Some v \<Rightarrow> ParseInt v)"

text \<open>After an error the command has been applied or not.\<close>

definition settles :: "'a result \<Rightarrow> ('a \<Rightarrow> bool) \<Rightarrow> keyspace \<Rightarrow> keyspace \<Rightarrow> keyspace \<Rightarrow> bool" where
  "settles r ok before applied after \<longleftrightarrow>
     (case r of Inr x \<Rightarrow> ok x \<and> after = applied | Inl _ \<Rightarrow> after = before \<or> after = applied)"

locale redis_server =
  fixes c :: "'s redis" and view :: "'s \<Rightarrow> keyspace"
  assumes SetNX_free: "live (view s) t k = None \<Longrightarrow> rdSetNX c t k v ttl s = (r, s') \<Longrightarrow>
      settles r (\<lambda>b. b) (view s) (put k v (t + ttl) (view s)) (view s')"
    and SetNX_taken: "live (view s) t k \<noteq> None \<Longrightarrow> rdSetNX c t k v ttl s = (r, s') \<Longrightarrow>
      settles r (\<lambda>b. \<not> b) (view s) (view s) (view s')"
    and Get: "rdGet c t k s = (ro, s') \<Longrightarrow> settles ro (\<lambda>x. x = live (view s) t k) (view s) (view s) (view s')"
    and Set: "rdSet c t k v ttl s = (ru, s') \<Longrightarrow>
      settles ru (\<lambda>_. True) (view s) (put k v (t + ttl) (view s)) (view s')"
    and Del: "rdDel c t k s = (ru, s') \<Longrightarrow> settles ru (\<lambda>_. True) (view s) ((view s)(k := None)) (view s')"
    and Incr: "counter (view s) t k = Some n \<Longrightarrow> in64 (n + 1) \<Longrightarrow> rdIncrExpire c t k ttl s = (ri, s') \<Longrightarrow>
      settles ri (\<lambda>m. m = n + 1) (view s) (put k (show_int (n + 1)) (t + ttl) (view s)) (view s')"
begin

lemma SetNX_won:
  assumes "rdSetNX c t k v ttl s = (Inr True, s')"
  shows "live (view s) t k = None \<and> view s' = put k v (t + ttl) (view s)"
  using SetNX_free [OF _ assms] SetNX_taken [OF _ assms]
  by (cases "live (view s) t k") (simp_all add: settles_def)

lemma SetNX_lost:
  assumes "rdSetNX c t k v ttl s = (Inr False, s')"
  shows "live (view s) t k \<noteq> None \<and> view s' = view s"
  using SetNX_free [OF _ assms] SetNX_taken [OF _ assms]
  by (cases "live (view s) t k") (simp_all add: settles_def)

lemma SetNX_cases:
  assumes "rdSetNX c t k v ttl s = (r, s')"
  shows "view s' = view s \<or> (live (view s) t k = None \<and> view s' = put k v (t + ttl) (view s))"
  using SetNX_free [OF _ assms] SetNX_taken [OF _ assms]
  by (cases "live (view s) t k") (auto simp: settles_def split: sum.splits)

lemma Get_answer:
  assumes "rdGet c t k s = (r, s')"
  shows "view s' = view s \<and> (\<forall>x. r = Inr x \<longrightarrow> x = live (view s) t k)"
  using Get [OF assms] by (auto simp: settles_def split: sum.splits)

end

section \<open>An executable server\<close>

text \<open>The state is the keyspace and the faults of the commands to come.\<close>

record server =
  svKeys :: keyspace
  svFaults :: "(error \<times> bool) option list"

definition answer :: "'a \<Rightarrow> keyspace \<Rightarrow> server \<Rightarrow> 'a result \<times> server" where
  "answer x m s =
     (case svFaults s of
        [] \<Rightarrow> (Inr x, s\<lparr> svKeys := m \<rparr>)
      | None # fs \<Rightarrow> (Inr x, s\<lparr> svKeys := m, svFaults := fs \<rparr>)
      | Some (err, applied) # fs \<Rightarrow>
          (Inl err, s\<lparr> svKeys := (if applied then m else svKeys s), svFaults := fs \<rparr>))"

definition keyspace_redis :: "server redis" where
  "keyspace_redis =
     \<lparr> rdSetNX = (\<lambda>t k v ttl s. case live (svKeys s) t k of
          None \<Rightarrow> answer True (put k v (t + ttl) (svKeys s)) s
        | Some _ \<Rightarrow> answer False (svKeys s) s),
       rdGet = (\<lambda>t k s. answer (live (svKeys s) t k) (svKeys s) s),
       rdSet = (\<lambda>t k v ttl s. answer () (put k v (t + ttl) (svKeys s)) s),
       rdDel = (\<lambda>t k s. answer () ((svKeys s)(k := None)) s),
       rdIncrExpire = (\<lambda>t k ttl s. case counter (svKeys s) t k of
          None \<Rightarrow> (Inl (Opaque ''ERR value is not an integer or out of range''), s)
        | Some n \<Rightarrow>
            if \<not> in64 (n + 1) then (Inl (Opaque ''ERR increment or decrement would overflow''), s)
            else answer (n + 1) (put k (show_int (n + 1)) (t + ttl) (svKeys s)) s) \<rparr>"

lemma answer_settles:
  "answer x m s = (r, s') \<Longrightarrow> settles r (\<lambda>y. y = x) (svKeys s) m (svKeys s')"
  by (auto simp: answer_def settles_def split: list.splits option.splits prod.splits)

lemma settles_mono: "settles r P a b c \<Longrightarrow> (\<And>x. P x \<Longrightarrow> Q x) \<Longrightarrow> settles r Q a b c"
  by (auto simp: settles_def split: sum.splits)

interpretation keyspace_server: redis_server keyspace_redis svKeys
  by unfold_locales
    (auto simp: keyspace_redis_def dest!: answer_settles split: option.splits intro: settles_mono)

end
