(* ===== verification/Idempotency.thy ===== *)
theory Idempotency
  imports Redis "HOL-Library.Multiset" "HOL-Library.List_Lexorder" "HOL-Library.Char_ord"
begin

text \<open>
  \<open>internal/idempotency/store.go\<close>: the records that make a retried request safe, and the
  fingerprint of a request body. Redis, the hash and the JSON codec of the standard library
  are parameters. A decoded number is of an arbitrary type, since the code never looks at it.
\<close>

section \<open>Fingerprints\<close>

datatype 'f json =
    JNull
  | JBool bool
  | JNumber 'f
  | JString string
  | JArray "'f json list"
  | JObject "(string \<times> 'f json) list"

text \<open>A decoded object is a map: an association list with distinct keys in any order.\<close>

primrec sortValue :: "'f json \<Rightarrow> 'f json" where
  "sortValue JNull = JNull"
| "sortValue (JBool b) = JBool b"
| "sortValue (JNumber f) = JNumber f"
| "sortValue (JString s) = JString s"
| "sortValue (JArray vs) = JArray (map sortValue vs)"
| "sortValue (JObject ms) = JObject (sort_key fst (map (map_prod id sortValue) ms))"

record 'f json_codec =
  jcUnmarshal :: "string \<Rightarrow> 'f json option"
  jcMarshal :: "'f json \<Rightarrow> string option"

definition canonicalize :: "'f json_codec \<Rightarrow> string \<Rightarrow> string" where
  "canonicalize jc body =
     (case jcUnmarshal jc body of
        None \<Rightarrow> body
      | Some v \<Rightarrow> (case jcMarshal jc (sortValue v) of None \<Rightarrow> body | Some out \<Rightarrow> out))"

definition Fingerprint :: "(string \<Rightarrow> string) \<Rightarrow> 'f json_codec \<Rightarrow> string \<Rightarrow> string" where
  "Fingerprint sha256 jc body = hex_encode (sha256 (canonicalize jc body))"

text \<open>Two values that differ only in the order of their members, at any depth.\<close>

inductive same_json :: "'f json \<Rightarrow> 'f json \<Rightarrow> bool" where
  same_refl: "same_json v v"
| same_array: "list_all2 same_json vs ws \<Longrightarrow> same_json (JArray vs) (JArray ws)"
| same_object: "distinct (map fst ms) \<Longrightarrow> distinct (map fst ns) \<Longrightarrow>
    rel_fun (=) (rel_option same_json) (map_of ms) (map_of ns) \<Longrightarrow> same_json (JObject ms) (JObject ns)"
monos option.rel_mono

lemma sort_members_unique:
  fixes xs ys :: "('k :: linorder \<times> 'v) list"
  assumes "distinct (map fst xs)" and "distinct (map fst ys)" and "map_of xs = map_of ys"
  shows "sort_key fst xs = sort_key fst ys"
proof (rule sort_key_inj_key_eq)
  have "set xs = set ys" using assms map_of_inject_set by blast
  then show "mset xs = mset (sort_key fst ys)"
    using assms(1,2) by (simp add: distinct_map set_eq_iff_mset_eq_distinct)
  show "inj_on fst (set xs)" using assms(1) by (simp add: distinct_map)
  show "sorted (map fst (sort_key fst ys))" by simp
qed

lemma sortValue_same: "same_json v w \<Longrightarrow> sortValue v = sortValue w"
proof (induction rule: same_json.induct)
  case (same_array vs ws)
  then show ?case by (auto simp: list_all2_conv_all_nth intro: nth_equalityI)
next
  case (same_object ms ns)
  have dist: "distinct (map fst (map (map_prod id sortValue) xs)) = distinct (map fst xs)" for xs :: "(string \<times> 'a json) list"
    by (simp add: o_def)
  have lookup: "map_of (map (map_prod id sortValue) xs) k = map_option sortValue (map_of xs k)"
    for xs :: "(string \<times> 'a json) list" and k
    by (induction xs) auto
  have "map_of (map (map_prod id sortValue) ms) = map_of (map (map_prod id sortValue) ns)"
  proof
    fix k
    have "rel_option (\<lambda>v w. same_json v w \<and> sortValue v = sortValue w) (map_of ms k) (map_of ns k)"
      using same_object(3) by (auto simp: rel_fun_def)
    then show "map_of (map (map_prod id sortValue) ms) k = map_of (map (map_prod id sortValue) ns) k"
      unfolding lookup by (auto elim: option.rel_cases)
  qed
  then have "sort_key fst (map (map_prod id sortValue) ms) = sort_key fst (map (map_prod id sortValue) ns)"
    using same_object(1,2) by (intro sort_members_unique) (simp_all only: dist)
  then show ?case by simp
qed simp

section \<open>Stored records\<close>

datatype idem_state = StateInProgress | StateCompleted

record idem_record =
  irState :: idem_state
  irFingerprint :: string
  irStatusCode :: int
  irBody :: string
  irContentType :: string
  irCreatedAt :: time

text \<open>
  A body is stored as \<open>json.RawMessage\<close>, and \<open>json.Marshal\<close> compacts it: white space
  outside of strings is dropped, and the characters \<open><\<close>, \<open>>\<close>, \<open>&\<close> and the two
  Unicode line separators are escaped.
\<close>

definition json_space :: "char \<Rightarrow> bool" where
  "json_space c \<longleftrightarrow> of_char c \<in> {9, 10, 13, 32 :: nat}"

definition quote :: char where "quote = char_of (34 :: nat)"
definition backslash :: char where "backslash = char_of (92 :: nat)"

fun strip_spaces :: "bool \<Rightarrow> string \<Rightarrow> string" where
  "strip_spaces inside [] = []"
| "strip_spaces True [c] = [c]"
| "strip_spaces True (c # d # cs) =
     (if c = backslash then c # d # strip_spaces True cs
      else c # strip_spaces (c \<noteq> quote) (d # cs))"
| "strip_spaces False (c # cs) =
     (if json_space c then strip_spaces False cs else c # strip_spaces (c = quote) cs)"

fun escape_html :: "string \<Rightarrow> string" where
  "escape_html [] = []"
| "escape_html (c # cs) =
     (if c = CHR ''<'' then backslash # ''u003c'' @ escape_html cs
      else if c = CHR ''>'' then backslash # ''u003e'' @ escape_html cs
      else if c = CHR ''&'' then backslash # ''u0026'' @ escape_html cs
      else if take 3 (c # cs) = map char_of [226, 128, 168 :: nat] then backslash # ''u2028'' @ escape_html (drop 2 cs)
      else if take 3 (c # cs) = map char_of [226, 128, 169 :: nat] then backslash # ''u2029'' @ escape_html (drop 2 cs)
      else c # escape_html cs)"

definition json_compact :: "string \<Rightarrow> string" where
  "json_compact body = escape_html (strip_spaces False body)"

text \<open>
  The codec of records: a record whose body is valid JSON (or empty) and whose other texts
  are plain is encoded, and decoded with its body compacted; a body that is not JSON makes
  the encoding fail.
\<close>

record rec_codec =
  rcMarshal :: "idem_record \<Rightarrow> string result"
  rcUnmarshal :: "string \<Rightarrow> idem_record result"
  rcValid :: "string \<Rightarrow> bool"

definition plain :: "string \<Rightarrow> bool" where
  "plain s \<longleftrightarrow> list_all (\<lambda>c. 32 \<le> (of_char c :: nat) \<and> (of_char c :: nat) < 127) s"

definition rec_codec_ok :: "rec_codec \<Rightarrow> bool" where
  "rec_codec_ok rc \<longleftrightarrow>
     (\<forall>r. plain (irFingerprint r) \<and> plain (irContentType r) \<and> (irBody r = [] \<or> rcValid rc (irBody r)) \<longrightarrow>
        (\<exists>p. rcMarshal rc r = Inr p \<and> rcUnmarshal rc p = Inr (r\<lparr> irBody := json_compact (irBody r) \<rparr>)))
     \<and> (\<forall>r. irBody r \<noteq> [] \<and> \<not> rcValid rc (irBody r) \<longrightarrow> isl (rcMarshal rc r))"

section \<open>The store\<close>

record 's idem_store =
  stRedis :: "'s redis"
  stCodec :: rec_codec
  stTTL :: duration

definition NewStore :: "'s redis \<Rightarrow> rec_codec \<Rightarrow> duration \<Rightarrow> 's idem_store" where
  "NewStore rdb rc ttl =
     \<lparr> stRedis = rdb, stCodec = rc, stTTL = (if ttl \<le> 0 then 24 * 60 * 60 * Second else ttl) \<rparr>"

definition idem_Key :: "string \<Rightarrow> string \<Rightarrow> string" where
  "idem_Key merchantID idempotencyKey = ''idem:'' @ merchantID @ '':'' @ idempotencyKey"

definition idem_Get :: "'s idem_store \<Rightarrow> time \<Rightarrow> string \<Rightarrow> 's \<Rightarrow> idem_record option result \<times> 's" where
  "idem_Get st t key s =
     (case rdGet (stRedis st) t key s of
        (Inl err, s) \<Rightarrow> (Inl (wrapf ''read idempotency key'' err), s)
      | (Inr None, s) \<Rightarrow> (Inr None, s)
      | (Inr (Some raw), s) \<Rightarrow>
          (case rcUnmarshal (stCodec st) raw of
             Inl err \<Rightarrow> (Inl (wrapf ''decode idempotency record'' err), s)
           | Inr r \<Rightarrow> (Inr (Some r), s)))"

definition claim_record :: "string \<Rightarrow> time \<Rightarrow> idem_record" where
  "claim_record fingerprint now =
     \<lparr> irState = StateInProgress, irFingerprint = fingerprint, irStatusCode = 0, irBody = [],
       irContentType = [], irCreatedAt = now \<rparr>"

text \<open>The clock and the times of the two commands of \<open>Begin\<close>, and what happens between them.\<close>

record 's begin_env =
  bnNow :: time
  bnClaim :: time
  bnGap :: "'s \<Rightarrow> 's"
  bnRead :: time

definition Begin ::
  "'s idem_store \<Rightarrow> 's begin_env \<Rightarrow> string \<Rightarrow> string \<Rightarrow> 's \<Rightarrow> idem_record option result \<times> 's" where
  "Begin st e key fingerprint s =
     (case rcMarshal (stCodec st) (claim_record fingerprint (bnNow e)) of
        Inl err \<Rightarrow> (Inl (wrapf ''marshal idempotency claim'' err), s)
      | Inr payload \<Rightarrow>
          (case rdSetNX (stRedis st) (bnClaim e) key payload (stTTL st) s of
             (Inl err, s) \<Rightarrow> (Inl (wrapf ''claim idempotency key'' err), s)
           | (Inr True, s) \<Rightarrow> (Inr None, s)
           | (Inr False, s) \<Rightarrow>
               (case idem_Get st (bnRead e) key (bnGap e s) of
                  (Inl err, s) \<Rightarrow> (Inl err, s)
                | (Inr None, s) \<Rightarrow> (Inl (Sentinel ErrInFlight), s)
                | (Inr (Some existing), s) \<Rightarrow>
                    if irFingerprint existing \<noteq> fingerprint then (Inl (Sentinel ErrKeyReuse), s)
                    else if irState existing = StateInProgress then (Inl (Sentinel ErrInFlight), s)
                    else (Inr (Some existing), s))))"

definition completed_record :: "string \<Rightarrow> int \<Rightarrow> string \<Rightarrow> string \<Rightarrow> time \<Rightarrow> idem_record" where
  "completed_record fingerprint statusCode contentType body now =
     \<lparr> irState = StateCompleted, irFingerprint = fingerprint, irStatusCode = statusCode, irBody = body,
       irContentType = contentType, irCreatedAt = now \<rparr>"

definition Complete ::
  "'s idem_store \<Rightarrow> time \<Rightarrow> time \<Rightarrow> string \<Rightarrow> string \<Rightarrow> int \<Rightarrow> string \<Rightarrow> string \<Rightarrow> 's \<Rightarrow> unit result \<times> 's" where
  "Complete st now t key fingerprint statusCode contentType body s =
     (case rcMarshal (stCodec st) (completed_record fingerprint statusCode contentType body now) of
        Inl err \<Rightarrow> (Inl (wrapf ''marshal idempotency record'' err), s)
      | Inr payload \<Rightarrow>
          (case rdSet (stRedis st) t key payload (stTTL st) s of
             (Inl err, s) \<Rightarrow> (Inl (wrapf ''store idempotency record'' err), s)
           | (Inr _, s) \<Rightarrow> (Inr (), s)))"

definition Release :: "'s idem_store \<Rightarrow> time \<Rightarrow> string \<Rightarrow> 's \<Rightarrow> unit result \<times> 's" where
  "Release st t key s =
     (case rdDel (stRedis st) t key s of
        (Inl err, s) \<Rightarrow> (Inl (wrapf ''release idempotency key'' err), s)
      | (Inr _, s) \<Rightarrow> (Inr (), s))"

section \<open>Keys of different merchants do not collide\<close>

lemma idem_Key_inj:
  assumes "CHR '':'' \<notin> set m" and "CHR '':'' \<notin> set m'"
  shows "idem_Key m k = idem_Key m' k' \<longleftrightarrow> m = m' \<and> k = k'"
  using separated [OF assms] by (simp add: idem_Key_def)

text \<open>
  C38. The fingerprint sees the value, not its spelling. Two bodies that decode to the same
  JSON value up to the order of the members of its objects, at any depth, have the same
  fingerprint, so a retry that a client or proxy has re-serialised is recognised.
\<close>

theorem fingerprint_ignores_order:
  assumes "jcUnmarshal jc body = Some v" and "jcUnmarshal jc body' = Some v'" and "same_json v v'"
    and "jcMarshal jc (sortValue v) \<noteq> None"
  shows "Fingerprint sha256 jc body = Fingerprint sha256 jc body'"
  using assms sortValue_same [OF assms(3)] by (auto simp: Fingerprint_def canonicalize_def)

definition demo_json :: "nat json_codec" where
  "demo_json = \<lparr> jcUnmarshal = (\<lambda>s. if s = ''ab'' then Some (JObject [(''a'', JNumber 1), (''b'', JArray [JNull])])
       else if s = ''ba'' then Some (JObject [(''b'', JArray [JNull]), (''a'', JNumber 1)]) else None),
     jcMarshal = (\<lambda>v. case v of JObject ms \<Rightarrow> Some (concat (map fst ms)) | _ \<Rightarrow> None) \<rparr>"

theorem fingerprint_ignores_order_witness:
  "Fingerprint id demo_json ''ab'' = Fingerprint id demo_json ''ba''"
proof -
  have "same_json (JObject [(''a'', JNumber 1), (''b'', JArray [JNull])])
      (JObject [(''b'', JArray [JNull]), (''a'', JNumber (1 :: nat))])"
    by (rule same_object) (auto simp: rel_fun_def intro: same_refl)
  then show ?thesis
    by (intro fingerprint_ignores_order) (auto simp: demo_json_def)
qed

end
