(* ===== verification/Ratelimit.thy ===== *)
theory Ratelimit
  imports Redis
begin

text \<open>
  \<open>internal/ratelimit/limiter.go\<close>: a fixed-window counter per subject, kept in Redis.
\<close>

record limit_result =
  lrAllowed :: bool
  lrLimit :: int
  lrRemaining :: int
  lrRetryAfter :: duration

record 's limiter =
  lmRedis :: "'s redis"
  lmLimit :: int
  lmWindow :: duration

definition NewLimiter :: "'s redis \<Rightarrow> int \<Rightarrow> duration \<Rightarrow> 's limiter" where
  "NewLimiter rdb limit window =
     \<lparr> lmRedis = rdb, lmLimit = (if limit < 1 then 1 else limit),
       lmWindow = (if window \<le> 0 then 60 * Second else window) \<rparr>"

text \<open>The clock at the call and after it, and the server's clock at the command.\<close>

record allow_env =
  alNow :: time
  alServer :: time
  alUntil :: time

definition bucket_of :: "'s limiter \<Rightarrow> time \<Rightarrow> int" where
  "bucket_of l now = wrap64 now sdiv lmWindow l"

definition bucket_key :: "string \<Rightarrow> int \<Rightarrow> string" where
  "bucket_key subject bucket = ''rl:'' @ subject @ '':'' @ show_int bucket"

definition Limiter_Allow ::
  "'s limiter \<Rightarrow> allow_env \<Rightarrow> string \<Rightarrow> 's \<Rightarrow> limit_result result \<times> 's" where
  "Limiter_Allow l e subject s =
     (let bucket = bucket_of l (alNow e); key = bucket_key subject bucket
      in case rdIncrExpire (lmRedis l) (alServer e) key (lmWindow l) s of
           (Inl err, s) \<Rightarrow> (Inl (wrapf ''rate limit check'' err), s)
         | (Inr count, s) \<Rightarrow>
             (let remaining = wrap64 (lmLimit l - count);
                  remaining = (if remaining < 0 then 0 else remaining);
                  windowEnd = wrap64 ((bucket + 1) * lmWindow l)
              in (Inr \<lparr> lrAllowed = (count \<le> lmLimit l), lrLimit = lmLimit l,
                         lrRemaining = remaining, lrRetryAfter = time_Sub windowEnd (alUntil e) \<rparr>, s)))"

text \<open>Calls of one subject one after the other; what others do between them comes first.\<close>

fun allow_all ::
  "'s limiter \<Rightarrow> string \<Rightarrow> (('s \<Rightarrow> 's) \<times> allow_env) list \<Rightarrow> 's \<Rightarrow> limit_result result list \<times> 's" where
  "allow_all l subject [] s = ([], s)"
| "allow_all l subject ((gap, e) # calls) s =
     (case Limiter_Allow l e subject (gap s) of
        (r, s) \<Rightarrow> (case allow_all l subject calls s of (rs, s) \<Rightarrow> (r # rs, s)))"

definition admitted :: "limit_result result \<Rightarrow> bool" where
  "admitted r = (case r of Inl _ \<Rightarrow> False | Inr x \<Rightarrow> lrAllowed x)"

text \<open>
  The calls of one window: all in the same bucket, the server's clock not going backwards and
  staying within one window, and the work between the calls leaving the counter alone.
\<close>

definition one_window ::
  "('s \<Rightarrow> keyspace) \<Rightarrow> 's limiter \<Rightarrow> string \<Rightarrow> int \<Rightarrow> (('s \<Rightarrow> 's) \<times> allow_env) list \<Rightarrow> bool" where
  "one_window view l subject b calls \<longleftrightarrow>
     (\<forall>(gap, e) \<in> set calls. bucket_of l (alNow e) = b \<and>
        (\<forall>s. view (gap s) (bucket_key subject b) = view s (bucket_key subject b)))
     \<and> sorted_wrt (\<lambda>e e'. alServer e \<le> alServer e' \<and> alServer e' < alServer e + lmWindow l) (map snd calls)"

section \<open>Counting within a window\<close>

text \<open>The counter stands at \<open>n\<close> now and until the last of the calls to come.\<close>

definition stands :: "keyspace \<Rightarrow> string \<Rightarrow> int \<Rightarrow> (('s \<Rightarrow> 's) \<times> allow_env) list \<Rightarrow> bool" where
  "stands m k n calls \<longleftrightarrow> (\<forall>(_, e) \<in> set calls. counter m (alServer e) k = Some n)"

context redis_server
begin

lemma Allow_counts:
  assumes "lmRedis l = c" and "counter (view s) (alServer e) (bucket_key subject (bucket_of l (alNow e))) = Some n"
    and "in64 (n + 1)" and "Limiter_Allow l e subject s = (r, s')"
  shows "(admitted r \<longrightarrow> n + 1 \<le> lmLimit l) \<and>
    (view s' = put (bucket_key subject (bucket_of l (alNow e))) (show_int (n + 1)) (alServer e + lmWindow l) (view s)
     \<or> (\<not> admitted r \<and> view s' = view s))"
proof -
  obtain ri s1 where ri: "rdIncrExpire c (alServer e) (bucket_key subject (bucket_of l (alNow e))) (lmWindow l) s = (ri, s1)"
    by fastforce
  from Incr [OF assms(2,3) this] assms(1,4) ri show ?thesis
    by (auto simp: Limiter_Allow_def Let_def settles_def admitted_def split: sum.splits)
qed

lemma admitted_bound:
  assumes "lmRedis l = c" and "one_window view l subject b calls"
    and "stands (view s) (bucket_key subject b) n calls" and "0 \<le> n" and "n + int (length calls) < 2 ^ 62"
    and "allow_all l subject calls s = (rs, s')"
  shows "int (length (filter admitted rs)) \<le> max 0 (lmLimit l - n)"
  using assms
proof (induction l subject calls s arbitrary: n rs s' rule: allow_all.induct)
  case (2 l subject gap e calls s)
  obtain r s1 where r: "Limiter_Allow l e subject (gap s) = (r, s1)" by fastforce
  obtain rs1 s2 where rs: "allow_all l subject calls s1 = (rs1, s2)" by fastforce
  let ?k = "bucket_key subject b"
  have b: "bucket_of l (alNow e) = b" and gap: "view (gap s) ?k = view s ?k"
    and win: "one_window view l subject b calls"
    and times: "\<forall>(_, e') \<in> set calls. alServer e \<le> alServer e' \<and> alServer e' < alServer e + lmWindow l"
    using "2.prems"(2) by (auto simp: one_window_def)
  have same: "counter m t ?k = counter m' t ?k" if "m ?k = m' ?k" for m m' t
    using that by (simp add: counter_def live_def)
  have "counter (view (gap s)) (alServer e) ?k = Some n"
    using same [of "view (gap s)" "view s"] gap "2.prems"(3) by (simp add: stands_def)
  moreover have "in64 (n + 1)" using "2.prems"(4,5) by (simp add: in64_def)
  ultimately have step: "(admitted r \<longrightarrow> n + 1 \<le> lmLimit l) \<and>
      (view s1 = put ?k (show_int (n + 1)) (alServer e + lmWindow l) (view (gap s))
       \<or> (\<not> admitted r \<and> view s1 = view (gap s)))"
    using Allow_counts [OF "2.prems"(1) _ _ r] b by simp
  have rs': "rs = r # rs1" using "2.prems"(6) r rs by simp
  from step show ?case
  proof (elim conjE disjE)
    assume adm: "admitted r \<longrightarrow> n + 1 \<le> lmLimit l"
      and put: "view s1 = put ?k (show_int (n + 1)) (alServer e + lmWindow l) (view (gap s))"
    have "stands (view s1) ?k (n + 1) calls"
      using times \<open>in64 (n + 1)\<close>
      by (auto simp: stands_def put put_def counter_def live_def ParseInt_show_int)
    from "2.IH" [OF r [symmetric] "2.prems"(1) win this _ _ rs] "2.prems"(4,5) adm show ?thesis
      by (cases "admitted r") (auto simp: rs')
  next
    assume not: "\<not> admitted r" "view s1 = view (gap s)"
    have "stands (view s1) ?k n calls"
      using "2.prems"(3) same [of "view s1" "view s"] not(2) gap by (auto simp: stands_def)
    from "2.IH" [OF r [symmetric] "2.prems"(1) win this _ _ rs] "2.prems"(4,5) not show ?thesis
      by (simp add: rs')
  qed
qed simp

end

text \<open>
  C37. The limit holds within a window. Whatever errors Redis answers with and whatever other
  subjects do in between, of the calls one subject makes in one window, starting from a fresh
  counter, at most \<open>limit\<close> are admitted by the limiter.
\<close>

theorem at_most_limit:
  assumes "redis_server c view" and "one_window view (NewLimiter c limit window) subject b calls"
    and "\<forall>(_, e) \<in> set calls. live (view s) (alServer e) (bucket_key subject b) = None"
    and "length calls < 2 ^ 60"
  shows "int (length (filter admitted (fst (allow_all (NewLimiter c limit window) subject calls s)))) \<le> max 1 limit"
proof -
  obtain rs s' where rs: "allow_all (NewLimiter c limit window) subject calls s = (rs, s')" by fastforce
  have "stands (view s) (bucket_key subject b) 0 calls"
    using assms(3) by (auto simp: stands_def counter_def)
  moreover have "(0 :: int) + int (length calls) < 2 ^ 62" using assms(4) by simp
  moreover have "lmRedis (NewLimiter c limit window) = c" by (simp add: NewLimiter_def)
  ultimately have "int (length (filter admitted rs)) \<le> max 0 (lmLimit (NewLimiter c limit window) - 0)"
    using redis_server.admitted_bound [OF assms(1) _ assms(2) _ _ _ rs, of 0] by blast
  moreover have "lmLimit (NewLimiter c limit window) = max 1 limit" by (simp add: NewLimiter_def)
  ultimately show ?thesis by (simp add: rs)
qed

definition demo_call :: "time \<Rightarrow> (server \<Rightarrow> server) \<times> allow_env" where
  "demo_call t = (id, \<lparr> alNow = t, alServer = t, alUntil = t \<rparr>)"

theorem at_most_limit_witness:
  "int (length (filter admitted (fst (allow_all (NewLimiter keyspace_redis 1 60) ''m1''
     [demo_call 61, demo_call 62, demo_call 65] \<lparr> svKeys = Map.empty, svFaults = [] \<rparr>)))) \<le> 1"
proof -
  have "one_window svKeys (NewLimiter keyspace_redis 1 60) ''m1'' 1 [demo_call 61, demo_call 62, demo_call 65]"
    by (simp add: one_window_def demo_call_def bucket_of_def NewLimiter_def wrap64_def sdiv_pos)
  from at_most_limit [OF keyspace_server.redis_server_axioms this, of "\<lparr> svKeys = Map.empty, svFaults = [] \<rparr>"]
  show ?thesis by (simp add: live_def)
qed

end
