(* ===== verification/Secrets.thy ===== *)
theory Secrets
  imports Base64
begin

text \<open>
  \<open>internal/secrets\<close>: the encryption of merchant secrets at rest and the generation of
  credentials. The block cipher, its authenticated mode and the random source are
  parameters; what the code relies on is \<open>aead_correct\<close>, the documented contract of
  \<open>cipher.AEAD\<close>: \<open>Open\<close> undoes \<open>Seal\<close> under the same nonce.
\<close>

section \<open>Encryption at rest\<close>

record aead =
  aeNonceSize :: nat
  aeSeal :: "string \<Rightarrow> string \<Rightarrow> string"
  aeOpen :: "string \<Rightarrow> string \<Rightarrow> string result"

definition aead_correct :: "aead \<Rightarrow> bool" where
  "aead_correct A \<longleftrightarrow> (\<forall>nonce plaintext. length nonce = aeNonceSize A \<longrightarrow>
     aeOpen A nonce (aeSeal A nonce plaintext) = Inr plaintext)"

text \<open>A source of random bytes: \<open>read n\<close> fills a buffer of \<open>n\<close> bytes or fails.\<close>

type_synonym random_source = "nat \<Rightarrow> string result"

definition fills :: "random_source \<Rightarrow> bool" where
  "fills rd \<longleftrightarrow> (\<forall>n buf. rd n = Inr buf \<longrightarrow> length buf = n)"

definition NewCipher :: "(string \<Rightarrow> 'block result) \<Rightarrow> ('block \<Rightarrow> aead result) \<Rightarrow> string \<Rightarrow> aead result" where
  "NewCipher newAES newGCM key =
     (if length key \<noteq> 32 then Inl (Opaque ''secrets: key must be 32 bytes'')
      else case newAES key of
             Inl err \<Rightarrow> Inl (wrapf ''secrets: new cipher'' err)
           | Inr block \<Rightarrow>
               (case newGCM block of
                  Inl err \<Rightarrow> Inl (wrapf ''secrets: new gcm'' err)
                | Inr A \<Rightarrow> Inr A))"

definition Encrypt :: "aead \<Rightarrow> random_source \<Rightarrow> string \<Rightarrow> string result" where
  "Encrypt A rd plaintext =
     (case rd (aeNonceSize A) of
        Inl err \<Rightarrow> Inl (wrapf ''secrets: read nonce'' err)
      | Inr nonce \<Rightarrow> Inr (b64_encode b64_std True (nonce @ aeSeal A nonce plaintext)))"

definition Decrypt :: "aead \<Rightarrow> string \<Rightarrow> string result" where
  "Decrypt A encoded =
     (case b64_decode b64_std True encoded of
        None \<Rightarrow> Inl (errorf ErrDecrypt ''illegal base64 data'')
      | Some raw \<Rightarrow>
          (let n = aeNonceSize A
           in if length raw < n then Inl (Sentinel ErrDecrypt)
              else case aeOpen A (take n raw) (drop n raw) of
                     Inl err \<Rightarrow> Inl (errorf ErrDecrypt (error_text err))
                   | Inr plaintext \<Rightarrow> Inr plaintext))"

lemma Decrypt_Encrypt:
  assumes "aead_correct A" and "fills rd" and "Encrypt A rd plaintext = Inr encoded"
  shows "Decrypt A encoded = Inr plaintext"
proof -
  from assms(3) obtain nonce where nonce: "rd (aeNonceSize A) = Inr nonce"
    and enc: "encoded = b64_encode b64_std True (nonce @ aeSeal A nonce plaintext)"
    by (auto simp: Encrypt_def split: sum.splits)
  have "length nonce = aeNonceSize A" using nonce assms(2) by (simp add: fills_def)
  with assms(1) show ?thesis
    by (simp add: Decrypt_def enc std.decode_encode aead_correct_def Let_def)
qed

text \<open>Whatever goes wrong, the error is the one sentinel.\<close>

lemma Decrypt_error: "Decrypt A encoded = Inl err \<Longrightarrow> errors_Is err ErrDecrypt"
  by (auto simp: Decrypt_def Let_def split: option.splits sum.splits if_splits)

section \<open>Credentials\<close>

definition APIKeyPrefix :: string where "APIKeyPrefix = ''pk_test_''"
definition APISecretPrefix :: string where "APISecretPrefix = ''sk_test_''"
definition WebhookPrefix :: string where "WebhookPrefix = ''whsec_''"

definition randomString :: "random_source \<Rightarrow> string \<Rightarrow> nat \<Rightarrow> string result" where
  "randomString rd pre nbytes =
     (case rd nbytes of
        Inl err \<Rightarrow> Inl (wrapf ''secrets: generate'' err)
      | Inr buf \<Rightarrow> Inr (pre @ hex_encode buf))"

definition NewAPIKey :: "random_source \<Rightarrow> string result" where
  "NewAPIKey rd = randomString rd APIKeyPrefix 16"

definition NewAPISecret :: "random_source \<Rightarrow> string result" where
  "NewAPISecret rd = randomString rd APISecretPrefix 32"

definition NewWebhookSecret :: "random_source \<Rightarrow> string result" where
  "NewWebhookSecret rd = randomString rd WebhookPrefix 32"

text \<open>A credential keeps all of its random bytes: equal credentials come from equal bytes.\<close>

lemma randomString_inj:
  "randomString rd pre n = Inr s \<Longrightarrow> randomString rd' pre n = Inr s \<Longrightarrow> rd n = rd' n"
  by (auto simp: randomString_def dest: hex_encode_inj split: sum.splits)

lemma APIKey_nonempty: "NewAPIKey rd = Inr k \<Longrightarrow> k \<noteq> []"
  by (auto simp: NewAPIKey_def randomString_def APIKeyPrefix_def split: sum.splits)

end
