(* ===== verification/Merchant_Service.thy ===== *)
theory Merchant_Service
  imports Secrets Database
begin

text \<open>
  \<open>internal/service/merchant_service.go\<close>: the registration of merchants and the
  authentication of their signed requests. The keyed hash is a parameter; nothing is assumed
  of it except, where a property says so, that it has no collision on the strings at hand.
\<close>

section \<open>Registration\<close>

record CreateMerchantInput =
  ciName :: string
  ciEmail :: string
  ciWebhookURL :: string

record CreatedMerchant =
  cmMerchant :: merchant
  cmAPISecret :: string
  cmWebhookSecret :: string

text \<open>The random reads, in the order they happen, the clock, the new identifier and the insert.\<close>

record create_env =
  ceKey :: random_source
  ceSecret :: random_source
  ceWebhook :: random_source
  ceNonce1 :: random_source
  ceNonce2 :: random_source
  ceNow :: time
  ceID :: uuid
  ceInsert :: fault

definition wrap_err :: "string \<Rightarrow> 'a result \<Rightarrow> 'a result" where
  "wrap_err msg r = (case r of Inl err \<Rightarrow> Inl (wrapf msg err) | Inr x \<Rightarrow> Inr x)"

definition MerchantService_Create ::
  "aead \<Rightarrow> create_env \<Rightarrow> CreateMerchantInput \<Rightarrow> db \<Rightarrow> (CreatedMerchant \<times> db) result" where
  "MerchantService_Create A e inp d =
     andThen (ValidateMerchantInput (ciName inp) (ciEmail inp) (ciWebhookURL inp)) (\<lambda>_.
     andThen (NewAPIKey (ceKey e)) (\<lambda>apiKey.
     andThen (NewAPISecret (ceSecret e)) (\<lambda>apiSecret.
     andThen (NewWebhookSecret (ceWebhook e)) (\<lambda>webhookSecret.
     andThen (wrap_err ''encrypt api secret'' (Encrypt A (ceNonce1 e) apiSecret)) (\<lambda>apiSecretEnc.
     andThen (wrap_err ''encrypt webhook secret'' (Encrypt A (ceNonce2 e) webhookSecret)) (\<lambda>webhookSecretEnc.
     let merchant = \<lparr> mID = ceID e, mName = ciName inp, mEmail = ciEmail inp, mAPIKey = apiKey,
           mAPISecretEnc = apiSecretEnc, mWebhookURL = ciWebhookURL inp,
           mWebhookSecretEnc = webhookSecretEnc, mStatus = MerchantActive,
           mCreatedAt = ceNow e, mUpdatedAt = ceNow e \<rparr>
     in andThen (MerchantRepo_Create (ceInsert e) merchant d) (\<lambda>d.
        Inr (\<lparr> cmMerchant = merchant, cmAPISecret = apiSecret,
               cmWebhookSecret = webhookSecret \<rparr>, d))))))))"

definition MerchantService_GetByID :: "fault \<Rightarrow> uuid \<Rightarrow> db \<Rightarrow> merchant result" where
  "MerchantService_GetByID f i d = MerchantRepo_GetByID f i d"

definition WebhookSecret :: "aead \<Rightarrow> fault \<Rightarrow> uuid \<Rightarrow> db \<Rightarrow> string result" where
  "WebhookSecret A f i d =
     andThen (MerchantRepo_GetByID f i d) (\<lambda>merchant.
     wrap_err ''decrypt webhook secret'' (Decrypt A (mWebhookSecretEnc merchant)))"

section \<open>Signed requests\<close>

record SignedRequest =
  rqAPIKey :: string
  rqTimestamp :: string
  rqSignature :: string
  rqMethod :: string
  rqPath :: string
  rqBody :: string

definition signatureSeparator :: string where
  "signatureSeparator = [char_of (10 :: nat)]"

type_synonym keyed_hash = "string \<Rightarrow> string \<Rightarrow> string"

definition signed_string :: "string \<Rightarrow> string \<Rightarrow> string \<Rightarrow> string \<Rightarrow> string" where
  "signed_string timestamp method path body =
     timestamp @ signatureSeparator @ method @ signatureSeparator @ path @ signatureSeparator @ body"

definition ComputeRequestSignature ::
  "keyed_hash \<Rightarrow> string \<Rightarrow> string \<Rightarrow> string \<Rightarrow> string \<Rightarrow> string \<Rightarrow> string" where
  "ComputeRequestSignature hmac secret timestamp method path body =
     hex_encode (hmac secret (signed_string timestamp method path body))"

definition parseUnixSeconds :: "string \<Rightarrow> time option" where
  "parseUnixSeconds raw = map_option time_Unix (ParseInt raw)"

definition Authenticate ::
  "keyed_hash \<Rightarrow> aead \<Rightarrow> duration \<Rightarrow> fault \<Rightarrow> time \<Rightarrow> SignedRequest \<Rightarrow> db \<Rightarrow> merchant result" where
  "Authenticate hmac A clockSkew f now req d =
     (if rqAPIKey req = [] \<or> rqTimestamp req = [] \<or> rqSignature req = [] then
        Inl (errorf ErrUnauthenticated ''missing X-Api-Key, X-Timestamp or X-Signature'')
      else case parseUnixSeconds (rqTimestamp req) of
        None \<Rightarrow> Inl (errorf ErrUnauthenticated ''X-Timestamp is not a unix timestamp'')
      | Some ts \<Rightarrow>
          if abs_drift now ts > clockSkew then
            Inl (errorf ErrUnauthenticated ''X-Timestamp drifted from server time'')
          else case GetByAPIKey f (rqAPIKey req) d of
            Inl err \<Rightarrow> if errors_Is err ErrNotFound then Inl (errorf ErrUnauthenticated ''unknown api key'')
                       else Inl err
          | Inr merchant \<Rightarrow>
              andThen (wrap_err ''decrypt api secret'' (Decrypt A (mAPISecretEnc merchant))) (\<lambda>secret.
              let expected = ComputeRequestSignature hmac secret (rqTimestamp req) (rqMethod req)
                               (rqPath req) (rqBody req)
              in if expected \<noteq> rqSignature req then
                   Inl (errorf ErrUnauthenticated ''signature mismatch'')
                 else if \<not> IsActive merchant then Inl (Sentinel ErrMerchantSuspended)
                 else Inr merchant))"

lemma wrap_err_simps [simp]:
  "wrap_err msg (Inr x) = Inr x" "wrap_err msg r = Inr x \<longleftrightarrow> r = Inr x"
  by (auto simp: wrap_err_def split: sum.splits)

text \<open>Exactly when a request is accepted.\<close>

lemma Authenticate_Inr:
  "Authenticate hmac A skew f now req d = Inr m \<longleftrightarrow>
     rqAPIKey req \<noteq> [] \<and> rqTimestamp req \<noteq> [] \<and> rqSignature req \<noteq> []
     \<and> (\<exists>ts. parseUnixSeconds (rqTimestamp req) = Some ts \<and> abs_drift now ts \<le> skew)
     \<and> GetByAPIKey f (rqAPIKey req) d = Inr m \<and> IsActive m
     \<and> (\<exists>secret. Decrypt A (mAPISecretEnc m) = Inr secret
          \<and> rqSignature req = ComputeRequestSignature hmac secret (rqTimestamp req) (rqMethod req)
              (rqPath req) (rqBody req))"
  by (auto simp: Authenticate_def andThen_Inr Let_def not_less
      split: if_splits option.splits sum.splits)

lemma Create_Inr:
  assumes "MerchantService_Create A e inp d = Inr (c, d')"
  shows "NewAPIKey (ceKey e) = Inr (mAPIKey (cmMerchant c))"
    and "Encrypt A (ceNonce1 e) (cmAPISecret c) = Inr (mAPISecretEnc (cmMerchant c))"
    and "Encrypt A (ceNonce2 e) (cmWebhookSecret c) = Inr (mWebhookSecretEnc (cmMerchant c))"
    and "IsActive (cmMerchant c)" and "MerchantRepo_Create (ceInsert e) (cmMerchant c) d = Inr d'"
    and "NewWebhookSecret (ceWebhook e) = Inr (cmWebhookSecret c)"
  using assms by (auto simp: MerchantService_Create_def andThen_Inr Let_def IsActive_def)

lemma MerchantRepo_Create_Inr:
  "MerchantRepo_Create f m d = Inr d' \<longleftrightarrow>
     f = None \<and> d' = d\<lparr> dbMerchants := dbMerchants d @ [m] \<rparr>
     \<and> (\<forall>r \<in> set (dbMerchants d). mID r \<noteq> mID m \<and> mEmail r \<noteq> mEmail m \<and> mAPIKey r \<noteq> mAPIKey m)"
  by (auto simp: MerchantRepo_Create_def list_ex_iff split: option.splits if_splits)

lemma find_appended: "\<forall>x \<in> set xs. \<not> P x \<Longrightarrow> P y \<Longrightarrow> find P (xs @ [y]) = Some y"
  by (induction xs) auto

lemma found_after_create:
  assumes "MerchantRepo_Create f m d = Inr d'"
  shows "GetByAPIKey None (mAPIKey m) d' = Inr m" and "MerchantRepo_GetByID None (mID m) d' = Inr m"
  using assms by (auto simp: MerchantRepo_Create_Inr GetByAPIKey_def MerchantRepo_GetByID_def
      scanMerchant_def find_appended)

section \<open>What the signature binds\<close>

abbreviation (input) newline :: char where "newline \<equiv> char_of (10 :: nat)"

lemma signed_string_inj:
  assumes "newline \<notin> set t" "newline \<notin> set m" "newline \<notin> set p"
    and "newline \<notin> set t'" "newline \<notin> set m'" "newline \<notin> set p'"
  shows "signed_string t m p b = signed_string t' m' p' b' \<longleftrightarrow> t = t' \<and> m = m' \<and> p = p' \<and> b = b'"
  using assms by (simp add: signed_string_def signatureSeparator_def separated)

text \<open>A timestamp that parses is a sign and digits, so it holds no separator.\<close>

lemma ParseInt_chars:
  "ParseInt s = Some n \<Longrightarrow> c \<in> set s \<Longrightarrow> is_digit c \<or> c = CHR ''-'' \<or> c = CHR ''+''"
  by (auto simp: ParseInt_def parse_nat_def Let_def list_all_iff
      split: list.splits if_splits option.splits prod.splits)

lemma newline_not_sign: "newline \<noteq> CHR ''-''" "newline \<noteq> CHR ''+''"
  by (simp_all add: char_of_def)

lemma timestamp_no_newline: "parseUnixSeconds s = Some ts \<Longrightarrow> newline \<notin> set s"
  using ParseInt_chars [of s _ newline]
  by (auto simp: parseUnixSeconds_def is_digit_def of_char_of newline_not_sign)

definition no_collision :: "keyed_hash \<Rightarrow> string \<Rightarrow> string \<Rightarrow> string \<Rightarrow> bool" where
  "no_collision hmac secret x y \<longleftrightarrow> (hmac secret x = hmac secret y \<longrightarrow> x = y)"

definition request_string :: "SignedRequest \<Rightarrow> string" where
  "request_string req = signed_string (rqTimestamp req) (rqMethod req) (rqPath req) (rqBody req)"

lemma ComputeRequestSignature_request:
  "ComputeRequestSignature hmac secret (rqTimestamp req) (rqMethod req) (rqPath req) (rqBody req)
    = hex_encode (hmac secret (request_string req))"
  by (simp add: ComputeRequestSignature_def request_string_def)


section \<open>Registering and authenticating\<close>

definition hash_size :: "keyed_hash \<Rightarrow> bool" where
  "hash_size hmac \<longleftrightarrow> (\<forall>secret msg. length (hmac secret msg) = 32)"

text \<open>The request a merchant sends with a secret it holds.\<close>

definition sign_request ::
  "keyed_hash \<Rightarrow> string \<Rightarrow> string \<Rightarrow> string \<Rightarrow> string \<Rightarrow> string \<Rightarrow> string \<Rightarrow> SignedRequest" where
  "sign_request hmac apiKey secret timestamp method path body =
     \<lparr> rqAPIKey = apiKey, rqTimestamp = timestamp,
       rqSignature = ComputeRequestSignature hmac secret timestamp method path body,
       rqMethod = method, rqPath = path, rqBody = body \<rparr>"

lemma sign_request_simps [simp]:
  "rqAPIKey (sign_request hmac k s t me p b) = k" "rqTimestamp (sign_request hmac k s t me p b) = t"
  "rqMethod (sign_request hmac k s t me p b) = me" "rqPath (sign_request hmac k s t me p b) = p"
  "rqBody (sign_request hmac k s t me p b) = b"
  "rqSignature (sign_request hmac k s t me p b) = ComputeRequestSignature hmac s t me p b"
  by (simp_all add: sign_request_def)

lemma signature_nonempty: "hash_size hmac \<Longrightarrow> ComputeRequestSignature hmac s t me p b \<noteq> []"
  by (metis ComputeRequestSignature_def hash_size_def length_hex_encode list.size(3) mult_eq_0_iff
      zero_neq_numeral)

text \<open>The clock comparison of the code, in full.\<close>

lemma abs_drift_le_iff:
  assumes "0 \<le> skew" and "skew < maxDuration"
  shows "abs_drift now ts \<le> skew \<longleftrightarrow> \<bar>now - ts\<bar> \<le> skew \<or> 2 ^ 63 \<le> ts - now"
proof -
  consider "\<bar>now - ts\<bar> < 2 ^ 63" | "2 ^ 63 \<le> now - ts" | "2 ^ 63 \<le> ts - now" by linarith
  then show ?thesis
  proof cases
    case 1
    then show ?thesis using abs_drift_near by auto
  next
    case 2
    then show ?thesis using abs_drift_past [of ts now] assms by (auto simp: maxDuration_def)
  next
    case 3
    then have "abs_drift now ts = minDuration"
      using abs_drift_far_future by blast
    then show ?thesis using 3 assms by (simp add: minDuration_def)
  qed
qed

lemma registered_accepted_iff:
  assumes "aead_correct A" and "fills (ceNonce1 e)" and "hash_size hmac"
    and "MerchantService_Create A e inp d = Inr (c, d')"
    and "parseUnixSeconds timestamp = Some ts" and "0 \<le> skew" and "skew < maxDuration"
  shows "Authenticate hmac A skew None now
       (sign_request hmac (mAPIKey (cmMerchant c)) (cmAPISecret c) timestamp method path body) d'
         = Inr (cmMerchant c) \<longleftrightarrow> \<bar>now - ts\<bar> \<le> skew \<or> 2 ^ 63 \<le> ts - now"
proof -
  note c = Create_Inr [OF assms(4)]
  have dec: "Decrypt A (mAPISecretEnc (cmMerchant c)) = Inr (cmAPISecret c)"
    using Decrypt_Encrypt assms(1,2) c(2) by blast
  have ts: "timestamp \<noteq> []" using assms(5) by (auto simp: parseUnixSeconds_def ParseInt_def parse_nat_def)
  show ?thesis
    using APIKey_nonempty [OF c(1)] found_after_create(1) [OF c(5)] c(4) dec assms(5) ts
      signature_nonempty [OF assms(3)] abs_drift_le_iff [OF assms(6,7)]
    by (simp add: Authenticate_Inr)
qed

text \<open>
  C24. The credentials returned at registration authenticate. With the secret returned by a
  successful \<open>Create\<close>, a request whose timestamp is a number of Unix seconds is accepted,
  and answered with exactly the new merchant, if and only if the timestamp is within the
  clock skew of the server's time or at least \<open>2^63\<close> nanoseconds (292 years) ahead of it:
  there the saturated difference stays negative after its negation and the skew check
  passes. The webhook secret read back is the one that was returned.
\<close>

theorem registration_authenticates:
  assumes "aead_correct A" and "fills (ceNonce1 e)" and "fills (ceNonce2 e)" and "hash_size hmac"
    and "MerchantService_Create A e inp d = Inr (c, d')"
    and "parseUnixSeconds timestamp = Some ts" and "0 \<le> skew" and "skew < maxDuration"
  shows "(Authenticate hmac A skew None now
       (sign_request hmac (mAPIKey (cmMerchant c)) (cmAPISecret c) timestamp method path body) d'
         = Inr (cmMerchant c) \<longleftrightarrow> \<bar>now - ts\<bar> \<le> skew \<or> 2 ^ 63 \<le> ts - now)
     \<and> WebhookSecret A None (mID (cmMerchant c)) d' = Inr (cmWebhookSecret c)"
proof -
  note c = Create_Inr [OF assms(5)]
  have "Decrypt A (mWebhookSecretEnc (cmMerchant c)) = Inr (cmWebhookSecret c)"
    using Decrypt_Encrypt assms(1,3) c(3) by blast
  with found_after_create(2) [OF c(5)]
  have "WebhookSecret A None (mID (cmMerchant c)) d' = Inr (cmWebhookSecret c)"
    by (simp add: WebhookSecret_def)
  with registered_accepted_iff [OF assms(1,2,4-8)] show ?thesis by blast
qed

text \<open>A concrete cipher, hash and random source on which both properties are applied.\<close>

definition demo_aead :: aead where
  "demo_aead = \<lparr> aeNonceSize = 2, aeSeal = (\<lambda>nonce p. rev p @ nonce),
     aeOpen = (\<lambda>nonce c. if drop (length c - 2) c = nonce then Inr (rev (take (length c - 2) c))
                         else Inl (Opaque ''message authentication failed'')) \<rparr>"

definition demo_hmac :: keyed_hash where
  "demo_hmac secret msg = take 32 (msg @ secret @ replicate 32 CHR ''.'')"

definition demo_source :: random_source where
  "demo_source n = Inr (replicate n CHR ''k'')"

definition demo_create :: create_env where
  "demo_create = \<lparr> ceKey = demo_source, ceSecret = demo_source, ceWebhook = demo_source,
     ceNonce1 = demo_source, ceNonce2 = demo_source, ceNow = 0, ceID = ''m9'', ceInsert = None \<rparr>"

definition demo_shop :: CreateMerchantInput where
  "demo_shop = \<lparr> ciName = ''Shop'', ciEmail = ''s@hop'', ciWebhookURL = ''http://shop/'' \<rparr>"

definition empty_db :: db where
  "empty_db = \<lparr> dbMerchants = [], dbTransactions = [], dbLedger = [], dbLedgerSeq = 0, dbWebhooks = [] \<rparr>"

definition demo_registered :: "CreatedMerchant \<times> db" where
  "demo_registered = projr (MerchantService_Create demo_aead demo_create demo_shop empty_db)"

lemma demo_params: "aead_correct demo_aead" "fills demo_source" "hash_size demo_hmac"
  by (auto simp: aead_correct_def demo_aead_def fills_def demo_source_def hash_size_def demo_hmac_def)

lemma demo_create_ok:
  assumes "ValidateMerchantInput (ciName inp) (ciEmail inp) (ciWebhookURL inp) = Inr ()"
  shows "\<exists>c d'. MerchantService_Create demo_aead demo_create inp empty_db = Inr (c, d') \<and> mID (cmMerchant c) = ''m9''"
  using assms by (simp add: MerchantService_Create_def NewAPIKey_def NewAPISecret_def NewWebhookSecret_def
      randomString_def Encrypt_def demo_create_def demo_source_def demo_aead_def MerchantRepo_Create_def
      empty_db_def Let_def)

lemma demo_registered: "MerchantService_Create demo_aead demo_create demo_shop empty_db
    = Inr (fst demo_registered, snd demo_registered)"
  using demo_create_ok [of demo_shop]
  by (auto simp: demo_registered_def demo_shop_def ValidateMerchantInput_Inr hasHTTPScheme_def)

lemma demo_timestamps:
  "parseUnixSeconds ''1700000000'' = Some 1700000000000000000"
  "parseUnixSeconds ''20000000000'' = Some 20000000000000000000"
  by (simp_all add: parseUnixSeconds_def ParseInt_def parse_nat_def is_digit_def in64_def time_defs wrap64_def)

lemma demo_envs: "fills (ceNonce1 demo_create)" "fills (ceNonce2 demo_create)"
  "(0 :: duration) \<le> 300000000000" "300000000000 < maxDuration"
  using demo_params(2) by (simp_all add: demo_create_def maxDuration_def)

definition demo_request :: SignedRequest where
  "demo_request = sign_request demo_hmac (mAPIKey (cmMerchant (fst demo_registered)))
     (cmAPISecret (fst demo_registered)) ''1700000000'' ''POST'' ''/api'' ''{}''"

theorem registration_authenticates_witness:
  "Authenticate demo_hmac demo_aead 300000000000 None 1700000005000000000 demo_request (snd demo_registered)
     = Inr (cmMerchant (fst demo_registered))
   \<and> Authenticate demo_hmac demo_aead 300000000000 None 1700000005000000000
       (sign_request demo_hmac (mAPIKey (cmMerchant (fst demo_registered)))
         (cmAPISecret (fst demo_registered)) ''20000000000'' ''POST'' ''/api'' ''{}'') (snd demo_registered)
     = Inr (cmMerchant (fst demo_registered))"
  using registration_authenticates [OF demo_params(1) demo_envs(1,2) demo_params(3) demo_registered
      demo_timestamps(1) demo_envs(3,4), of "1700000005000000000" "''POST''" "''/api''" "''{}''"]
    registration_authenticates [OF demo_params(1) demo_envs(1,2) demo_params(3) demo_registered
      demo_timestamps(2) demo_envs(3,4), of "1700000005000000000" "''POST''" "''/api''" "''{}''"]
  by (simp add: demo_request_def)


end
