(* ===== verification/Middleware.thy ===== *)
theory Middleware
  imports Http Idempotency Ratelimit Merchant_Service
begin

text \<open>
  The middleware of \<open>internal/transport/http\<close>: request identifiers and recovery
  (\<open>middleware_log.go\<close>), authentication (\<open>middleware_auth.go\<close>), rate limiting
  (\<open>middleware_ratelimit.go\<close>) and idempotency (\<open>middleware_idem.go\<close>). A handler is a
  function from a request, the headers set so far and the state of Redis and the database to
  an outcome and the new state; a middleware makes a handler from the next one. Log lines are
  left out.
\<close>

record 's world =
  wRedis :: 's
  wDB :: db

type_synonym 's handler = "request \<Rightarrow> headers \<Rightarrow> 's world \<Rightarrow> outcome \<times> 's world"

type_synonym error_encoder = "ErrorBody \<Rightarrow> string"

section \<open>Identifiers and recovery\<close>

definition RequestID :: "uuid \<Rightarrow> 's handler \<Rightarrow> 's handler" where
  "RequestID newID next r h w =
     (let given = header_Get (hqHeader r) ''X-Request-Id'';
          i = (if given = [] then ''req_'' @ newID else given)
      in next (r\<lparr> hqRequestID := i \<rparr>) (header_Set ''X-Request-Id'' i h) w)"

definition Recoverer :: "error_encoder \<Rightarrow> 's handler \<Rightarrow> 's handler" where
  "Recoverer enc next r h w =
     (case next r h w of
        (Answer resp, w) \<Rightarrow> (Answer resp, w)
      | (Panic abort h', w) \<Rightarrow>
          if abort then (Panic abort h', w)
          else (writeJSON h' 500 (enc ((error_body ''internal_error'' ''An unexpected error occurred.'' TypeAPI)
                  \<lparr> ebRequestID := hqRequestID r \<rparr>)), w))"

section \<open>Authentication\<close>

record auth_check =
  akLookup :: fault
  akNow :: time

text \<open>The signed request, with the body that was buffered.\<close>

definition signed_of :: "request \<Rightarrow> string option \<Rightarrow> SignedRequest" where
  "signed_of r body =
     \<lparr> rqAPIKey = header_Get (hqHeader r) ''X-Api-Key'',
       rqTimestamp = header_Get (hqHeader r) ''X-Timestamp'',
       rqSignature = header_Get (hqHeader r) ''X-Signature'',
       rqMethod = hqMethod r, rqPath = hqPath r,
       rqBody = (case body of None \<Rightarrow> [] | Some b \<Rightarrow> b) \<rparr>"

definition Auth ::
  "error_encoder \<Rightarrow> keyed_hash \<Rightarrow> aead \<Rightarrow> duration \<Rightarrow> auth_check \<Rightarrow> 's handler \<Rightarrow> 's handler" where
  "Auth enc hmac A skew a next r h w =
     (case readAndRestoreBody r of
        Inl err \<Rightarrow> (writeError enc r h err, w)
      | Inr body \<Rightarrow>
          (case Authenticate hmac A skew (akLookup a) (akNow a) (signed_of r body) (wDB w) of
             Inl err \<Rightarrow> (writeError enc r h err, w)
           | Inr merchant \<Rightarrow>
               next (r\<lparr> hqBody := map_option Inr body, hqMerchant := Some merchant, hqRawBody := body \<rparr>) h w))"

definition AdminAuth :: "error_encoder \<Rightarrow> string \<Rightarrow> 's handler \<Rightarrow> 's handler" where
  "AdminAuth enc token next r h w =
     (if TrimPrefix (header_Get (hqHeader r) ''Authorization'') ''Bearer '' \<noteq> token then
        (writeError enc r h (errorf ErrUnauthenticated ''invalid admin token''), w)
      else next r h w)"

section \<open>Rate limiting\<close>

definition RateLimit :: "error_encoder \<Rightarrow> 's limiter \<Rightarrow> allow_env \<Rightarrow> 's handler \<Rightarrow> 's handler" where
  "RateLimit enc l e next r h w =
     (case hqMerchant r of
        None \<Rightarrow> next r h w
      | Some merchant \<Rightarrow>
          (case Limiter_Allow l e (mID merchant) (wRedis w) of
             (Inl err, s) \<Rightarrow> next r h (w\<lparr> wRedis := s \<rparr>)
           | (Inr result, s) \<Rightarrow>
               (let w = w\<lparr> wRedis := s \<rparr>;
                    h = header_Set ''X-Ratelimit-Remaining'' (show_int (lrRemaining result))
                          (header_Set ''X-Ratelimit-Limit'' (show_int (lrLimit result)) h)
                in if \<not> lrAllowed result then
                     (let retryAfter = lrRetryAfter result sdiv Second;
                          retryAfter = (if retryAfter < 1 then 1 else retryAfter)
                      in (writeError enc r (header_Set ''Retry-After'' (show_int retryAfter) h)
                            (Sentinel ErrRateLimited), w))
                   else next r h w)))"

section \<open>Idempotency\<close>

definition missingIdempotencyKey :: error where
  "missingIdempotencyKey = Invalid ''Idempotency-Key'' ''header is required for this endpoint''"

record 's idem_env =
  ieBegin :: "'s begin_env"
  ieNow :: time
  ieDone :: time

definition replay :: "headers \<Rightarrow> idem_record \<Rightarrow> outcome" where
  "replay h stored =
     (let contentType = (if irContentType stored = [] then json_content else irContentType stored)
      in Answer \<lparr> rsStatus = irStatusCode stored,
           rsHeader = header_Set ''Idempotent-Replay'' ''true'' (header_Set ''Content-Type'' contentType h),
           rsBody = irBody stored \<rparr>)"

text \<open>What happens to the key when the handler has returned or panicked.\<close>

definition idem_finish ::
  "'s idem_store \<Rightarrow> 's idem_env \<Rightarrow> string \<Rightarrow> string \<Rightarrow> outcome \<Rightarrow> 's \<Rightarrow> 's" where
  "idem_finish st e key fingerprint out s =
     (case out of
        Panic abort h \<Rightarrow> snd (Release st (ieDone e) key s)
      | Answer resp \<Rightarrow>
          if rsStatus resp \<ge> 500 then snd (Release st (ieDone e) key s)
          else snd (Complete st (ieNow e) (ieDone e) key fingerprint (rsStatus resp)
                      (header_Get (rsHeader resp) ''Content-Type'') (rsBody resp) s))"

definition idem_body :: "request \<Rightarrow> string result" where
  "idem_body r =
     (case hqRawBody r of
        Some body \<Rightarrow> Inr body
      | None \<Rightarrow> (case readAndRestoreBody r of
                   Inl err \<Rightarrow> Inl err
                 | Inr None \<Rightarrow> Inr []
                 | Inr (Some body) \<Rightarrow> Inr body))"

definition Idempotency ::
  "error_encoder \<Rightarrow> (string \<Rightarrow> string) \<Rightarrow> 'f json_codec \<Rightarrow> 's idem_store \<Rightarrow> 's idem_env
     \<Rightarrow> 's handler \<Rightarrow> 's handler" where
  "Idempotency enc sha256 jc st e next r h w =
     (let idemKey = header_Get (hqHeader r) ''Idempotency-Key''
      in if idemKey = [] then (writeError enc r h missingIdempotencyKey, w)
         else case hqMerchant r of
           None \<Rightarrow> (writeError enc r h
                     (Opaque ''idempotency middleware requires an authenticated merchant''), w)
         | Some merchant \<Rightarrow>
             (case idem_body r of
                Inl err \<Rightarrow> (writeError enc r h err, w)
              | Inr body \<Rightarrow>
                  (let r = r\<lparr> hqBody := Some (Inr body) \<rparr>;
                       key = idem_Key (mID merchant) idemKey;
                       fingerprint = Fingerprint sha256 jc body
                   in case Begin st (ieBegin e) key fingerprint (wRedis w) of
                        (Inl err, s) \<Rightarrow> (writeError enc r h err, w\<lparr> wRedis := s \<rparr>)
                      | (Inr (Some stored), s) \<Rightarrow> (replay h stored, w\<lparr> wRedis := s \<rparr>)
                      | (Inr None, s) \<Rightarrow>
                          (case next r h (w\<lparr> wRedis := s \<rparr>) of
                             (out, w) \<Rightarrow>
                               (out, w\<lparr> wRedis := idem_finish st e key fingerprint out (wRedis w) \<rparr>)))))"

end
