(* ===== verification/Report_Files.thy ===== *)
theory Report_Files
  imports Ledger_Repo
begin

text \<open>
  The settlement report of \<open>internal/service/reconciliation_service.go\<close> and its files: a JSON
  and a CSV file in the report directory, the CSV as \<open>encoding/csv\<close> writes it. The files are
  named relative to the directory; the errors of the file system are parameters.
\<close>

section \<open>Reports\<close>

record MerchantSummary =
  msMerchantID :: uuid
  msCurrency :: Currency
  msTransactionCount :: int
  msCapturedTotal :: Amount
  msRefundedTotal :: Amount
  msFeeTotal :: Amount
  msNetPayout :: Amount
  msLedgerCaptured :: Amount
  msLedgerRefunded :: Amount
  msLedgerFees :: Amount
  msBalanced :: bool

record Discrepancy =
  dcMerchantID :: uuid
  dcField :: string
  dcExpected :: int
  dcActual :: int

record Report =
  rpDate :: string
  rpGeneratedAt :: time
  rpTransactionCount :: int
  rpMerchants :: "MerchantSummary list"
  rpDiscrepancies :: "Discrepancy list"
  rpUnbalancedGroups :: "uuid list"
  rpSettledCount :: int
  rpSettlementSkipped :: bool

definition Report_OK :: "Report \<Rightarrow> bool" where
  "Report_OK r \<longleftrightarrow> length (rpDiscrepancies r) = 0 \<and> length (rpUnbalancedGroups r) = 0"

section \<open>Comma-separated values\<close>

text \<open>
  \<open>csv.Writer\<close> quotes a field that contains a separator or a quote, is \<open>\.\<close> or starts with white
  space; the white space beyond ASCII is given by its UTF-8 bytes.
\<close>

definition bytes :: "nat list \<Rightarrow> string" where
  "bytes = map char_of"

definition unicode_spaces :: "string list" where
  "unicode_spaces = map bytes ([[9], [10], [11], [12], [13], [32], [194, 133], [194, 160], [225, 154, 128],
     [226, 128, 168], [226, 128, 169], [226, 128, 175], [226, 129, 159], [227, 128, 128]]
     @ map (\<lambda>k. [226, 128, k]) [128..<139])"

definition csv_special :: "char \<Rightarrow> bool" where
  "csv_special c \<longleftrightarrow> c = CHR 0x0A \<or> c = CHR 0x0D \<or> c = CHR 0x22 \<or> c = CHR '',''"

definition fieldNeedsQuotes :: "string \<Rightarrow> bool" where
  "fieldNeedsQuotes s \<longleftrightarrow> s \<noteq> [] \<and> (s = [CHR 0x5C, CHR ''.''] \<or> list_ex csv_special s
     \<or> list_ex (\<lambda>p. HasPrefix s p) unicode_spaces)"

definition csv_quoted :: "string \<Rightarrow> string" where
  "csv_quoted s = CHR 0x22 # concat (map (\<lambda>c. if c = CHR 0x22 then [c, c] else [c]) s) @ [CHR 0x22]"

definition csv_field :: "string \<Rightarrow> string" where
  "csv_field s = (if fieldNeedsQuotes s then csv_quoted s else s)"

fun csv_line :: "string list \<Rightarrow> string" where
  "csv_line [] = [CHR 0x0A]"
| "csv_line [f] = csv_field f @ [CHR 0x0A]"
| "csv_line (f # fs) = csv_field f @ CHR '','' # csv_line fs"

definition csv_text :: "string list list \<Rightarrow> string" where
  "csv_text rows = concat (map csv_line rows)"

section \<open>The rows of a report\<close>

definition csv_header :: "string list" where
  "csv_header = [''merchant_id'', ''currency'', ''transaction_count'', ''captured_total'',
     ''refunded_total'', ''fee_total'', ''net_payout'', ''ledger_captured'', ''ledger_refunded'',
     ''ledger_fees'', ''balanced'']"

definition csv_row :: "MerchantSummary \<Rightarrow> string list" where
  "csv_row m = [msMerchantID m, Currency_String (msCurrency m), show_int (msTransactionCount m),
     show_int (msCapturedTotal m), show_int (msRefundedTotal m), show_int (msFeeTotal m),
     show_int (msNetPayout m), show_int (msLedgerCaptured m), show_int (msLedgerRefunded m),
     show_int (msLedgerFees m), (if msBalanced m then ''true'' else ''false'')]"

definition csv_rows :: "Report \<Rightarrow> string list list" where
  "csv_rows r = csv_header # map csv_row (rpMerchants r)"

section \<open>Writing\<close>

text \<open>
  The files of the report directory by name. \<open>weJson\<close> is the error of writing the JSON file with
  what the file then holds, if it was opened; \<open>weHeader\<close> and \<open>weRow\<close> are the errors a row meets
  when the buffer of the CSV writer overflows into the file; \<open>weFlushed\<close> is the part of the
  text that the deferred \<open>Flush\<close>, whose error nobody asks for, has brought into the file.
\<close>

type_synonym files = "string \<rightharpoonup> string"

record write_env =
  weMkdir :: fault
  weMarshal :: "Report \<Rightarrow> string result"
  weJson :: "(error \<times> string option) option"
  weCreate :: fault
  weHeader :: fault
  weRow :: "nat \<Rightarrow> fault"
  weFlushed :: "string \<Rightarrow> string"

definition json_path :: "Report \<Rightarrow> string" where
  "json_path r = ''settlement-'' @ rpDate r @ ''.json''"

definition csv_path :: "Report \<Rightarrow> string" where
  "csv_path r = ''settlement-'' @ rpDate r @ ''.csv''"

fun write_rows :: "(nat \<Rightarrow> fault) \<Rightarrow> nat \<Rightarrow> MerchantSummary list \<Rightarrow> string \<Rightarrow> error option \<times> string" where
  "write_rows fl k [] buf = (None, buf)"
| "write_rows fl k (m # ms) buf =
     (case fl k of
        Some err \<Rightarrow> (Some (wrapf ''write csv row'' err), buf)
      | None \<Rightarrow> write_rows fl (Suc k) ms (buf @ csv_line (csv_row m)))"

definition write_csv :: "write_env \<Rightarrow> Report \<Rightarrow> files \<Rightarrow> error option \<times> files" where
  "write_csv e r fs =
     (case weCreate e of
        Some err \<Rightarrow> (Some (wrapf ''create csv report'' err), fs)
      | None \<Rightarrow>
          (case weHeader e of
             Some err \<Rightarrow> (Some (wrapf ''write csv header'' err), fs(csv_path r \<mapsto> weFlushed e []))
           | None \<Rightarrow>
               (case write_rows (weRow e) 0 (rpMerchants r) (csv_line csv_header) of
                  (err, buf) \<Rightarrow> (err, fs(csv_path r \<mapsto> weFlushed e buf)))))"

definition report_write :: "write_env \<Rightarrow> Report \<Rightarrow> files \<Rightarrow> error option \<times> files" where
  "report_write e r fs =
     (case weMkdir e of
        Some err \<Rightarrow> (Some (wrapf ''create report dir'' err), fs)
      | None \<Rightarrow>
          (case weMarshal e r of
             Inl err \<Rightarrow> (Some (wrapf ''marshal report'' err), fs)
           | Inr buf \<Rightarrow>
               (case weJson e of
                  Some (err, part) \<Rightarrow> (Some (wrapf ''write json report'' err),
                    case part of None \<Rightarrow> fs | Some p \<Rightarrow> fs(json_path r \<mapsto> p))
                | None \<Rightarrow> write_csv e r (fs(json_path r \<mapsto> buf)))))"

lemma write_rows_None:
  "write_rows fl k ms buf = (None, text') \<Longrightarrow> text' = buf @ csv_text (map csv_row ms)"
  by (induction fl k ms buf rule: write_rows.induct) (auto simp: csv_text_def split: option.splits)

section \<open>Reading a CSV file\<close>

text \<open>A reader of the format (RFC 4180): the field and the record it is in, and how it is quoted.\<close>

datatype csv_mode = Start | Plain | Quoted | QuoteSeen

fun csv_scan :: "csv_mode \<Rightarrow> string \<Rightarrow> string list \<Rightarrow> string \<Rightarrow> string list list option" where
  "csv_scan m cur fs [] = (if m = Start \<and> fs = [] then Some [] else None)"
| "csv_scan m cur fs (c # s) =
     (if m = Quoted then
        (if c = CHR 0x22 then csv_scan QuoteSeen cur fs s else csv_scan Quoted (cur @ [c]) fs s)
      else if c = CHR '','' then csv_scan Start [] (fs @ [cur]) s
      else if c = CHR 0x0A then map_option (\<lambda>rows. (fs @ [cur]) # rows) (csv_scan Start [] [] s)
      else if c = CHR 0x22 then
        (if m = Start then csv_scan Quoted [] fs s
         else if m = QuoteSeen then csv_scan Quoted (cur @ [c]) fs s
         else None)
      else if m = QuoteSeen then None
      else csv_scan Plain (cur @ [c]) fs s)"

definition csv_read :: "string \<Rightarrow> string list list option" where
  "csv_read s = csv_scan Start [] [] s"

definition ends_field :: "string \<Rightarrow> bool" where
  "ends_field s \<longleftrightarrow> (\<exists>c s'. s = c # s' \<and> (c = CHR '','' \<or> c = CHR 0x0A))"

lemma scan_plain:
  "\<not> list_ex csv_special x \<Longrightarrow> m = Start \<or> m = Plain \<Longrightarrow> x \<noteq> [] \<Longrightarrow>
     csv_scan m cur fs (x @ s) = csv_scan Plain (cur @ x) fs s"
proof (induction x arbitrary: m cur)
  case (Cons c x)
  then show ?case by (cases "x = []") (auto simp: csv_special_def)
qed simp

lemma scan_quoted:
  "csv_scan Quoted cur fs (concat (map (\<lambda>c. if c = CHR 0x22 then [c, c] else [c]) x) @ CHR 0x22 # s)
     = csv_scan QuoteSeen (cur @ x) fs s"
  by (induction x arbitrary: cur) auto

text \<open>A field that is written and ended is read.\<close>

lemma scan_field:
  assumes "ends_field s"
  shows "\<exists>m. m \<noteq> Quoted \<and> csv_scan Start [] fs (csv_field x @ s) = csv_scan m x fs s"
proof (cases "fieldNeedsQuotes x")
  case True
  have "csv_scan Start [] fs (csv_field x @ s) = csv_scan QuoteSeen x fs s"
    using True scan_quoted [of "[]" fs x s] by (simp add: csv_field_def csv_quoted_def)
  then show ?thesis by blast
next
  case False
  show ?thesis
  proof (cases "x = []")
    case True
    then show ?thesis using False by (auto simp: csv_field_def)
  next
    case ne: False
    with False have "\<not> list_ex csv_special x" by (simp add: fieldNeedsQuotes_def)
    from scan_plain [OF this _ ne, of Start "[]" fs s] show ?thesis
      using False by (auto simp: csv_field_def)
  qed
qed

lemma scan_comma: "m \<noteq> Quoted \<Longrightarrow> csv_scan m x fs (CHR '','' # s) = csv_scan Start [] (fs @ [x]) s"
  by simp

lemma scan_newline:
  "m \<noteq> Quoted \<Longrightarrow> csv_scan m x fs (CHR 0x0A # s)
     = map_option (\<lambda>rows. (fs @ [x]) # rows) (csv_scan Start [] [] s)"
  by simp

lemma scan_line:
  assumes "row \<noteq> []"
  shows "csv_scan Start [] fs (csv_line row @ s) = map_option (\<lambda>rows. (fs @ row) # rows) (csv_scan Start [] [] s)"
  using assms
proof (induction row arbitrary: fs rule: csv_line.induct)
  case (2 f)
  have "ends_field (CHR 0x0A # s)" by (simp add: ends_field_def)
  from scan_field [OF this, of fs f] show ?case using scan_newline by fastforce
next
  case (3 f g row)
  have "ends_field (CHR '','' # csv_line (g # row) @ s)" by (simp add: ends_field_def)
  from scan_field [OF this, of fs f] obtain m where "m \<noteq> Quoted"
    "csv_scan Start [] fs (csv_field f @ CHR '','' # csv_line (g # row) @ s)
      = csv_scan m f fs (CHR '','' # csv_line (g # row) @ s)" by blast
  then show ?case using "3.IH" [of "fs @ [f]"] scan_comma [of m] by simp
qed simp

lemma csv_read_text:
  assumes "\<forall>row \<in> set rows. row \<noteq> []"
  shows "csv_read (csv_text rows) = Some rows"
  using assms by (induction rows) (simp_all add: csv_read_def csv_text_def scan_line)

section \<open>What has been written\<close>

text \<open>
  C35. What a report that was written without an error leaves behind: the JSON file holds the
  encoded report, and the text handed to the CSV file, read back by the rules of the format, is
  the header and one row per merchant in the report's order; no other file is touched. But how
  much of that text is in the file is not part of the outcome: the error of the last flush is
  never asked for, so the call answers the same even if nothing of it has arrived.
\<close>

theorem report_written:
  assumes "report_write e r fs = (None, fs')"
  shows "map_option Inr (fs' (json_path r)) = Some (weMarshal e r)
    \<and> (\<exists>csv. fs' (csv_path r) = Some (weFlushed e csv) \<and> csv_read csv = Some (csv_rows r))
    \<and> fs' |` (- {json_path r, csv_path r}) = fs |` (- {json_path r, csv_path r})
    \<and> fst (report_write (e\<lparr> weFlushed := g \<rparr>) r fs) = None"
proof -
  have ne: "json_path r \<noteq> csv_path r" by (simp add: json_path_def csv_path_def)
  from assms obtain buf csv where w: "weMkdir e = None" "weMarshal e r = Inr buf" "weJson e = None"
    "weCreate e = None" "weHeader e = None"
    "write_rows (weRow e) 0 (rpMerchants r) (csv_line csv_header) = (None, csv)"
    "fs' = fs(json_path r \<mapsto> buf, csv_path r \<mapsto> weFlushed e csv)"
    by (auto simp: report_write_def write_csv_def split: option.splits sum.splits prod.splits)
  have "\<forall>row \<in> set (csv_rows r). row \<noteq> []" by (auto simp: csv_rows_def csv_header_def csv_row_def)
  moreover have "csv = csv_text (csv_rows r)"
    using write_rows_None [OF w(6)] by (simp add: csv_rows_def csv_text_def)
  ultimately have "\<exists>csv. fs' (csv_path r) = Some (weFlushed e csv) \<and> csv_read csv = Some (csv_rows r)"
    using w(7) csv_read_text by auto
  moreover have "fs' |` (- {json_path r, csv_path r}) = fs |` (- {json_path r, csv_path r})"
    using w(7) by (auto simp: restrict_map_def)
  ultimately show ?thesis using w ne by (simp add: report_write_def write_csv_def)
qed

definition demo_report :: Report where
  "demo_report = \<lparr> rpDate = ''2026-08-27'', rpGeneratedAt = 0, rpTransactionCount = 1,
     rpMerchants = [\<lparr> msMerchantID = ''m1'', msCurrency = VND, msTransactionCount = 1, msCapturedTotal = 60000,
       msRefundedTotal = 0, msFeeTotal = 1200, msNetPayout = 58800, msLedgerCaptured = 60000,
       msLedgerRefunded = 0, msLedgerFees = 1200, msBalanced = True \<rparr>],
     rpDiscrepancies = [], rpUnbalancedGroups = [], rpSettledCount = 1, rpSettlementSkipped = False \<rparr>"

definition demo_write :: write_env where
  "demo_write = \<lparr> weMkdir = None, weMarshal = (\<lambda>r. Inr ''{}''), weJson = None, weCreate = None,
     weHeader = None, weRow = (\<lambda>_. None), weFlushed = id \<rparr>"

lemma write_rows_quiet: "fst (write_rows (\<lambda>_. None) k ms buf) = None"
  by (induction ms arbitrary: k buf) simp_all

lemma demo_write_ok: "fst (report_write demo_write r fs) = None"
  by (simp add: report_write_def write_csv_def demo_write_def case_prod_beta write_rows_quiet)

text \<open>The report of one merchant is complete; on a full disk its CSV file is empty and nobody is told.\<close>

theorem report_written_witness:
  "(\<exists>csv row. snd (report_write demo_write demo_report Map.empty) (csv_path demo_report) = Some csv
      \<and> csv_read csv = Some [csv_header, row] \<and> take 2 row = [''m1'', ''VND''])
   \<and> fst (report_write (demo_write\<lparr> weFlushed := (\<lambda>_. []) \<rparr>) demo_report Map.empty) = None"
proof -
  have "report_write demo_write demo_report Map.empty = (None, snd (report_write demo_write demo_report Map.empty))"
    using demo_write_ok by (simp add: prod_eq_iff)
  note w = report_written [OF this, of "\<lambda>_. []"]
  have "map (take 2) (csv_rows demo_report) = [take 2 csv_header, [''m1'', ''VND'']]"
    by (simp add: csv_rows_def demo_report_def csv_row_def numeral_2_eq_2)
  then show ?thesis using w by (auto simp: demo_write_def csv_rows_def map_eq_Cons_conv)
qed

end
