(* ===== verification/Reconciliation.thy ===== *)
theory Reconciliation
  imports Payment Report_Files
begin

text \<open>
  \<open>internal/service/reconciliation_service.go\<close>: the daily comparison of the transactions
  with the journal, the settlement it allows, and the settlement report of one merchant.

  The day is given by an instant in UTC. The map \<open>expected\<close> is kept as the list of its
  values in the order of insertion, one of the orders in which Go may iterate over it.
  Between the queries of a run other sessions may commit: each gap is an argument, as in
  \<open>Payment\<close>. The report files are written by \<open>report_write\<close> of \<open>Report_Files\<close>; nothing reads
  them back, so a run keeps of them only whether writing failed.
\<close>

section \<open>Days\<close>

definition Day :: duration where "Day = 24 * 3600 * Second"

definition day_from :: "time \<Rightarrow> time" where "day_from date = (date div Day) * Day"

definition day_to :: "time \<Rightarrow> time" where "day_to date = day_from date + Day"

text \<open>Year, month and day of a day number (days since 1970-01-01) in the Gregorian calendar.\<close>

definition civil :: "int \<Rightarrow> int \<times> int \<times> int" where
  "civil n =
     (let z = n + 719468;
          era = z div 146097;
          doe = z mod 146097;
          yoe = (doe - doe div 1460 + doe div 36524 - doe div 146096) div 365;
          doy = doe - (365 * yoe + yoe div 4 - yoe div 100);
          mp = (5 * doy + 2) div 153;
          d = doy - (153 * mp + 2) div 5 + 1;
          m = (if mp < 10 then mp + 3 else mp - 9);
          y = yoe + era * 400 + (if m \<le> 2 then 1 else 0)
      in (y, m, d))"

text \<open>The layout \<open>2006-01-02\<close>.\<close>

definition format_date :: "time \<Rightarrow> string" where
  "format_date t =
     (case civil (t div Day) of (y, m, d) \<Rightarrow> pad0 4 y @ ''-'' @ pad0 2 m @ ''-'' @ pad0 2 d)"

section \<open>The two sides\<close>

type_synonym reconKey = "uuid \<times> Currency"

definition summary_key :: "MerchantSummary \<Rightarrow> reconKey" where
  "summary_key s = (msMerchantID s, msCurrency s)"

definition empty_summary :: "reconKey \<Rightarrow> MerchantSummary" where
  "empty_summary k =
     \<lparr> msMerchantID = fst k, msCurrency = snd k, msTransactionCount = 0, msCapturedTotal = 0,
       msRefundedTotal = 0, msFeeTotal = 0, msNetPayout = 0, msLedgerCaptured = 0,
       msLedgerRefunded = 0, msLedgerFees = 0, msBalanced = False \<rparr>"

text \<open>\<open>sum, ok := expected[k]; if !ok { ... }\<close> followed by an update of \<open>*sum\<close>.\<close>

fun upsert ::
  "reconKey \<Rightarrow> (MerchantSummary \<Rightarrow> MerchantSummary) \<Rightarrow> MerchantSummary list \<Rightarrow> MerchantSummary list" where
  "upsert k f [] = [f (empty_summary k)]"
| "upsert k f (s # ss) = (if summary_key s = k then f s # ss else s # upsert k f ss)"

definition add_txn :: "int \<Rightarrow> transaction \<Rightarrow> MerchantSummary \<Rightarrow> MerchantSummary" where
  "add_txn feeBPS t s =
     (let fee = Fee (tCapturedAmount t) feeBPS
      in s\<lparr> msTransactionCount := msTransactionCount s + 1,
            msCapturedTotal := wrap64 (msCapturedTotal s + tCapturedAmount t),
            msRefundedTotal := wrap64 (msRefundedTotal s + tRefundedAmount t),
            msFeeTotal := wrap64 (msFeeTotal s + fee),
            msNetPayout := wrap64 (msNetPayout s
              + wrap64 (wrap64 (tCapturedAmount t - fee) - tRefundedAmount t)) \<rparr>)"

definition txn_key :: "transaction \<Rightarrow> reconKey" where
  "txn_key t = (tMerchantID t, tCurrency t)"

definition transaction_side :: "int \<Rightarrow> transaction list \<Rightarrow> MerchantSummary list" where
  "transaction_side feeBPS txns = fold (\<lambda>t. upsert (txn_key t) (add_txn feeBPS t)) txns []"

definition set_ledger :: "DailyTotals \<Rightarrow> MerchantSummary \<Rightarrow> MerchantSummary" where
  "set_ledger a s = s\<lparr> msLedgerCaptured := dtCaptured a, msLedgerRefunded := dtRefunded a,
     msLedgerFees := dtFees a \<rparr>"

definition journal_side :: "DailyTotals list \<Rightarrow> MerchantSummary list \<Rightarrow> MerchantSummary list" where
  "journal_side aggregates ss =
     fold (\<lambda>a. upsert (dtMerchantID a, dtCurrency a) (set_ledger a)) aggregates ss"

section \<open>The comparison\<close>

definition checks :: "MerchantSummary \<Rightarrow> (string \<times> Amount \<times> Amount) list" where
  "checks s = [(''captured_total'', msCapturedTotal s, msLedgerCaptured s),
               (''refunded_total'', msRefundedTotal s, msLedgerRefunded s),
               (''fee_total'', msFeeTotal s, msLedgerFees s)]"

definition failed_checks :: "MerchantSummary \<Rightarrow> Discrepancy list" where
  "failed_checks s =
     map (\<lambda>(field, expected, actual). \<lparr> dcMerchantID = msMerchantID s, dcField = field,
            dcExpected = expected, dcActual = actual \<rparr>)
       (filter (\<lambda>(field, expected, actual). expected \<noteq> actual) (checks s))"

definition compared :: "MerchantSummary \<Rightarrow> MerchantSummary" where
  "compared s = s\<lparr> msBalanced := (failed_checks s = []) \<rparr>"

section \<open>Settlement\<close>

definition settle_body :: "int \<Rightarrow> tx_env \<Rightarrow> uuid \<Rightarrow> db \<Rightarrow> (unit \<times> db) result" where
  "settle_body feeBPS x i d =
     andThen (GetForUpdate (xGet x) i d) (\<lambda>fresh.
     if tStatus fresh \<noteq> StatusCaptured then Inr ((), d)
     else
       andThen (Transaction_Settle (xNow x) fresh) (\<lambda>fresh.
       andThen (TransactionRepo_Update (xUpdate x) (xDBNow x) fresh d) (\<lambda>(fresh, d).
       andThen (let net = NetPayable fresh feeBPS
                in if net > 0 then
                     andThen (NewSettlementEntryGroup (xGroupID x) fresh net (xNow x)) (\<lambda>grp.
                     InsertGroup (xLedger x) grp d)
                   else Inr d) (\<lambda>d.
       andThen (BuildEventPayload (xMarshal x) (xEventID x) EventPaymentSettled fresh (xNow x)) (\<lambda>payload.
       andThen (WebhookRepo_Create (xWebhook x)
                  (NewWebhookDelivery (xDeliveryID x) (tMerchantID fresh) (tID fresh)
                     EventPaymentSettled payload (xNow x)) d) (\<lambda>d.
       Inr ((), d)))))))"

text \<open>The loop of \<open>settle\<close>: \<open>xs k\<close> and \<open>gap k\<close> belong to the \<open>k\<close>-th transaction.\<close>

fun settle_loop ::
  "int \<Rightarrow> (nat \<Rightarrow> tx_env) \<Rightarrow> (nat \<Rightarrow> db \<Rightarrow> db) \<Rightarrow> nat \<Rightarrow> int \<Rightarrow> transaction list \<Rightarrow> db
     \<Rightarrow> (int \<times> error option) \<times> db" where
  "settle_loop feeBPS xs gap k settled [] d = ((settled, None), d)"
| "settle_loop feeBPS xs gap k settled (t # ts) d =
     (if tStatus t \<noteq> StatusCaptured then settle_loop feeBPS xs gap (Suc k) settled ts d
      else
        (case WithTx (xTx (xs k)) (settle_body feeBPS (xs k) (tID t)) (gap k d) of
           (Inl err, d) \<Rightarrow> ((settled, Some (wrapf ''settle transaction'' err)), d)
         | (Inr _, d) \<Rightarrow> settle_loop feeBPS xs gap (Suc k) (settled + 1) ts d))"

definition settle ::
  "int \<Rightarrow> (nat \<Rightarrow> tx_env) \<Rightarrow> (nat \<Rightarrow> db \<Rightarrow> db) \<Rightarrow> transaction list \<Rightarrow> db
     \<Rightarrow> (int \<times> error option) \<times> db" where
  "settle feeBPS xs gap txns d = settle_loop feeBPS xs gap 0 0 txns d"

section \<open>A run\<close>

record run_env =
  rNow :: time
  rList :: fault
  rAggregate :: fault
  rUnbalanced :: fault
  rWrite :: write_env
  rGap1 :: "db \<Rightarrow> db"
  rGap2 :: "db \<Rightarrow> db"
  rSettleGap :: "nat \<Rightarrow> db \<Rightarrow> db"
  rSettle :: "nat \<Rightarrow> tx_env"

definition build_report ::
  "int \<Rightarrow> time \<Rightarrow> time \<Rightarrow> transaction list \<Rightarrow> DailyTotals list \<Rightarrow> UnbalancedGroup list \<Rightarrow> Report" where
  "build_report feeBPS date now txns aggregates unbalanced =
     (let expected = journal_side aggregates (transaction_side feeBPS txns)
      in \<lparr> rpDate = format_date (day_from date), rpGeneratedAt = now,
           rpTransactionCount = int (length txns),
           rpMerchants = sort_key msMerchantID (map compared expected),
           rpDiscrepancies = concat (map failed_checks expected),
           rpUnbalancedGroups = map ugEntryGroupID unbalanced,
           rpSettledCount = 0, rpSettlementSkipped = False \<rparr>)"

text \<open>The pair that \<open>Run\<close> returns: the report, if any, and the error, if any.\<close>

definition write_result :: "write_env \<Rightarrow> Report \<Rightarrow> Report option \<times> error option" where
  "write_result f r = (Some r, fst (report_write f r Map.empty))"

definition Run :: "int \<Rightarrow> run_env \<Rightarrow> time \<Rightarrow> db \<Rightarrow> (Report option \<times> error option) \<times> db" where
  "Run feeBPS e date d =
     (case ListCapturedBetween (rList e) (day_from date) (day_to date) d of
        Inl err \<Rightarrow> ((None, Some err), d)
      | Inr txns \<Rightarrow>
          (let d = rGap1 e d
           in case AggregateByMerchant (rAggregate e) (day_from date) (day_to date) d of
                Inl err \<Rightarrow> ((None, Some err), d)
              | Inr aggregates \<Rightarrow>
                  (let d = rGap2 e d
                   in case FindUnbalancedGroups (rUnbalanced e) d of
                        Inl err \<Rightarrow> ((None, Some err), d)
                      | Inr unbalanced \<Rightarrow>
                          (let r = build_report feeBPS date (rNow e) txns aggregates unbalanced
                           in if \<not> Report_OK r then
                                (write_result (rWrite e) (r\<lparr> rpSettlementSkipped := True \<rparr>), d)
                              else
                                (case settle feeBPS (rSettle e) (rSettleGap e) txns d of
                                   ((settled, Some err), d) \<Rightarrow> ((Some r, Some err), d)
                                 | ((settled, None), d) \<Rightarrow>
                                     (write_result (rWrite e) (r\<lparr> rpSettledCount := settled \<rparr>), d))))))"

text \<open>The report of one merchant, computed again on request.\<close>

fun report_txns :: "int \<Rightarrow> uuid \<Rightarrow> transaction list \<Rightarrow> MerchantSummary \<Rightarrow> MerchantSummary" where
  "report_txns feeBPS merchantID [] s = s"
| "report_txns feeBPS merchantID (t # ts) s =
     (if tMerchantID t \<noteq> merchantID then report_txns feeBPS merchantID ts s
      else report_txns feeBPS merchantID ts (add_txn feeBPS t
        (if Currency_String (msCurrency s) = [] then s\<lparr> msCurrency := tCurrency t \<rparr> else s)))"

fun report_ledger :: "uuid \<Rightarrow> DailyTotals list \<Rightarrow> MerchantSummary \<Rightarrow> MerchantSummary" where
  "report_ledger merchantID [] s = s"
| "report_ledger merchantID (a # as) s =
     (if dtMerchantID a \<noteq> merchantID then report_ledger merchantID as s
      else report_ledger merchantID as (set_ledger a s))"

definition SettlementReport ::
  "int \<Rightarrow> run_env \<Rightarrow> time \<Rightarrow> uuid \<Rightarrow> db \<Rightarrow> MerchantSummary result" where
  "SettlementReport feeBPS e date merchantID d =
     andThen (ListCapturedBetween (rList e) (day_from date) (day_to date) d) (\<lambda>txns.
     andThen (AggregateByMerchant (rAggregate e) (day_from date) (day_to date) (rGap1 e d)) (\<lambda>aggregates.
     let s = report_ledger merchantID aggregates
               (report_txns feeBPS merchantID txns (empty_summary (merchantID, OtherCurrency [])))
     in Inr (s\<lparr> msBalanced := (msCapturedTotal s = msLedgerCaptured s
          \<and> msRefundedTotal s = msLedgerRefunded s \<and> msFeeTotal s = msLedgerFees s) \<rparr>)))"

end
