(* ===== verification/Signer.thy ===== *)
theory Signer
  imports Merchant_Service
begin

text \<open>
  \<open>internal/webhook/signer.go\<close>: the signature header of a callback, and its verification
  by the receiver. The keyed hash is the same parameter as for merchant requests.
\<close>

section \<open>Signing\<close>

definition SignatureHeader :: string where
  "SignatureHeader = ''X-Signature''"

definition payload_string :: "int \<Rightarrow> string \<Rightarrow> string" where
  "payload_string ts body = show_int ts @ ''.'' @ body"

definition computeSignature :: "keyed_hash \<Rightarrow> string \<Rightarrow> int \<Rightarrow> string \<Rightarrow> string" where
  "computeSignature hmac secret ts body = hex_encode (hmac secret (payload_string ts body))"

definition Sign :: "keyed_hash \<Rightarrow> string \<Rightarrow> time \<Rightarrow> string \<Rightarrow> string" where
  "Sign hmac secret ts body =
     (let t = unix_seconds ts
      in ''t='' @ show_int t @ '',v1='' @ computeSignature hmac secret t body)"

section \<open>Verification\<close>

text \<open>The loop over the parts; \<open>tsRaw\<close> and \<open>sig\<close> are overwritten by later parts.\<close>

fun parse_parts :: "string \<Rightarrow> string \<Rightarrow> string list \<Rightarrow> string \<times> string" where
  "parse_parts tsRaw sig [] = (tsRaw, sig)"
| "parse_parts tsRaw sig (part # parts) =
     (case Cut CHR ''='' (TrimSpace part) of
        None \<Rightarrow> parse_parts tsRaw sig parts
      | Some (key, value) \<Rightarrow>
          if key = ''t'' then parse_parts value sig parts
          else if key = ''v1'' then parse_parts tsRaw value parts
          else parse_parts tsRaw sig parts)"

definition parseHeader :: "string \<Rightarrow> (int \<times> string) result" where
  "parseHeader header =
     (case parse_parts [] [] (Split CHR '','' header) of
        (tsRaw, sig) \<Rightarrow>
          if tsRaw = [] \<or> sig = [] then Inl (Sentinel ErrMalformedSignature)
          else case ParseInt tsRaw of
                 None \<Rightarrow> Inl (errorf ErrMalformedSignature ''strconv.ParseInt'')
               | Some ts \<Rightarrow> Inr (ts, sig))"

definition Verify ::
  "keyed_hash \<Rightarrow> string \<Rightarrow> string \<Rightarrow> string \<Rightarrow> time \<Rightarrow> duration \<Rightarrow> unit result" where
  "Verify hmac secret header body now tolerance =
     andThen (parseHeader header) (\<lambda>(ts, sig).
     let signedAt = time_Unix ts; drift = abs_drift now signedAt
     in if drift > tolerance then Inl (errorf ErrSignatureExpired ''drift'')
        else if computeSignature hmac secret ts body \<noteq> sig then Inl (Sentinel ErrSignatureMismatch)
        else Inr ())"

section \<open>Parsing what was signed\<close>

lemma show_int_visible: "c \<in> set (show_int x) \<Longrightarrow> visible c"
  using show_int_chars [of c x] by (auto simp: visible_def is_digit_def)

text \<open>The parts \<open>key=value\<close> of visible bytes survive trimming and cutting.\<close>

lemma Cut_field:
  assumes "key \<noteq> []" and "value \<noteq> []" and "\<forall>c \<in> set (key @ value). visible c" and "CHR ''='' \<notin> set key"
  shows "Cut CHR ''='' (TrimSpace (key @ CHR ''='' # value)) = Some (key, value)"
proof -
  have "TrimSpace (key @ CHR ''='' # value) = key @ CHR ''='' # value"
    using assms by (intro TrimSpace_visible) auto
  then show ?thesis using assms(4) by (simp add: Cut_append)
qed

lemma parse_signed:
  assumes "sig \<noteq> []" and "\<forall>c \<in> set sig. visible c \<and> c \<noteq> CHR '',''" and "in64 t"
  shows "parseHeader (''t='' @ show_int t @ '',v1='' @ sig) = Inr (t, sig)"
proof -
  have free: "CHR '','' \<notin> set (''t='' @ show_int t)" "CHR '','' \<notin> set (''v1='' @ sig)"
    using assms(2) by (auto simp: is_digit_def)
  have "Split CHR '','' ((''t='' @ show_int t) @ CHR '','' # (''v1='' @ sig))
      = [''t='' @ show_int t, ''v1='' @ sig]"
    using Split_append [OF free(1)] Split_free [OF free(2)] by simp
  moreover have "Cut CHR ''='' (TrimSpace (''t='' @ show_int t)) = Some (''t'', show_int t)"
    using Cut_field [of "''t''" "show_int t"] show_int_visible by (auto simp: visible_def)
  moreover have "Cut CHR ''='' (TrimSpace (''v1='' @ sig)) = Some (''v1'', sig)"
    using Cut_field [of "''v1''" sig] assms(1,2) by (auto simp: visible_def)
  ultimately show ?thesis
    using assms(1) ParseInt_show_int [OF assms(3)] by (simp add: parseHeader_def)
qed

lemma computeSignature_shape:
  assumes "hash_size hmac"
  shows "computeSignature hmac secret t body \<noteq> []"
    and "\<forall>c \<in> set (computeSignature hmac secret t body). visible c \<and> c \<noteq> CHR '',''"
proof -
  have "length (computeSignature hmac secret t body) = 64"
    using assms by (simp add: computeSignature_def hash_size_def)
  then show "computeSignature hmac secret t body \<noteq> []" by auto
  show "\<forall>c \<in> set (computeSignature hmac secret t body). visible c \<and> c \<noteq> CHR '',''"
    using hex_encode_visible by (auto simp: computeSignature_def)
qed

lemma parse_Sign:
  assumes "hash_size hmac" and "in64 (unix_seconds ts)"
  shows "parseHeader (Sign hmac secret ts body)
    = Inr (unix_seconds ts, computeSignature hmac secret (unix_seconds ts) body)"
  unfolding Sign_def Let_def
  by (rule parse_signed [OF computeSignature_shape [OF assms(1)] assms(2)])

lemma payload_string_inj:
  assumes "in64 t" and "in64 t'"
  shows "payload_string t b = payload_string t' b' \<longleftrightarrow> t = t' \<and> b = b'"
proof -
  have "CHR ''.'' \<notin> set (show_int t)" "CHR ''.'' \<notin> set (show_int t')"
    by (auto simp: is_digit_def)
  from separated [OF this, of b b'] show ?thesis
    using show_int_inj [OF assms] by (auto simp: payload_string_def)
qed

section \<open>What a verified callback proves\<close>

lemma Verify_Sign:
  assumes "hash_size hmac" and "0 \<le> ts" and "unix_seconds ts < 2 ^ 62"
    and "0 \<le> tolerance" and "tolerance < maxDuration"
    and "no_collision hmac secret (payload_string (unix_seconds ts) body')
           (payload_string (unix_seconds ts) body)"
  shows "Verify hmac secret (Sign hmac secret ts body) body' now tolerance =
    (let signedAt = unix_seconds ts * Second
     in if \<not> (\<bar>now - signedAt\<bar> \<le> tolerance \<or> 2 ^ 63 \<le> signedAt - now)
        then Inl (errorf ErrSignatureExpired ''drift'')
        else if body' \<noteq> body then Inl (Sentinel ErrSignatureMismatch)
        else Inr ())"
proof -
  have sec: "0 \<le> unix_seconds ts" using assms(2) by (simp add: unix_seconds_def Second_def pos_imp_zdiv_nonneg_iff)
  then have in64: "in64 (unix_seconds ts)" using assms(3) by (simp add: in64_def)
  have at: "time_Unix (unix_seconds ts) = unix_seconds ts * Second"
    using sec assms(3) wrap64_id [of "unix_seconds ts + unixToInternal"]
    by (simp add: time_Unix_def in64_def unixToInternal_def)
  have sig: "computeSignature hmac secret (unix_seconds ts) body' = computeSignature hmac secret (unix_seconds ts) body
      \<longleftrightarrow> body' = body"
    using assms(6) payload_string_inj [OF in64 in64] hex_encode_inj
    unfolding computeSignature_def no_collision_def by metis
  show ?thesis
    using abs_drift_le_iff [OF assms(4,5), of now "unix_seconds ts * Second"] sig
    by (auto simp: Verify_def parse_Sign [OF assms(1) in64] at Let_def not_less)
qed

text \<open>
  C34. Signing and verifying. A receiver that verifies the header of a callback signed at
  \<open>ts\<close> with its own secret accepts it exactly if the body is the signed body and the
  second of signing is within the tolerance of its clock (or so far ahead that the clock
  difference saturates, as for merchant requests). A callback altered in one byte of its
  body is refused as a mismatch and one that is too old as expired, provided the keyed hash
  does not collide on the two signed strings.
\<close>

theorem verify_sign:
  assumes "hash_size hmac" and "0 \<le> ts" and "unix_seconds ts < 2 ^ 62"
    and "0 \<le> tolerance" and "tolerance < maxDuration"
    and "no_collision hmac secret (payload_string (unix_seconds ts) body')
           (payload_string (unix_seconds ts) body)"
  shows "Verify hmac secret (Sign hmac secret ts body) body' now tolerance =
    (let signedAt = unix_seconds ts * Second
     in if \<not> (\<bar>now - signedAt\<bar> \<le> tolerance \<or> 2 ^ 63 \<le> signedAt - now)
        then Inl (errorf ErrSignatureExpired ''drift'')
        else if body' \<noteq> body then Inl (Sentinel ErrSignatureMismatch)
        else Inr ())"
  using Verify_Sign [OF assms] .

theorem verify_sign_witness:
  "Verify demo_hmac ''s'' (Sign demo_hmac ''s'' 1700000000000000000 ''{}'') ''{}'' 1700000001000000000 300000000000 = Inr ()
   \<and> Verify demo_hmac ''s'' (Sign demo_hmac ''s'' 1700000000000000000 ''{}'') ''[]'' 1700000001000000000 300000000000
       = Inl (Sentinel ErrSignatureMismatch)
   \<and> Verify demo_hmac ''s'' (Sign demo_hmac ''s'' 1700000000000000000 ''{}'') ''{}'' 1800000001000000000 300000000000
       = Inl (errorf ErrSignatureExpired ''drift'')"
proof -
  have t: "unix_seconds 1700000000000000000 = 1700000000" by (simp add: unix_seconds_def Second_def)
  have sh: "length (show_int 1700000000) = 10"
    by (simp add: show_int_def show_nat.simps)
  have no: "no_collision demo_hmac ''s'' (payload_string (unix_seconds 1700000000000000000) b)
      (payload_string (unix_seconds 1700000000000000000) ''{}'')" if "b = ''{}'' \<or> b = ''[]''" for b
    using that sh by (auto simp: no_collision_def demo_hmac_def payload_string_def t)
  note v = verify_sign [OF demo_params(3), of "1700000000000000000" "300000000000" "''s''" _ "''{}''",
      unfolded t, simplified maxDuration_def Second_def Let_def, simplified]
  show ?thesis
    using v [OF no [of "''{}''", unfolded t]] v [OF no [of "''[]''", unfolded t]] by simp
qed

end
