(* ===== verification/Handlers.thy ===== *)
theory Handlers
  imports Middleware Reconciliation Signer
begin

text \<open>
  The handlers of \<open>internal/transport/http\<close>: payments, merchants, ledger and the system
  endpoints. A handler decodes its request, calls the service and encodes the answer; the
  encoders of the answers are parameters. A handler that needs the merchant of an
  authenticated request panics without one, as the nil dereference of the code does.
\<close>

section \<open>Views\<close>

record PaymentResponse =
  prID :: string
  prReference :: string
  prAmount :: int
  prCurrency :: string
  prStatus :: string
  prCapturedAmount :: int
  prRefundedAmount :: int
  prCardLast4 :: string
  prCardBrand :: string
  prFailureCode :: string
  prMetadata :: metadata
  prAuthorizedAt :: "time option"
  prCapturedAt :: "time option"
  prSettledAt :: "time option"
  prExpiresAt :: "time option"
  prCreatedAt :: time

record 'a page_response =
  pgData :: "'a list"
  pgHasMore :: bool
  pgNextCursor :: string

type_synonym PaymentListResponse = "PaymentResponse page_response"

definition toPaymentResponse :: "transaction \<Rightarrow> PaymentResponse" where
  "toPaymentResponse t =
     \<lparr> prID = tID t, prReference = tReference t, prAmount = tAmount t,
       prCurrency = Currency_String (tCurrency t), prStatus = status_string (tStatus t),
       prCapturedAmount = tCapturedAmount t, prRefundedAmount = tRefundedAmount t,
       prCardLast4 = tCardLast4 t, prCardBrand = tCardBrand t, prFailureCode = tFailureCode t,
       prMetadata = tMetadata t, prAuthorizedAt = tAuthorizedAt t, prCapturedAt = tCapturedAt t,
       prSettledAt = tSettledAt t, prExpiresAt = AuthorizationExpiresAt t, prCreatedAt = tCreatedAt t \<rparr>"

record MerchantResponse =
  mrID :: string
  mrName :: string
  mrEmail :: string
  mrAPIKey :: string
  mrWebhookURL :: string
  mrStatus :: string
  mrCreatedAt :: time

record CreateMerchantResponse =
  cmpMerchant :: MerchantResponse
  cmpAPISecret :: string
  cmpWebhookSecret :: string
  cmpNotice :: string

definition toMerchantResponse :: "merchant \<Rightarrow> MerchantResponse" where
  "toMerchantResponse m =
     \<lparr> mrID = mID m, mrName = mName m, mrEmail = mEmail m, mrAPIKey = mAPIKey m,
       mrWebhookURL = mWebhookURL m, mrStatus = merchant_status_string (mStatus m),
       mrCreatedAt = mCreatedAt m \<rparr>"

record LedgerEntryResponse =
  lerID :: int
  lerEntryGroupID :: string
  lerTransactionID :: string
  lerAccount :: string
  lerDirection :: string
  lerAmount :: int
  lerCurrency :: string
  lerEventType :: string
  lerCreatedAt :: time

definition toLedgerEntryResponse :: "ledger_entry \<Rightarrow> LedgerEntryResponse" where
  "toLedgerEntryResponse e =
     \<lparr> lerID = eID e, lerEntryGroupID = eEntryGroupID e, lerTransactionID = eTransactionID e,
       lerAccount = eAccount e, lerDirection = direction_string (eDirection e), lerAmount = eAmount e,
       lerCurrency = Currency_String (eCurrency e), lerEventType = eventtype_string (eEventType e),
       lerCreatedAt = eCreatedAt e \<rparr>"

record BalanceResponse =
  brAccount :: string
  brCurrency :: string
  brDebits :: int
  brCredits :: int
  brAvailable :: int

record SettlementReportResponse =
  srDate :: string
  srMerchantID :: string
  srCurrency :: string
  srTransactionCount :: int
  srCapturedTotal :: int
  srRefundedTotal :: int
  srFeeTotal :: int
  srNetPayout :: int
  srLedgerCaptured :: int
  srLedgerRefunded :: int
  srLedgerFees :: int
  srBalanced :: bool

text \<open>The JSON encoders, and the parsers of the time and UUID packages.\<close>

record codecs =
  enError :: error_encoder
  enPayment :: "PaymentResponse \<Rightarrow> string"
  enPayments :: "PaymentListResponse \<Rightarrow> string"
  enMerchant :: "MerchantResponse \<Rightarrow> string"
  enCreated :: "CreateMerchantResponse \<Rightarrow> string"
  enLedger :: "LedgerEntryResponse page_response \<Rightarrow> string"
  enBalance :: "BalanceResponse \<Rightarrow> string"
  enSettlement :: "SettlementReportResponse \<Rightarrow> string"
  enObject :: "(string \<times> string) list \<Rightarrow> string"
  dePayment :: "CreatePaymentRequest decoder"
  deMerchant :: "CreateMerchantRequest decoder"
  deAmount :: "AmountRequest decoder"
  deEnvelope :: "string \<Rightarrow> string option"
  toUpper :: "string \<Rightarrow> string"
  parseUUID :: "string \<Rightarrow> uuid option"
  parseTime :: "string \<Rightarrow> time option"
  parseDate :: "string \<Rightarrow> time option"
  formatTime :: "time \<Rightarrow> string"

section \<open>Payments\<close>

text \<open>The answer of a service call: the error, or the encoded value.\<close>

definition respond ::
  "codecs \<Rightarrow> request \<Rightarrow> headers \<Rightarrow> int \<Rightarrow> ('a \<Rightarrow> string) \<Rightarrow> 'a result \<Rightarrow> outcome" where
  "respond cd r h status enc res =
     (case res of Inl err \<Rightarrow> writeError (enError cd) r h err | Inr v \<Rightarrow> writeJSON h status (enc v))"

definition Payments_Create ::
  "codecs \<Rightarrow> int \<Rightarrow> acquirer_port \<Rightarrow> auth_env \<Rightarrow> tx_env \<Rightarrow> pre_env \<Rightarrow> tx_env \<Rightarrow> 's handler" where
  "Payments_Create cd feeBPS acq a x p xc r h w =
     (case decodeJSON (dePayment cd) r of
        Inl err \<Rightarrow> (writeError (enError cd) r h err, w)
      | Inr req \<Rightarrow>
          (case hqMerchant r of
             None \<Rightarrow> (Panic False h, w)
           | Some merchant \<Rightarrow>
               (case ToInput (toUpper cd) (mID merchant) req of
                  Inl err \<Rightarrow> (writeError (enError cd) r h err, w)
                | Inr input \<Rightarrow>
                    (case Payment_Authorize feeBPS acq a x p xc input (wDB w) of
                       ((txn, Some err), d) \<Rightarrow> (writeError (enError cd) r h err, w\<lparr> wDB := d \<rparr>)
                     | ((Some txn, None), d) \<Rightarrow>
                         (writeJSON h 201 (enPayment cd (toPaymentResponse txn)), w\<lparr> wDB := d \<rparr>)
                     | ((None, None), d) \<Rightarrow> (Panic False h, w\<lparr> wDB := d \<rparr>)))))"

text \<open>The handlers with an identifier in the path share their first step.\<close>

definition with_id ::
  "codecs \<Rightarrow> request \<Rightarrow> headers \<Rightarrow> (uuid \<Rightarrow> 's world \<Rightarrow> outcome \<times> 's world) \<Rightarrow> 's world \<Rightarrow> outcome \<times> 's world" where
  "with_id cd r h k w =
     (case pathUUID (parseUUID cd) (hqParamID r) ''id'' of
        Inl err \<Rightarrow> (writeError (enError cd) r h err, w)
      | Inr i \<Rightarrow> k i w)"

definition Payments_Get :: "codecs \<Rightarrow> fault \<Rightarrow> 's handler" where
  "Payments_Get cd f r h =
     with_id cd r h (\<lambda>i w.
       case hqMerchant r of
         None \<Rightarrow> (Panic False h, w)
       | Some merchant \<Rightarrow>
           (respond cd r h 200 (enPayment cd \<circ> toPaymentResponse) (Payment_Get f (mID merchant) i (wDB w)), w))"

definition amount_of :: "codecs \<Rightarrow> request \<Rightarrow> Amount result" where
  "amount_of cd r = andThen (decodeOptionalJSON (deAmount cd) 0 r) AmountRequest_Validate"

definition Payments_Capture ::
  "codecs \<Rightarrow> int \<Rightarrow> acquirer_port \<Rightarrow> pre_env \<Rightarrow> tx_env \<Rightarrow> 's handler" where
  "Payments_Capture cd feeBPS acq p x r h =
     with_id cd r h (\<lambda>i w.
       case amount_of cd r of
         Inl err \<Rightarrow> (writeError (enError cd) r h err, w)
       | Inr amount \<Rightarrow>
           (case hqMerchant r of
              None \<Rightarrow> (Panic False h, w)
            | Some merchant \<Rightarrow>
                (case Payment_Capture feeBPS acq p x (mID merchant) i amount (wDB w) of
                   (res, d) \<Rightarrow> (respond cd r h 200 (enPayment cd \<circ> toPaymentResponse) res, w\<lparr> wDB := d \<rparr>))))"

definition Payments_Refund :: "codecs \<Rightarrow> acquirer_port \<Rightarrow> pre_env \<Rightarrow> tx_env \<Rightarrow> 's handler" where
  "Payments_Refund cd acq p x r h =
     with_id cd r h (\<lambda>i w.
       case amount_of cd r of
         Inl err \<Rightarrow> (writeError (enError cd) r h err, w)
       | Inr amount \<Rightarrow>
           (case hqMerchant r of
              None \<Rightarrow> (Panic False h, w)
            | Some merchant \<Rightarrow>
                (case Payment_Refund acq p x (mID merchant) i amount (wDB w) of
                   (res, d) \<Rightarrow> (respond cd r h 200 (enPayment cd \<circ> toPaymentResponse) res, w\<lparr> wDB := d \<rparr>))))"

definition Payments_Void :: "codecs \<Rightarrow> acquirer_port \<Rightarrow> pre_env \<Rightarrow> tx_env \<Rightarrow> 's handler" where
  "Payments_Void cd acq p x r h =
     with_id cd r h (\<lambda>i w.
       case hqMerchant r of
         None \<Rightarrow> (Panic False h, w)
       | Some merchant \<Rightarrow>
           (case Payment_Void acq p x (mID merchant) i (wDB w) of
              (res, d) \<Rightarrow> (respond cd r h 200 (enPayment cd \<circ> toPaymentResponse) res, w\<lparr> wDB := d \<rparr>)))"

section \<open>Listings\<close>

text \<open>
  A listing fetches one row more than the page holds: \<open>page limit xs\<close> is whether there is
  more, and the page.
\<close>

definition page :: "int \<Rightarrow> 'a list \<Rightarrow> bool \<times> 'a list" where
  "page limit xs = (if int (length xs) > limit then (True, take (nat limit) xs) else (False, xs))"

definition query :: "request \<Rightarrow> string \<Rightarrow> string" where
  "query r k = header_Get (hqQuery r) k"

definition status_filter :: "string \<Rightarrow> Status option result" where
  "status_filter raw =
     (if raw = [] then Inr None
      else (let status = statusOf raw
            in if \<not> Status_Valid status then Inl (Invalid ''status'' ''is not a known transaction status'')
               else Inr (Some status)))"

definition payment_filter :: "codecs \<Rightarrow> uuid \<Rightarrow> request \<Rightarrow> (list_filter \<times> int) result" where
  "payment_filter cd merchantID r =
     andThen (status_filter (query r ''status'')) (\<lambda>status.
     andThen (queryTime (parseTime cd) (query r ''from'') ''from'') (\<lambda>from.
     andThen (queryTime (parseTime cd) (query r ''to'') ''to'') (\<lambda>to.
     andThen (decodeCursor (parseTime cd) (parseUUID cd) (query r ''cursor'')) (\<lambda>cursor.
     andThen (queryLimit (query r ''limit'') 25 100) (\<lambda>limit.
     Inr (\<lparr> lfMerchantID = merchantID, lfStatus = status, lfFrom = from, lfTo = to, lfCursor = cursor,
            lfLimit = limit + 1 \<rparr>, limit))))))"

definition payment_page :: "codecs \<Rightarrow> int \<Rightarrow> transaction list \<Rightarrow> PaymentListResponse" where
  "payment_page cd limit txns =
     (case page limit txns of
        (hasMore, txns) \<Rightarrow>
          \<lparr> pgData = map toPaymentResponse txns, pgHasMore = hasMore,
            pgNextCursor = (if hasMore \<and> txns \<noteq> [] then
                encodeCursor (formatTime cd) (tCreatedAt (last txns)) (tID (last txns)) else []) \<rparr>)"

definition Payments_List :: "codecs \<Rightarrow> fault \<Rightarrow> 's handler" where
  "Payments_List cd f r h w =
     (case hqMerchant r of
        None \<Rightarrow> (Panic False h, w)
      | Some merchant \<Rightarrow>
          (case payment_filter cd (mID merchant) r of
             Inl err \<Rightarrow> (writeError (enError cd) r h err, w)
           | Inr (flt, limit) \<Rightarrow>
               (respond cd r h 200 (enPayments cd \<circ> payment_page cd limit) (Payment_List f flt (wDB w)), w)))"

section \<open>Merchants\<close>

definition Merchants_Create :: "codecs \<Rightarrow> aead \<Rightarrow> create_env \<Rightarrow> 's handler" where
  "Merchants_Create cd A e r h w =
     (case decodeJSON (deMerchant cd) r of
        Inl err \<Rightarrow> (writeError (enError cd) r h err, w)
      | Inr req \<Rightarrow>
          (case MerchantService_Create A e \<lparr> ciName = cmrName req, ciEmail = cmrEmail req,
                  ciWebhookURL = cmrWebhookURL req \<rparr> (wDB w) of
             Inl err \<Rightarrow> (writeError (enError cd) r h err, w)
           | Inr (created, d) \<Rightarrow>
               (writeJSON h 201 (enCreated cd
                  \<lparr> cmpMerchant = toMerchantResponse (cmMerchant created), cmpAPISecret = cmAPISecret created,
                    cmpWebhookSecret = cmWebhookSecret created,
                    cmpNotice = ''Store api_secret and webhook_secret now. They are shown once and cannot be retrieved again.'' \<rparr>),
                w\<lparr> wDB := d \<rparr>)))"

definition Merchants_Me :: "codecs \<Rightarrow> 's handler" where
  "Merchants_Me cd r h w =
     (case hqMerchant r of
        None \<Rightarrow> (Panic False h, w)
      | Some merchant \<Rightarrow> (writeJSON h 200 (enMerchant cd (toMerchantResponse merchant)), w))"

section \<open>Ledger and reports\<close>

definition ledger_filter :: "codecs \<Rightarrow> uuid \<Rightarrow> request \<Rightarrow> (entry_filter \<times> int) result" where
  "ledger_filter cd merchantID r =
     andThen (queryTime (parseTime cd) (query r ''from'') ''from'') (\<lambda>from.
     andThen (queryTime (parseTime cd) (query r ''to'') ''to'') (\<lambda>to.
     andThen (decodeLedgerCursor (query r ''cursor'')) (\<lambda>cursor.
     andThen (queryLimit (query r ''limit'') 50 200) (\<lambda>limit.
     Inr (\<lparr> efMerchantID = merchantID, efAccount = query r ''account'', efFrom = from, efTo = to,
            efCursorID = cursor, efLimit = limit + 1 \<rparr>, limit)))))"

definition ledger_page :: "int \<Rightarrow> ledger_entry list \<Rightarrow> LedgerEntryResponse page_response" where
  "ledger_page limit entries =
     (case page limit entries of
        (hasMore, entries) \<Rightarrow>
          \<lparr> pgData = map toLedgerEntryResponse entries, pgHasMore = hasMore,
            pgNextCursor = (if hasMore \<and> entries \<noteq> [] then encodeLedgerCursor (eID (last entries)) else []) \<rparr>)"

definition Ledger_Entries :: "codecs \<Rightarrow> fault \<Rightarrow> 's handler" where
  "Ledger_Entries cd f r h w =
     (case hqMerchant r of
        None \<Rightarrow> (Panic False h, w)
      | Some merchant \<Rightarrow>
          (case ledger_filter cd (mID merchant) r of
             Inl err \<Rightarrow> (writeError (enError cd) r h err, w)
           | Inr (flt, limit) \<Rightarrow>
               (respond cd r h 200 (enLedger cd \<circ> ledger_page limit) (LedgerService_Entries f flt (wDB w)), w)))"

definition toBalanceResponse :: "Balance \<Rightarrow> BalanceResponse" where
  "toBalanceResponse b =
     \<lparr> brAccount = bAccount b, brCurrency = Currency_String (bCurrency b), brDebits = bDebits b,
       brCredits = bCredits b, brAvailable = Balance_Available b \<rparr>"

definition Ledger_Balance :: "codecs \<Rightarrow> fault \<Rightarrow> 's handler" where
  "Ledger_Balance cd f r h w =
     (case hqMerchant r of
        None \<Rightarrow> (Panic False h, w)
      | Some merchant \<Rightarrow>
          (respond cd r h 200 (enBalance cd \<circ> toBalanceResponse)
             (LedgerService_Balance f (mID merchant) (currencyOf (query r ''currency'')) (wDB w)), w))"

definition toSettlementResponse :: "time \<Rightarrow> uuid \<Rightarrow> MerchantSummary \<Rightarrow> SettlementReportResponse" where
  "toSettlementResponse date merchantID s =
     \<lparr> srDate = format_date date, srMerchantID = merchantID, srCurrency = Currency_String (msCurrency s),
       srTransactionCount = msTransactionCount s, srCapturedTotal = msCapturedTotal s,
       srRefundedTotal = msRefundedTotal s, srFeeTotal = msFeeTotal s, srNetPayout = msNetPayout s,
       srLedgerCaptured = msLedgerCaptured s, srLedgerRefunded = msLedgerRefunded s,
       srLedgerFees = msLedgerFees s, srBalanced = msBalanced s \<rparr>"

definition Ledger_Settlement :: "codecs \<Rightarrow> int \<Rightarrow> run_env \<Rightarrow> time \<Rightarrow> 's handler" where
  "Ledger_Settlement cd feeBPS e now r h w =
     (let raw = query r ''date''; raw = (if raw = [] then format_date now else raw)
      in case parseDate cd raw of
           None \<Rightarrow> (writeError (enError cd) r h (Invalid ''date'' ''must be YYYY-MM-DD''), w)
         | Some date \<Rightarrow>
             (case hqMerchant r of
                None \<Rightarrow> (Panic False h, w)
              | Some merchant \<Rightarrow>
                  (respond cd r h 200 (enSettlement cd \<circ> toSettlementResponse date (mID merchant))
                     (SettlementReport feeBPS e date (mID merchant) (wDB w)), w)))"

section \<open>System endpoints\<close>

definition Healthz :: "codecs \<Rightarrow> 's handler" where
  "Healthz cd r h w = (writeJSON h 200 (enObject cd [(''status'', ''ok'')]), w)"

definition probe :: "string \<Rightarrow> fault \<Rightarrow> string \<times> string" where
  "probe name f = (name, case f of Some err \<Rightarrow> ''error: '' @ error_text err | None \<Rightarrow> ''ok'')"

text \<open>The pings are parameters; the nested object of checks is flattened.\<close>

definition Readyz :: "codecs \<Rightarrow> fault \<Rightarrow> fault \<Rightarrow> 's handler" where
  "Readyz cd pg rd r h w =
     (let ready = (pg = None \<and> rd = None)
      in (writeJSON h (if ready then 200 else 503)
            (enObject cd [(''status'', if ready then ''ready'' else ''not_ready''),
               probe ''postgres'' pg, probe ''redis'' rd]), w))"

text \<open>\<open>deEnvelope\<close> gives the merchant identifier of a payload that is JSON.\<close>

definition WebhookReceiver ::
  "codecs \<Rightarrow> keyed_hash \<Rightarrow> aead \<Rightarrow> fault \<Rightarrow> time \<Rightarrow> 's handler" where
  "WebhookReceiver cd hmac A f now r h w =
     (case readAndRestoreBody r of
        Inl err \<Rightarrow> (writeJSON h 400 (enObject cd [(''error'', ''unreadable body'')]), w)
      | Inr b \<Rightarrow>
          (let body = (case b of None \<Rightarrow> [] | Some b \<Rightarrow> b)
           in case deEnvelope cd body of
             None \<Rightarrow> (writeJSON h 400 (enObject cd [(''error'', ''payload is not JSON'')]), w)
           | Some raw \<Rightarrow>
               (case parseUUID cd raw of
                  None \<Rightarrow> (writeJSON h 400 (enObject cd [(''error'', ''payload has no merchant_id'')]), w)
                | Some merchantID \<Rightarrow>
                    (case WebhookSecret A f merchantID (wDB w) of
                       Inl err \<Rightarrow> (writeJSON h 500 (enObject cd [(''error'', ''no secret'')]), w)
                     | Inr secret \<Rightarrow>
                         (case Verify hmac secret (header_Get (hqHeader r) SignatureHeader) body now (5 * 60 * Second) of
                            Inl err \<Rightarrow> (writeJSON h 401 (enObject cd [(''error'', ''invalid signature'')]), w)
                          | Inr _ \<Rightarrow> (writeJSON h 200 (enObject cd [(''status'', ''received'')]), w))))))"

end
