(* ===== verification/Router.thy ===== *)
theory Router
  imports Handlers
begin

text \<open>
  \<open>internal/transport/http/router.go\<close>: the routes and the middleware in front of them.
  The multiplexer matches the segments of the path; its own middleware (the remote address
  and the request timeout) is a parameter. The access log is left out: it changes nothing of a
  request (\<open>Logger_transparent\<close> of \<open>Recorder\<close>).
\<close>

section \<open>Routes\<close>

datatype endpoint =
    EHealthz | EReadyz | EWebhookReceiver | ECreateMerchant | EMe
  | EListPayments | EGetPayment string | EVoid string | EEntries | EBalance | ESettlement
  | ECreatePayment | ECapture string | ERefund string

text \<open>The methods and endpoints of a path, given by its segments.\<close>

fun api_endpoints :: "string list \<Rightarrow> (string \<times> endpoint) list" where
  "api_endpoints [a] =
     (if a = ''merchants'' then [(''POST'', ECreateMerchant)]
      else if a = ''payments'' then [(''GET'', EListPayments), (''POST'', ECreatePayment)] else [])"
| "api_endpoints [a, b] =
     (if a = ''merchants'' \<and> b = ''me'' then [(''GET'', EMe)]
      else if a = ''payments'' \<and> b \<noteq> [] then [(''GET'', EGetPayment b)]
      else if a = ''ledger'' \<and> b = ''entries'' then [(''GET'', EEntries)]
      else if a = ''ledger'' \<and> b = ''balance'' then [(''GET'', EBalance)]
      else if a = ''reports'' \<and> b = ''settlement'' then [(''GET'', ESettlement)] else [])"
| "api_endpoints [a, b, c] =
     (if a = ''payments'' \<and> b \<noteq> [] then
        (if c = ''void'' then [(''POST'', EVoid b)]
         else if c = ''capture'' then [(''POST'', ECapture b)]
         else if c = ''refund'' then [(''POST'', ERefund b)] else [])
      else [])"
| "api_endpoints _ = []"

definition endpoints_at :: "string \<Rightarrow> (string \<times> endpoint) list" where
  "endpoints_at path =
     (let segs = Split CHR ''/'' path
      in if segs = [[], ''healthz''] then [(''GET'', EHealthz)]
         else if segs = [[], ''readyz''] then [(''GET'', EReadyz)]
         else if segs = [[], ''internal'', ''webhook-receiver''] then [(''POST'', EWebhookReceiver)]
         else if take 3 segs = [[], ''api'', ''v1''] then api_endpoints (drop 3 segs)
         else [])"

fun param_of :: "endpoint \<Rightarrow> string" where
  "param_of (EGetPayment i) = i"
| "param_of (EVoid i) = i"
| "param_of (ECapture i) = i"
| "param_of (ERefund i) = i"
| "param_of _ = []"

section \<open>The router\<close>

text \<open>What the process is configured with, and what one request meets.\<close>

record ('s, 'f) deps =
  dpCodecs :: codecs
  dpHmac :: keyed_hash
  dpCipher :: aead
  dpSkew :: duration
  dpAdminToken :: string
  dpFeeBPS :: int
  dpAcquirer :: acquirer_port
  dpLimiter :: "'s limiter"
  dpStore :: "'s idem_store"
  dpSha :: "string \<Rightarrow> string"
  dpJson :: "'f json_codec"
  dpChi :: "'s handler \<Rightarrow> 's handler"

record 's request_env =
  qeNewID :: uuid
  qeAuth :: auth_check
  qeAllow :: allow_env
  qeIdem :: "'s idem_env"
  qeCreate :: create_env
  qeAuthorize :: auth_env
  qeTx1 :: tx_env
  qePre :: pre_env
  qeTx2 :: tx_env
  qeRead :: fault
  qeRun :: run_env
  qePings :: "fault \<times> fault"
  qeNow :: time

definition merchant_facing :: "('s, 'f) deps \<Rightarrow> 's request_env \<Rightarrow> 's handler \<Rightarrow> 's handler" where
  "merchant_facing dp q next =
     Auth (enError (dpCodecs dp)) (dpHmac dp) (dpCipher dp) (dpSkew dp) (qeAuth q)
       (RateLimit (enError (dpCodecs dp)) (dpLimiter dp) (qeAllow q) next)"

definition money_moving :: "('s, 'f) deps \<Rightarrow> 's request_env \<Rightarrow> 's handler \<Rightarrow> 's handler" where
  "money_moving dp q next =
     merchant_facing dp q
       (Idempotency (enError (dpCodecs dp)) (dpSha dp) (dpJson dp) (dpStore dp) (qeIdem q) next)"

fun serve_endpoint :: "('s, 'f) deps \<Rightarrow> 's request_env \<Rightarrow> endpoint \<Rightarrow> 's handler" where
  "serve_endpoint dp q EHealthz = Healthz (dpCodecs dp)"
| "serve_endpoint dp q EReadyz = Readyz (dpCodecs dp) (fst (qePings q)) (snd (qePings q))"
| "serve_endpoint dp q EWebhookReceiver =
     WebhookReceiver (dpCodecs dp) (dpHmac dp) (dpCipher dp) (qeRead q) (qeNow q)"
| "serve_endpoint dp q ECreateMerchant =
     AdminAuth (enError (dpCodecs dp)) (dpAdminToken dp) (Merchants_Create (dpCodecs dp) (dpCipher dp) (qeCreate q))"
| "serve_endpoint dp q EMe = merchant_facing dp q (Merchants_Me (dpCodecs dp))"
| "serve_endpoint dp q EListPayments = merchant_facing dp q (Payments_List (dpCodecs dp) (qeRead q))"
| "serve_endpoint dp q (EGetPayment i) = merchant_facing dp q (Payments_Get (dpCodecs dp) (qeRead q))"
| "serve_endpoint dp q (EVoid i) =
     merchant_facing dp q (Payments_Void (dpCodecs dp) (dpAcquirer dp) (qePre q) (qeTx1 q))"
| "serve_endpoint dp q EEntries = merchant_facing dp q (Ledger_Entries (dpCodecs dp) (qeRead q))"
| "serve_endpoint dp q EBalance = merchant_facing dp q (Ledger_Balance (dpCodecs dp) (qeRead q))"
| "serve_endpoint dp q ESettlement =
     merchant_facing dp q (Ledger_Settlement (dpCodecs dp) (dpFeeBPS dp) (qeRun q) (qeNow q))"
| "serve_endpoint dp q ECreatePayment =
     money_moving dp q (Payments_Create (dpCodecs dp) (dpFeeBPS dp) (dpAcquirer dp) (qeAuthorize q)
       (qeTx1 q) (qePre q) (qeTx2 q))"
| "serve_endpoint dp q (ECapture i) =
     money_moving dp q (Payments_Capture (dpCodecs dp) (dpFeeBPS dp) (dpAcquirer dp) (qePre q) (qeTx1 q))"
| "serve_endpoint dp q (ERefund i) =
     money_moving dp q (Payments_Refund (dpCodecs dp) (dpAcquirer dp) (qePre q) (qeTx1 q))"

definition route_error :: "codecs \<Rightarrow> request \<Rightarrow> headers \<Rightarrow> int \<Rightarrow> string \<Rightarrow> string \<Rightarrow> outcome" where
  "route_error cd r h status code message =
     writeJSON h status (enError cd ((error_body code message TypeValidation)\<lparr> ebRequestID := hqRequestID r \<rparr>))"

definition dispatch :: "('s, 'f) deps \<Rightarrow> 's request_env \<Rightarrow> 's handler" where
  "dispatch dp q r h w =
     (case endpoints_at (hqPath r) of
        [] \<Rightarrow> (route_error (dpCodecs dp) r h 404 ''resource_not_found'' ''No route matches this path.'', w)
      | es \<Rightarrow>
          (case map_of es (hqMethod r) of
             None \<Rightarrow> (route_error (dpCodecs dp) r h 405 ''method_not_allowed'' ''This method is not allowed on this path.'', w)
           | Some e \<Rightarrow> serve_endpoint dp q e (r\<lparr> hqParamID := param_of e \<rparr>) h w))"

definition NewRouter :: "('s, 'f) deps \<Rightarrow> 's request_env \<Rightarrow> 's handler" where
  "NewRouter dp q =
     RequestID (qeNewID q) (Recoverer (enError (dpCodecs dp)) (dpChi dp (dispatch dp q)))"

end
