(* ===== verification/Paging.thy ===== *)
theory Paging
  imports Handlers
begin

text \<open>
  The listings of \<open>handler_payment.go\<close> and \<open>handler_ledger.go\<close> as a client sees them: the
  pages it gets by following \<open>next_cursor\<close> make up the whole listing, each row once.
\<close>

section \<open>Walking the pages of a listing\<close>

text \<open>A client that asks with a cursor, starting without one, until there is no more.\<close>

fun walk :: "(string \<Rightarrow> 'a page_response result) \<Rightarrow> nat \<Rightarrow> string \<Rightarrow> 'a list result" where
  "walk fetch 0 c = Inr []"
| "walk fetch (Suc n) c =
     andThen (fetch c) (\<lambda>p.
       if pgHasMore p then andThen (walk fetch n (pgNextCursor p)) (\<lambda>rest. Inr (pgData p @ rest))
       else Inr (pgData p))"

text \<open>Pages of at most \<open>limit\<close> rows, where \<open>cur k\<close> is the cursor that has passed \<open>k\<close> rows.\<close>

definition serves_pages ::
  "(nat \<Rightarrow> string) \<Rightarrow> nat \<Rightarrow> 'a list \<Rightarrow> (string \<Rightarrow> 'a page_response result) \<Rightarrow> bool" where
  "serves_pages cur limit xs fetch \<longleftrightarrow>
     (\<forall>k \<le> length xs. fetch (cur k) = Inr \<lparr> pgData = take limit (drop k xs),
        pgHasMore = (length xs > k + limit), pgNextCursor = (if length xs > k + limit then cur (k + limit) else []) \<rparr>)"

lemma walk_from:
  assumes "serves_pages cur limit xs fetch" and "0 < limit"
  shows "k \<le> length xs \<Longrightarrow> length xs < n + k \<Longrightarrow> walk fetch n (cur k) = Inr (drop k xs)"
proof (induction n arbitrary: k)
  case (Suc n)
  show ?case
  proof (cases "length xs > k + limit")
    case True
    then have "walk fetch n (cur (k + limit)) = Inr (drop (k + limit) xs)"
      using Suc assms(2) by simp
    moreover have "take limit (drop k xs) @ drop (k + limit) xs = drop k xs"
      by (metis add.commute append_take_drop_id drop_drop)
    ultimately show ?thesis using True Suc.prems assms(1) by (simp add: serves_pages_def)
  next
    case False
    with Suc.prems assms(1) show ?thesis by (simp add: serves_pages_def)
  qed
qed simp

lemmas walk_all = walk_from [where k = 0, simplified]

lemma page_of_take:
  assumes "0 < limit" and "k \<le> length xs"
  shows "page limit (take (nat (limit + 1)) (drop k xs))
    = (length xs > k + nat limit, take (nat limit) (drop k xs))"
  using assms by (auto simp: page_def min_def nat_add_distrib)

lemma last_of_page:
  assumes "0 < n" and "length xs > k + n"
  shows "last (take n (drop k xs)) = xs ! (k + n - 1)" "take n (drop k xs) \<noteq> []"
  using assms by (auto simp: last_conv_nth)

lemma queryLimit_range:
  assumes "queryLimit raw def maximum = Inr n" and "0 < def" "def \<le> maximum"
  shows "0 < n \<and> n \<le> maximum"
  using assms by (auto simp: queryLimit_def split: if_splits option.splits)

lemma clamp_page: "0 < n \<Longrightarrow> n \<le> 200 \<Longrightarrow> clamp_limit (n + 1) = nat (n + 1)"
  by (simp add: clamp_limit_def)

text \<open>The same request with another cursor.\<close>

definition with_cursor :: "request \<Rightarrow> string \<Rightarrow> request" where
  "with_cursor r c = r\<lparr> hqQuery := header_Set ''cursor'' c (hqQuery r) \<rparr>"

lemma query_with_cursor [simp]:
  "query (with_cursor r c) ''cursor'' = c"
  "k \<noteq> ''cursor'' \<Longrightarrow> query (with_cursor r c) k = query r k"
  by (simp_all add: query_def with_cursor_def)

section \<open>Payments\<close>

text \<open>The page a payment listing answers with.\<close>

definition payments_fetch :: "codecs \<Rightarrow> uuid \<Rightarrow> request \<Rightarrow> db \<Rightarrow> string \<Rightarrow> PaymentListResponse result" where
  "payments_fetch cd m r d c =
     andThen (payment_filter cd m (with_cursor r c)) (\<lambda>(flt, limit).
     andThen (Payment_List None flt d) (\<lambda>txns. Inr (payment_page cd limit txns)))"

lemma Payments_List_page:
  assumes "hqMerchant r = Some merchant"
  shows "Payments_List cd None (with_cursor r c) h w =
    (respond cd (with_cursor r c) h 200 (enPayments cd) (payments_fetch cd (mID merchant) r (wDB w) c), w)"
  using assms by (auto simp: Payments_List_def payments_fetch_def with_cursor_def respond_def andThen_def
      split: sum.splits)

definition readable_rows :: "codecs \<Rightarrow> db \<Rightarrow> bool" where
  "readable_rows cd d \<longleftrightarrow> (\<forall>t \<in> set (dbTransactions d).
     prints_time (formatTime cd) (parseTime cd) (tCreatedAt t) \<and> parseUUID cd (tID t) = Some (tID t))"

definition payment_cursor :: "codecs \<Rightarrow> transaction list \<Rightarrow> nat \<Rightarrow> string" where
  "payment_cursor cd xs k =
     (if k = 0 then [] else encodeCursor (formatTime cd) (tCreatedAt (xs ! (k - 1))) (tID (xs ! (k - 1))))"

lemma payment_filter_cursor:
  assumes "payment_filter cd m (with_cursor r []) = Inr (flt, limit)"
    and "decodeCursor (parseTime cd) (parseUUID cd) c = Inr key"
  shows "payment_filter cd m (with_cursor r c) = Inr (flt\<lparr> lfCursor := key \<rparr>, limit)"
    and "lfCursor flt = None" "lfLimit flt = limit + 1" "0 < limit" "limit \<le> 100"
  using assms queryLimit_range [of "query r ''limit''" 25 100 limit]
  by (auto simp: payment_filter_def andThen_Inr decodeCursor_def [of _ _ "[]"])

lemma payments_serve_pages:
  assumes d: "distinct_rows d" "readable_rows cd d"
    and flt: "payment_filter cd m (with_cursor r []) = Inr (flt, limit)"
  shows "serves_pages (payment_cursor cd (listing flt d)) (nat limit)
     (map toPaymentResponse (listing flt d)) (payments_fetch cd m r d)"
  unfolding serves_pages_def
proof (intro allI impI)
  let ?xs = "listing flt d"
  fix k assume k: "k \<le> length (map toPaymentResponse ?xs)"
  note f0 = payment_filter_cursor(2-5) [OF flt, of "[]" None, simplified decodeCursor_def, simplified]
  have page: "Payment_List None (flt\<lparr> lfCursor := key \<rparr>) d = Inr (take (nat (limit + 1)) (drop k ?xs))
     \<and> decodeCursor (parseTime cd) (parseUUID cd) (payment_cursor cd ?xs k) = Inr key"
    if key: "key = (if k = 0 then None else Some (tCreatedAt (?xs ! (k - 1)), tID (?xs ! (k - 1))))" for key
  proof (cases k)
    case 0
    have "flt\<lparr> lfCursor := None \<rparr> = flt" using f0(1) by simp
    with 0 key f0 show ?thesis
      by (simp add: Payment_List_def TransactionRepo_List_def listing_def no_cursor_def clamp_page
          payment_cursor_def decodeCursor_def)
  next
    case (Suc i)
    then have "?xs ! i \<in> set (dbTransactions d)" using k nth_mem [of i ?xs] by (auto simp: listing_def)
    then have "decodeCursor (parseTime cd) (parseUUID cd) (payment_cursor cd ?xs k) = Inr key"
      using d(2) key Suc by (simp add: readable_rows_def payment_cursor_def decode_encode_cursor)
    moreover have "i < length ?xs" using k Suc by simp
    ultimately show ?thesis using next_page_follows [OF d(1), of i flt] key Suc f0
      by (simp add: Payment_List_def clamp_page)
  qed
  have "payments_fetch cd m r d (payment_cursor cd ?xs k) = Inr (payment_page cd limit (take (nat (limit + 1)) (drop k ?xs)))"
    using page [OF HOL.refl] payment_filter_cursor(1) [OF flt] by (simp add: payments_fetch_def)
  also have "payment_page cd limit (take (nat (limit + 1)) (drop k ?xs)) =
    \<lparr> pgData = take (nat limit) (drop k (map toPaymentResponse ?xs)), pgHasMore = (length (map toPaymentResponse ?xs) > k + nat limit),
      pgNextCursor = (if length (map toPaymentResponse ?xs) > k + nat limit then payment_cursor cd ?xs (k + nat limit) else []) \<rparr>"
    using k f0 last_of_page [of "nat limit" k ?xs]
    by (auto simp: payment_page_def page_of_take payment_cursor_def take_map drop_map)
  finally show "payments_fetch cd m r d (payment_cursor cd ?xs k) = Inr \<dots>" .
qed

lemma fetch_merchant [simp]:
  "payments_fetch cd m (r\<lparr> hqMerchant := om \<rparr>) d c = payments_fetch cd m r d c"
  by (simp add: payments_fetch_def payment_filter_def with_cursor_def query_def)

section \<open>Ledger entries\<close>

definition entries_fetch :: "codecs \<Rightarrow> uuid \<Rightarrow> request \<Rightarrow> db \<Rightarrow> string \<Rightarrow> LedgerEntryResponse page_response result" where
  "entries_fetch cd m r d c =
     andThen (ledger_filter cd m (with_cursor r c)) (\<lambda>(flt, limit).
     andThen (LedgerService_Entries None flt d) (\<lambda>entries. Inr (ledger_page limit entries)))"

lemma Ledger_Entries_page:
  assumes "hqMerchant r = Some merchant"
  shows "Ledger_Entries cd None (with_cursor r c) h w =
    (respond cd (with_cursor r c) h 200 (enLedger cd) (entries_fetch cd (mID merchant) r (wDB w) c), w)"
  using assms by (auto simp: Ledger_Entries_def entries_fetch_def with_cursor_def respond_def andThen_def
      split: sum.splits)

lemma entries_fetch_merchant [simp]:
  "entries_fetch cd m (r\<lparr> hqMerchant := om \<rparr>) d c = entries_fetch cd m r d c"
  by (simp add: entries_fetch_def ledger_filter_def with_cursor_def query_def)

definition entry_listing :: "entry_filter \<Rightarrow> db \<Rightarrow> ledger_entry list" where
  "entry_listing f d = rev (sort_key eID (filter (entry_matches (f\<lparr> efCursorID := None \<rparr>)) (dbLedger d)))"

definition entry_cursor :: "ledger_entry list \<Rightarrow> nat \<Rightarrow> string" where
  "entry_cursor xs k = (if k = 0 then [] else encodeLedgerCursor (eID (xs ! (k - 1))))"

text \<open>The numbers of the journal are those of a BIGSERIAL column.\<close>

definition numbered :: "db \<Rightarrow> bool" where
  "numbered d \<longleftrightarrow> distinct (map eID (dbLedger d)) \<and> (\<forall>e \<in> set (dbLedger d). in64 (eID e))"

lemma next_entries_follow:
  assumes "numbered d" and "i < length (entry_listing f d)"
  shows "ListEntries None (f\<lparr> efCursorID := Some (eID (entry_listing f d ! i)) \<rparr>) d
    = Inr (take (clamp_limit (efLimit f)) (drop (Suc i) (entry_listing f d)))"
proof -
  let ?xs = "filter (entry_matches (f\<lparr> efCursorID := None \<rparr>)) (dbLedger d)"
  have "distinct (map eID ?xs)" using assms(1) by (simp add: numbered_def distinct_map_filter)
  moreover have "i < length ?xs" using assms(2) by (simp add: entry_listing_def)
  ultimately have "rev (sort_key eID (filter (\<lambda>e. eID e < eID (entry_listing f d ! i)) ?xs)) = drop (Suc i) (entry_listing f d)"
    using page_after [of eID ?xs i] by (simp add: entry_listing_def)
  moreover have "filter (\<lambda>e. eID e < eID (entry_listing f d ! i)) ?xs
      = filter (entry_matches (f\<lparr> efCursorID := Some (eID (entry_listing f d ! i)) \<rparr>)) (dbLedger d)"
    by (auto simp: entry_matches_def intro!: filter_cong)
  ultimately show ?thesis by (simp add: ListEntries_def)
qed

lemma ledger_filter_cursor:
  assumes "ledger_filter cd m (with_cursor r []) = Inr (flt, limit)"
    and "decodeLedgerCursor c = Inr key"
  shows "ledger_filter cd m (with_cursor r c) = Inr (flt\<lparr> efCursorID := key \<rparr>, limit)"
    and "efCursorID flt = None" "efLimit flt = limit + 1" "0 < limit" "limit \<le> 200"
  using assms queryLimit_range [of "query r ''limit''" 50 200 limit]
  by (auto simp: ledger_filter_def andThen_Inr decodeLedgerCursor_def [of "[]"])

lemma entries_serve_pages:
  assumes d: "numbered d" and flt: "ledger_filter cd m (with_cursor r []) = Inr (flt, limit)"
  shows "serves_pages (entry_cursor (entry_listing flt d)) (nat limit)
     (map toLedgerEntryResponse (entry_listing flt d)) (entries_fetch cd m r d)"
  unfolding serves_pages_def
proof (intro allI impI)
  let ?xs = "entry_listing flt d"
  fix k assume k: "k \<le> length (map toLedgerEntryResponse ?xs)"
  note f0 = ledger_filter_cursor(2-5) [OF flt, of "[]" None, simplified decodeLedgerCursor_def, simplified]
  have page: "LedgerService_Entries None (flt\<lparr> efCursorID := key \<rparr>) d = Inr (take (nat (limit + 1)) (drop k ?xs))
     \<and> decodeLedgerCursor (entry_cursor ?xs k) = Inr key"
    if key: "key = (if k = 0 then None else Some (eID (?xs ! (k - 1))))" for key
  proof (cases k)
    case 0
    with key f0 show ?thesis
      by (simp add: LedgerService_Entries_def ListEntries_def entry_listing_def clamp_page
          entry_cursor_def decodeLedgerCursor_def)
  next
    case (Suc i)
    then have "?xs ! i \<in> set (dbLedger d)" using k nth_mem [of i ?xs] by (auto simp: entry_listing_def)
    then have "decodeLedgerCursor (entry_cursor ?xs k) = Inr key"
      using d key Suc by (simp add: numbered_def entry_cursor_def decode_encode_ledger_cursor)
    moreover have "i < length ?xs" using k Suc by simp
    ultimately show ?thesis using next_entries_follow [OF d, of i flt] key Suc f0
      by (simp add: LedgerService_Entries_def clamp_page)
  qed
  have "entries_fetch cd m r d (entry_cursor ?xs k) = Inr (ledger_page limit (take (nat (limit + 1)) (drop k ?xs)))"
    using page [OF HOL.refl] ledger_filter_cursor(1) [OF flt] by (simp add: entries_fetch_def)
  also have "ledger_page limit (take (nat (limit + 1)) (drop k ?xs)) =
    \<lparr> pgData = take (nat limit) (drop k (map toLedgerEntryResponse ?xs)), pgHasMore = (length (map toLedgerEntryResponse ?xs) > k + nat limit),
      pgNextCursor = (if length (map toLedgerEntryResponse ?xs) > k + nat limit then entry_cursor ?xs (k + nat limit) else []) \<rparr>"
    using k f0 last_of_page [of "nat limit" k ?xs]
    by (auto simp: ledger_page_def page_of_take entry_cursor_def take_map drop_map)
  finally show "entries_fetch cd m r d (entry_cursor ?xs k) = Inr \<dots>" .
qed

section \<open>Properties\<close>

text \<open>
  C32. Following the cursors of a listing gives the listing: a client that starts without a
  cursor and asks again with each \<open>next_cursor\<close> gets every payment of the merchant that
  passes the filter, newest first and each once, and every entry of its journal, whatever page
  size it asks for; it is told to stop after at most as many requests as there are rows. Each
  request is answered with exactly the page it fetches.
\<close>

theorem paging_is_complete:
  assumes "distinct_rows d" and "readable_rows cd d" and "numbered d"
    and "payment_filter cd m (with_cursor r []) = Inr (flt, limit)"
    and "ledger_filter cd m (with_cursor r []) = Inr (eflt, elimit)"
    and "length (dbTransactions d) < n" and "length (dbLedger d) < n"
  shows "walk (payments_fetch cd m r d) n [] = Inr (map toPaymentResponse (listing flt d))
    \<and> walk (entries_fetch cd m r d) n [] = Inr (map toLedgerEntryResponse (entry_listing eflt d))
    \<and> (\<forall>c h merchant w. mID merchant = m \<and> wDB w = d \<longrightarrow>
         Payments_List cd None (with_cursor (r\<lparr> hqMerchant := Some merchant \<rparr>) c) h w
           = (respond cd (with_cursor (r\<lparr> hqMerchant := Some merchant \<rparr>) c) h 200 (enPayments cd) (payments_fetch cd m r d c), w)
       \<and> Ledger_Entries cd None (with_cursor (r\<lparr> hqMerchant := Some merchant \<rparr>) c) h w
           = (respond cd (with_cursor (r\<lparr> hqMerchant := Some merchant \<rparr>) c) h 200 (enLedger cd) (entries_fetch cd m r d c), w))"
proof (intro conjI allI impI)
  have "0 < nat limit" "0 < nat elimit"
    using payment_filter_cursor(4) [OF assms(4), of "[]" None] ledger_filter_cursor(4) [OF assms(5), of "[]" None]
    by (simp_all add: decodeCursor_def decodeLedgerCursor_def)
  moreover have "length (listing flt d) < n" "length (entry_listing eflt d) < n"
    using assms(6,7) by (simp_all add: listing_def entry_listing_def le_less_trans [OF length_filter_le])
  ultimately show "walk (payments_fetch cd m r d) n [] = Inr (map toPaymentResponse (listing flt d))"
    "walk (entries_fetch cd m r d) n [] = Inr (map toLedgerEntryResponse (entry_listing eflt d))"
    using walk_all [OF payments_serve_pages [OF assms(1,2,4)], of n] walk_all [OF entries_serve_pages [OF assms(3,5)], of n]
    by (simp_all add: payment_cursor_def entry_cursor_def)
  fix c h and merchant :: merchant and w :: "'a world" assume "mID merchant = m \<and> wDB w = d"
  then show "Payments_List cd None (with_cursor (r\<lparr> hqMerchant := Some merchant \<rparr>) c) h w
      = (respond cd (with_cursor (r\<lparr> hqMerchant := Some merchant \<rparr>) c) h 200 (enPayments cd) (payments_fetch cd m r d c), w)"
    "Ledger_Entries cd None (with_cursor (r\<lparr> hqMerchant := Some merchant \<rparr>) c) h w
      = (respond cd (with_cursor (r\<lparr> hqMerchant := Some merchant \<rparr>) c) h 200 (enLedger cd) (entries_fetch cd m r d c), w)"
    using Payments_List_page [of "r\<lparr> hqMerchant := Some merchant \<rparr>" merchant cd c h w]
      Ledger_Entries_page [of "r\<lparr> hqMerchant := Some merchant \<rparr>" merchant cd c h w] by simp_all
qed

text \<open>Two payments and a page size of one.\<close>

definition demo_codecs :: codecs where
  "demo_codecs = \<lparr> enError = ebCode, enPayment = prID, enPayments = pgNextCursor, enMerchant = mrID,
     enCreated = cmpAPISecret, enLedger = pgNextCursor, enBalance = brAccount, enSettlement = srDate,
     enObject = (\<lambda>kvs. concat (map snd kvs)), dePayment = (\<lambda>_. Inl EOFError),
     deMerchant = (\<lambda>_. Inr (\<lparr> cmrName = ''Shop'', cmrEmail = ''s@hop'', cmrWebhookURL = ''http://shop/'' \<rparr>, False)),
     deAmount = (\<lambda>_. Inr (0, False)), deEnvelope = Some, toUpper = id, parseUUID = Some,
     parseTime = ParseInt, parseDate = ParseInt, formatTime = show_int \<rparr>"

definition demo_http :: "string \<Rightarrow> string \<Rightarrow> headers \<Rightarrow> request" where
  "demo_http method path hs = \<lparr> hqMethod = method, hqPath = path, hqHeader = hs, hqQuery = [],
     hqBody = Some (Inr ''{}''), hqContentLength = 2, hqParamID = [], hqRequestID = [], hqMerchant = None,
     hqRawBody = None \<rparr>"

definition demo_pages :: db where
  "demo_pages = \<lparr> dbMerchants = [], dbTransactions = [demo_txn, demo_txn\<lparr> tID := ''t2'' \<rparr>], dbLedger = [],
     dbLedgerSeq = 0, dbWebhooks = [] \<rparr>"

theorem paging_is_complete_witness:
  "walk (payments_fetch demo_codecs ''m1'' (demo_http ''GET'' [] []\<lparr> hqQuery := [(''limit'', ''1'')] \<rparr>) demo_pages) 3 []
     = Inr (map toPaymentResponse [demo_txn\<lparr> tID := ''t2'' \<rparr>, demo_txn])"
proof -
  let ?r = "demo_http ''GET'' [] []\<lparr> hqQuery := [(''limit'', ''1'')] \<rparr>"
  let ?f = "\<lparr> lfMerchantID = ''m1'', lfStatus = None, lfFrom = None, lfTo = None, lfCursor = None, lfLimit = 2 \<rparr>"
  let ?e = "\<lparr> efMerchantID = ''m1'', efAccount = [], efFrom = None, efTo = None, efCursorID = None, efLimit = 2 \<rparr>"
  have d: "distinct_rows demo_pages" "numbered demo_pages" "readable_rows demo_codecs demo_pages"
    by (simp_all add: distinct_rows_def numbered_def readable_rows_def demo_pages_def demo_txn_def demo_codecs_def
        prints_time_def ParseInt_show_int in64_def) (code_simp)?
  have f: "payment_filter demo_codecs ''m1'' (with_cursor ?r []) = Inr (?f, 1)"
    "ledger_filter demo_codecs ''m1'' (with_cursor ?r []) = Inr (?e, 1)"
    by code_simp+
  have l: "listing ?f demo_pages = [demo_txn\<lparr> tID := ''t2'' \<rparr>, demo_txn]"
    by (simp add: listing_def no_cursor_def list_matches_def opt_le_def opt_ge_def demo_txn_def demo_pages_def
        less_char_def less_eq_char_def)
  have n: "length (dbTransactions demo_pages) < 3" "length (dbLedger demo_pages) < 3"
    by (simp_all add: demo_pages_def)
  from paging_is_complete [OF d(1,3,2) f n, THEN conjunct1] show ?thesis by (simp only: l)
qed

end
