(* ===== verification/Idem_Safety.thy ===== *)
theory Idem_Safety
  imports Middleware
begin

text \<open>
  What the idempotency records guarantee: of the requests with one key at most one handler is
  running or has a stored answer, a retry gets the stored answer and does not run the
  handler, and what happens when the answer could not be stored.
\<close>

section \<open>Holders of a key\<close>

text \<open>
  A key is held by a request whose handler is running since it claimed the key, or by an
  answer since it was stored. The state is the server, the time and the holders.
\<close>

datatype holder = Running string time | Stored string time

fun hKey :: "holder \<Rightarrow> string" where "hKey (Running k t) = k" | "hKey (Stored k t) = k"
fun hSince :: "holder \<Rightarrow> time" where "hSince (Running k t) = t" | "hSince (Stored k t) = t"

record 's idem_sys =
  isServer :: 's
  isNow :: time
  isHolders :: "holder list"

text \<open>
  The commands of the requests in any order. A request that has won the key finishes within
  the time to live of its claim.
\<close>

inductive idem_step :: "'s idem_store \<Rightarrow> 's idem_sys \<Rightarrow> 's idem_sys \<Rightarrow> bool" for st where
  won: "Begin st e key fp (isServer y) = (Inr None, s') \<Longrightarrow> isNow y \<le> bnClaim e \<Longrightarrow>
    idem_step st y \<lparr> isServer = s', isNow = bnClaim e, isHolders = Running key (bnClaim e) # isHolders y \<rparr>"
| lost: "rdSetNX (stRedis st) t key payload (stTTL st) (isServer y) = (r, s') \<Longrightarrow> r \<noteq> Inr True \<Longrightarrow> isNow y \<le> t \<Longrightarrow>
    idem_step st y (y\<lparr> isServer := s', isNow := t \<rparr>)"
| read: "idem_Get st t key (isServer y) = (ro, s') \<Longrightarrow> isNow y \<le> t \<Longrightarrow>
    idem_step st y (y\<lparr> isServer := s', isNow := t \<rparr>)"
| stored: "Running key t0 \<in> set (isHolders y) \<Longrightarrow> isNow y \<le> t \<Longrightarrow> t < t0 + stTTL st \<Longrightarrow>
    Complete st n t key fp code ct body (isServer y) = (Inr (), s') \<Longrightarrow>
    idem_step st y \<lparr> isServer = s', isNow = t,
      isHolders = Stored key t # remove1 (Running key t0) (isHolders y) \<rparr>"
| unstored: "Running key t0 \<in> set (isHolders y) \<Longrightarrow> isNow y \<le> t \<Longrightarrow> t < t0 + stTTL st \<Longrightarrow>
    Complete st n t key fp code ct body (isServer y) = (Inl err, s') \<Longrightarrow>
    idem_step st y \<lparr> isServer = s', isNow = t, isHolders = remove1 (Running key t0) (isHolders y) \<rparr>"
| released: "Running key t0 \<in> set (isHolders y) \<Longrightarrow> isNow y \<le> t \<Longrightarrow> t < t0 + stTTL st \<Longrightarrow>
    Release st t key (isServer y) = (ru, s') \<Longrightarrow>
    idem_step st y \<lparr> isServer = s', isNow = t, isHolders = remove1 (Running key t0) (isHolders y) \<rparr>"
| time: "isNow y \<le> t \<Longrightarrow> idem_step st y (y\<lparr> isNow := t \<rparr>)"

definition holds :: "duration \<Rightarrow> time \<Rightarrow> string \<Rightarrow> holder \<Rightarrow> bool" where
  "holds ttl now key x \<longleftrightarrow> hKey x = key \<and> now < hSince x + ttl"

definition idem_inv :: "('s \<Rightarrow> keyspace) \<Rightarrow> duration \<Rightarrow> 's idem_sys \<Rightarrow> bool" where
  "idem_inv view ttl y \<longleftrightarrow>
     (\<forall>x \<in> set (isHolders y). isNow y < hSince x + ttl \<longrightarrow>
        (\<exists>p. view (isServer y) (hKey x) = Some (p, hSince x + ttl)))
     \<and> (\<forall>key. length (filter (holds ttl (isNow y) key) (isHolders y)) \<le> 1)"

lemma holds_earlier: "holds ttl t key x \<Longrightarrow> now \<le> t \<Longrightarrow> holds ttl now key x"
  by (auto simp: holds_def)

lemma filter_length_mono: "(\<And>x. P x \<Longrightarrow> Q x) \<Longrightarrow> length (filter P xs) \<le> length (filter Q xs)"
  by (induction xs) (auto intro: le_SucI)

text \<open>A holder of a key, once removed, leaves nobody who holds it.\<close>

lemma sole_holder:
  assumes "length (filter P xs) \<le> 1" and "x \<in> set xs" and "P x"
  shows "filter P (remove1 x xs) = []"
proof -
  have "length (filter P (remove1 x xs)) = length (filter P xs) - 1"
    using assms(2,3) by (simp add: filter_remove1 length_remove1)
  with assms(1) show ?thesis by simp
qed

section \<open>The commands behind the store\<close>

lemma Begin_won:
  "Begin st e key fp s = (Inr None, s') \<Longrightarrow>
     \<exists>payload. rcMarshal (stCodec st) (claim_record fp (bnNow e)) = Inr payload
       \<and> rdSetNX (stRedis st) (bnClaim e) key payload (stTTL st) s = (Inr True, s')"
  by (auto simp: Begin_def split: sum.splits prod.splits bool.splits option.splits if_splits)

lemma Complete_set:
  "Complete st n t key fp code ct body s = (r, s') \<Longrightarrow>
     (s' = s \<and> isl r) \<or> (\<exists>p ru. rcMarshal (stCodec st) (completed_record fp code ct body n) = Inr p
       \<and> rdSet (stRedis st) t key p (stTTL st) s = (ru, s') \<and> isl ru = isl r)"
  by (auto simp: Complete_def isl_def split: sum.splits prod.splits)

lemma Release_del: "Release st t key s = (r, s') \<Longrightarrow> \<exists>ru. rdDel (stRedis st) t key s = (ru, s')"
  by (auto simp: Release_def split: sum.splits prod.splits)

lemma idem_Get_get: "idem_Get st t key s = (r, s') \<Longrightarrow> \<exists>ro. rdGet (stRedis st) t key s = (ro, s')"
  by (auto simp: idem_Get_def split: sum.splits prod.splits option.splits)

section \<open>At most one holder\<close>

context redis_server
begin

text \<open>Nobody who holds a key at \<open>t\<close> loses it by a change of another key.\<close>

lemma inv_frame:
  assumes inv: "idem_inv view ttl y" and now: "isNow y \<le> t"
    and view: "\<And>k. k \<noteq> key \<Longrightarrow> view s' k = view (isServer y) k"
    and sub: "set hs \<subseteq> set (isHolders y)" "\<And>P. length (filter P hs) \<le> length (filter P (isHolders y))"
    and own: "view s' key = view (isServer y) key \<or> filter (holds ttl t key) hs = []"
  shows "idem_inv view ttl \<lparr> isServer = s', isNow = t, isHolders = hs \<rparr>"
proof -
  have "\<exists>p. view s' (hKey x) = Some (p, hSince x + ttl)" if x: "x \<in> set hs" "t < hSince x + ttl" for x
  proof -
    have "\<exists>p. view (isServer y) (hKey x) = Some (p, hSince x + ttl)"
      using inv x sub(1) now by (force simp: idem_inv_def)
    moreover have "view s' (hKey x) = view (isServer y) (hKey x)"
      using view own x by (cases "hKey x = key") (auto simp: filter_empty_conv holds_def)
    ultimately show ?thesis by simp
  qed
  moreover have "length (filter (holds ttl t k) hs) \<le> 1" for k
  proof -
    have "length (filter (holds ttl t k) hs) \<le> length (filter (holds ttl t k) (isHolders y))" by (rule sub(2))
    also have "\<dots> \<le> length (filter (holds ttl (isNow y) k) (isHolders y))"
      using holds_earlier [OF _ now] by (rule filter_length_mono)
    also have "\<dots> \<le> 1" using inv by (simp add: idem_inv_def)
    finally show ?thesis .
  qed
  ultimately show ?thesis by (simp add: idem_inv_def)
qed

text \<open>A new holder of a key that nobody holds.\<close>

lemma inv_new:
  assumes inv: "idem_inv view ttl \<lparr> isServer = s', isNow = t, isHolders = hs \<rparr>"
    and free: "filter (holds ttl t (hKey x)) hs = []" and x: "view s' (hKey x) = Some (p, hSince x + ttl)"
  shows "idem_inv view ttl \<lparr> isServer = s', isNow = t, isHolders = x # hs \<rparr>"
proof -
  have "length (filter (holds ttl t k) (x # hs)) \<le> 1" for k
    using inv free by (cases "k = hKey x") (auto simp: idem_inv_def holds_def [of ttl t k x])
  then show ?thesis using inv x by (auto simp: idem_inv_def)
qed

lemma no_holder:
  assumes inv: "idem_inv view ttl y" and now: "isNow y \<le> t" and "live (view (isServer y)) t key = None"
  shows "filter (holds ttl t key) (isHolders y) = []"
proof -
  have False if x: "x \<in> set (isHolders y)" "hKey x = key" "t < hSince x + ttl" for x
  proof -
    have "isNow y < hSince x + ttl" using x(3) now by simp
    then obtain p where "view (isServer y) key = Some (p, hSince x + ttl)"
      using inv x(1,2) by (auto simp: idem_inv_def)
    with assms(3) x(3) show False by (simp add: live_def)
  qed
  then show ?thesis by (auto simp: filter_empty_conv holds_def)
qed

text \<open>A running request that gives up its key leaves it to nobody.\<close>

lemma inv_leave:
  assumes inv: "idem_inv view ttl y" and run: "Running key t0 \<in> set (isHolders y)"
    and t: "isNow y \<le> t" "t < t0 + ttl" and view: "\<And>k. k \<noteq> key \<Longrightarrow> view s' k = view (isServer y) k"
  defines "hs \<equiv> remove1 (Running key t0) (isHolders y)"
  shows "idem_inv view ttl \<lparr> isServer = s', isNow = t, isHolders = hs \<rparr>"
    and "filter (holds ttl t key) hs = []"
proof -
  have "length (filter (holds ttl (isNow y) key) (isHolders y)) \<le> 1" using inv by (simp add: idem_inv_def)
  then have "filter (holds ttl (isNow y) key) hs = []"
    unfolding hs_def using run by (rule sole_holder) (use t in \<open>simp add: holds_def\<close>)
  then show free: "filter (holds ttl t key) hs = []"
    using holds_earlier [OF _ t(1)] by (auto simp: filter_empty_conv)
  show "idem_inv view ttl \<lparr> isServer = s', isNow = t, isHolders = hs \<rparr>"
    by (rule inv_frame [OF inv t(1) view])
      (use free in \<open>auto simp: hs_def filter_remove1 length_remove1 dest: notin_set_remove1 set_mp [OF set_remove1_subset]\<close>)
qed

lemma idem_step_inv:
  assumes st: "stRedis st = c" and step: "idem_step st y y'" and inv: "idem_inv view (stTTL st) y"
  shows "idem_inv view (stTTL st) y'"
  using step
proof cases
  case (won e key fp s')
  obtain payload where "rdSetNX c (bnClaim e) key payload (stTTL st) (isServer y) = (Inr True, s')"
    using Begin_won [OF won(2)] st by auto
  from SetNX_won [OF this] have v: "live (view (isServer y)) (bnClaim e) key = None"
    "view s' = put key payload (bnClaim e + stTTL st) (view (isServer y))" by auto
  note free = no_holder [OF inv won(3) v(1)]
  have "idem_inv view (stTTL st) \<lparr> isServer = s', isNow = bnClaim e, isHolders = isHolders y \<rparr>"
    by (rule inv_frame [OF inv won(3), where key = key]) (use free v(2) in \<open>auto simp: put_def\<close>)
  then show ?thesis unfolding won(1)
    by (rule inv_new) (use free v(2) in \<open>auto simp: put_def\<close>)
next
  case (lost t key payload r s')
  from SetNX_cases [OF lost(2) [unfolded st]] no_holder [OF inv lost(4)]
  have "idem_inv view (stTTL st) \<lparr> isServer = s', isNow = t, isHolders = isHolders y \<rparr>"
    by (intro inv_frame [OF inv lost(4), where key = key]) (auto simp: put_def)
  then show ?thesis by (simp add: lost(1) idem_inv_def)
next
  case (read t key ro s')
  from idem_Get_get [OF read(2)] Get_answer st have "view s' = view (isServer y)" by metis
  then have "idem_inv view (stTTL st) \<lparr> isServer = s', isNow = t, isHolders = isHolders y \<rparr>"
    by (intro inv_frame [OF inv read(3)]) auto
  then show ?thesis by (simp add: read(1) idem_inv_def)
next
  case (stored key t0 t n fp code ct body s')
  from Complete_set [OF stored(5)] st obtain p ru where "rdSet c t key p (stTTL st) (isServer y) = (ru, s')" "\<not> isl ru"
    by auto
  then have "rdSet c t key p (stTTL st) (isServer y) = (Inr (), s')" by (cases ru) auto
  from Set [OF this] have v: "view s' = put key p (t + stTTL st) (view (isServer y))" by (simp add: settles_def)
  note l = inv_leave [OF inv stored(2-4), of s']
  have "idem_inv view (stTTL st) \<lparr> isServer = s', isNow = t, isHolders = remove1 (Running key t0) (isHolders y) \<rparr>"
    using l(1) v by (simp add: put_def)
  then show ?thesis unfolding stored(1)
    by (rule inv_new) (use l(2) v in \<open>auto simp: put_def\<close>)
next
  case (unstored key t0 t n fp code ct body err s')
  have "view s' k = view (isServer y) k" if "k \<noteq> key" for k
    using Complete_set [OF unstored(5)] Set [of t key _ "stTTL st" "isServer y"] st that
    by (fastforce simp: settles_def put_def split: sum.splits)
  from inv_leave(1) [OF inv unstored(2-4) this] show ?thesis by (simp add: unstored(1))
next
  case (released key t0 t ru s')
  have "view s' k = view (isServer y) k" if "k \<noteq> key" for k
    using Release_del [OF released(5)] Del [of t key "isServer y"] st that
    by (fastforce simp: settles_def split: sum.splits)
  from inv_leave(1) [OF inv released(2-4) this] show ?thesis by (simp add: released(1))
next
  case (time t)
  have "idem_inv view (stTTL st) \<lparr> isServer = isServer y, isNow = t, isHolders = isHolders y \<rparr>"
    by (intro inv_frame [OF inv time(2)]) auto
  then show ?thesis by (simp add: time(1) idem_inv_def)
qed

lemma idem_run_inv:
  assumes "stRedis st = c" and "(idem_step st)\<^sup>*\<^sup>* y0 y" and "isHolders y0 = []"
  shows "idem_inv view (stTTL st) y"
  using assms(2)
proof (induction rule: rtranclp_induct)
  case base
  then show ?case using assms(3) by (simp add: idem_inv_def)
next
  case (step y y')
  then show ?case using idem_step_inv [OF assms(1)] by blast
qed

lemma taken_not_claimed:
  assumes "stRedis st = c" and "live (view s) (bnClaim e) key \<noteq> None"
  shows "fst (Begin st e key fp s) \<noteq> Inr None"
proof
  assume "fst (Begin st e key fp s) = Inr None"
  then obtain s' where "Begin st e key fp s = (Inr None, s')" by (metis prod.collapse)
  from Begin_won [OF this] assms(1) obtain payload where
    "rdSetNX c (bnClaim e) key payload (stTTL st) s = (Inr True, s')" by auto
  from SetNX_won [OF this] assms(2) show False by simp
qed

end

text \<open>The outcome of a request that does not win its key does not depend on the handler.\<close>

lemma handler_not_run:
  assumes "hqMerchant r = Some m" and "idem_body r = Inr body"
    and "fst (Begin st (ieBegin e) (idem_Key (mID m) (header_Get (hqHeader r) ''Idempotency-Key''))
           (Fingerprint sha jc body) (wRedis w)) \<noteq> Inr None"
  shows "Idempotency enc sha jc st e next r h w = Idempotency enc sha jc st e next' r h w"
  using assms by (auto simp: Idempotency_def Let_def split: prod.splits sum.splits option.splits)

text \<open>
  C4. One holder per key. Whatever the order of the commands of concurrent requests and
  whatever errors Redis answers with, a key is held by at most one request with a running
  handler or one stored answer at any time, as long as handlers return within the time to
  live of their claim.
\<close>

theorem one_holder_per_key:
  assumes "redis_server c view" and "isHolders y0 = []"
    and "(idem_step (NewStore c rc ttl))\<^sup>*\<^sup>* y0 y"
  shows "length (filter (holds (stTTL (NewStore c rc ttl)) (isNow y) key) (isHolders y)) \<le> 1"
proof -
  have "stRedis (NewStore c rc ttl) = c" by (simp add: NewStore_def)
  from redis_server.idem_run_inv [OF assms(1) this assms(3,2)] show ?thesis by (simp add: idem_inv_def)
qed

text \<open>
  C5. The handler runs at most once. While a request with a key is running, or its answer is
  stored, no other request with that key runs its handler, whichever endpoint it is for: its
  outcome and its effect are the same for every handler.
\<close>

theorem no_second_run:
  assumes "redis_server c view" and "isHolders y0 = []"
    and "(idem_step (NewStore c rc ttl))\<^sup>*\<^sup>* y0 y" and "x \<in> set (isHolders y)"
    and "hqMerchant r = Some m" and "idem_Key (mID m) (header_Get (hqHeader r) ''Idempotency-Key'') = hKey x"
    and "isNow y \<le> bnClaim (ieBegin e)" and "bnClaim (ieBegin e) < hSince x + stTTL (NewStore c rc ttl)"
    and "wRedis w = isServer y"
  shows "Idempotency enc sha jc (NewStore c rc ttl) e next r h w
    = Idempotency enc sha jc (NewStore c rc ttl) e next' r h w"
proof (cases "idem_body r")
  case (Inl err)
  then show ?thesis using assms(5) by (simp add: Idempotency_def Let_def)
next
  case (Inr body)
  have st: "stRedis (NewStore c rc ttl) = c" by (simp add: NewStore_def)
  from redis_server.idem_run_inv [OF assms(1) st assms(3,2)] assms(4,7,8)
  obtain p where "view (wRedis w) (hKey x) = Some (p, hSince x + stTTL (NewStore c rc ttl))"
    unfolding assms(9) by (force simp: idem_inv_def)
  with assms(8) have "live (view (wRedis w)) (bnClaim (ieBegin e)) (hKey x) \<noteq> None" by (simp add: live_def)
  from redis_server.taken_not_claimed [OF assms(1) st this] show ?thesis
    by (intro handler_not_run [OF assms(5) Inr]) (simp add: assms(6))
qed

section \<open>Retries\<close>

text \<open>A failure of Redis during \<open>Begin\<close>, which answers the request with an error.\<close>

definition redis_failed :: "error \<Rightarrow> bool" where
  "redis_failed err \<longleftrightarrow>
     (\<exists>e. err = wrapf ''claim idempotency key'' e \<or> err = wrapf ''read idempotency key'' e)"

text \<open>The answer of \<open>Begin\<close> to a retry that finds a record.\<close>

definition begin_answer :: "string \<Rightarrow> idem_record \<Rightarrow> idem_record option result" where
  "begin_answer fp existing =
     (if irFingerprint existing \<noteq> fp then Inl (Sentinel ErrKeyReuse)
      else if irState existing = StateInProgress then Inl (Sentinel ErrInFlight)
      else Inr (Some existing))"

lemma rec_codec_decodes:
  assumes "rec_codec_ok rc" and "plain (irFingerprint r)" and "plain (irContentType r)" and "rcMarshal rc r = Inr p"
  shows "rcUnmarshal rc p = Inr (r\<lparr> irBody := json_compact (irBody r) \<rparr>)"
proof -
  have "irBody r = [] \<or> rcValid rc (irBody r)"
    using assms(1,4) unfolding rec_codec_ok_def by (metis isl_def sum.disc(2))
  with assms show ?thesis unfolding rec_codec_ok_def by fastforce
qed

lemma claim_marshals:
  "rec_codec_ok rc \<Longrightarrow> plain fp \<Longrightarrow> \<exists>p. rcMarshal rc (claim_record fp now) = Inr p
     \<and> rcUnmarshal rc p = Inr (claim_record fp now)"
  unfolding rec_codec_ok_def
  by (elim conjE, drule spec [of _ "claim_record fp now"])
    (auto simp: claim_record_def plain_def json_compact_def)

context redis_server
begin

lemma Begin_taken:
  assumes st: "stRedis st = c" "rec_codec_ok (stCodec st)" "plain fp"
    and key: "view s key = Some (p, deadline)" "bnClaim e < deadline" "bnRead e < deadline"
      "rcUnmarshal (stCodec st) p = Inr existing"
    and gap: "\<And>s'. view (bnGap e s') key = view s' key"
    and bgn: "Begin st e key fp s = (r, s')"
  shows "(r = begin_answer fp existing \<or> (\<exists>err. r = Inl err \<and> redis_failed err)) \<and> view s' key = view s key"
proof -
  obtain payload where m: "rcMarshal (stCodec st) (claim_record fp (bnNow e)) = Inr payload"
    using claim_marshals [OF st(2,3)] by blast
  obtain rb s1 where nx: "rdSetNX c (bnClaim e) key payload (stTTL st) s = (rb, s1)" by fastforce
  have taken: "live (view s) (bnClaim e) key \<noteq> None" using key(1,2) by (simp add: live_def)
  from SetNX_taken [OF taken nx] have v1: "view s1 = view s" and rb: "rb \<noteq> Inr True"
    by (auto simp: settles_def split: sum.splits)
  obtain ro s2 where g: "rdGet c (bnRead e) key (bnGap e s1) = (ro, s2)" by fastforce
  from Get_answer [OF g] gap [of s1] v1 key(1,3) have v2: "view s2 key = view s key"
    and ro: "\<And>x. ro = Inr x \<Longrightarrow> x = Some p" by (auto simp: live_def)
  show ?thesis
  proof (cases rb)
    case (Inl err)
    with bgn m nx st(1) v1 show ?thesis by (auto simp: Begin_def redis_failed_def)
  next
    case (Inr b)
    with rb have b: "rb = Inr False" by simp
    show ?thesis
    proof (cases ro)
      case (Inl err)
      with bgn m nx g st(1) b v2 show ?thesis by (auto simp: Begin_def idem_Get_def redis_failed_def)
    next
      case (Inr x)
      with ro have "ro = Inr (Some p)" by simp
      with bgn m nx g st(1) b v2 key(4) show ?thesis
        by (auto simp: Begin_def idem_Get_def begin_answer_def split: if_splits)
    qed
  qed
qed

lemma Complete_stored:
  assumes "stRedis st = c" and "rec_codec_ok (stCodec st)" and "plain fp" and "plain ct"
    and "Complete st n t key fp code ct body s = (Inr (), s')"
  shows "\<exists>p. view s' key = Some (p, t + stTTL st)
     \<and> rcUnmarshal (stCodec st) p = Inr (completed_record fp code ct (json_compact body) n)"
proof -
  from Complete_set [OF assms(5)] assms(1) obtain p ru where
    p: "rcMarshal (stCodec st) (completed_record fp code ct body n) = Inr p"
    and set: "rdSet c t key p (stTTL st) s = (ru, s')" "\<not> isl ru" by auto
  from Set [OF set(1)] set(2) have "view s' = put key p (t + stTTL st) (view s)"
    by (auto simp: settles_def isl_def split: sum.splits)
  moreover have "rcUnmarshal (stCodec st) p = Inr (completed_record fp code ct (json_compact body) n)"
    using rec_codec_decodes [OF assms(2) _ _ p] assms(3,4) by (simp add: completed_record_def)
  ultimately show ?thesis by (simp add: put_def)
qed

end

lemma plain_hex: "plain (hex_encode s)"
  using hex_encode_visible by (fastforce simp: plain_def visible_def list_all_iff)

lemma plain_Fingerprint: "plain (Fingerprint sha jc body)"
  by (simp add: Fingerprint_def plain_hex)

text \<open>The middleware on a key that is taken.\<close>

definition retry_response ::
  "error_encoder \<Rightarrow> request \<Rightarrow> headers \<Rightarrow> idem_record option result \<Rightarrow> outcome" where
  "retry_response enc r h ans =
     (case ans of Inl err \<Rightarrow> writeError enc r h err | Inr None \<Rightarrow> Panic False h | Inr (Some stored) \<Rightarrow> replay h stored)"

lemma writeError_body [simp]: "writeError enc (r\<lparr> hqBody := b \<rparr>) h err = writeError enc r h err"
  by (simp add: writeError_def)

lemma retry_outcome:
  assumes srv: "redis_server c view" and st: "stRedis st = c" "rec_codec_ok (stCodec st)"
    and r: "hqMerchant r = Some m" "header_Get (hqHeader r) ''Idempotency-Key'' = idemKey" "idemKey \<noteq> []"
      "idem_body r = Inr body"
    and key: "view (wRedis w) (idem_Key (mID m) idemKey) = Some (p, deadline)"
      "bnClaim (ieBegin e) < deadline" "bnRead (ieBegin e) < deadline" "rcUnmarshal (stCodec st) p = Inr existing"
    and gap: "\<And>s'. view (bnGap (ieBegin e) s') (idem_Key (mID m) idemKey) = view s' (idem_Key (mID m) idemKey)"
    and out: "Idempotency enc sha jc st e next r h w = (out, w')"
    and ans: "begin_answer (Fingerprint sha jc body) existing \<noteq> Inr None"
  shows "wDB w' = wDB w \<and> (out = retry_response enc r h (begin_answer (Fingerprint sha jc body) existing)
     \<or> (\<exists>err. redis_failed err \<and> out = writeError enc r h err))"
proof -
  obtain ra s' where b: "Begin st (ieBegin e) (idem_Key (mID m) idemKey) (Fingerprint sha jc body) (wRedis w) = (ra, s')"
    by fastforce
  from redis_server.Begin_taken [OF srv st plain_Fingerprint key gap b]
  have ra: "ra = begin_answer (Fingerprint sha jc body) existing \<or> (\<exists>err. ra = Inl err \<and> redis_failed err)" by blast
  with ans have "ra \<noteq> Inr None" by auto
  then have "(out, w') = (retry_response enc r h ra, w\<lparr> wRedis := s' \<rparr>)"
    using out r b by (auto simp: Idempotency_def Let_def retry_response_def split: sum.splits option.splits)
  with ra show ?thesis by (auto simp: retry_response_def)
qed


text \<open>
  An answer that could not be stored blocks its key. If the handler has answered but the
  answer did not reach Redis, the key stays claimed: until the claim expires every retry with
  the same body is told that a request is still in progress. The code's comment says that at
  worst the retry runs the handler again.
\<close>

theorem unstored_answer_blocks:
  assumes "redis_server c view" and "stRedis st = c" and "rec_codec_ok (stCodec st)"
    and "Begin st b (idem_Key (mID m) idemKey) (Fingerprint sha jc body) s0 = (Inr None, s1)"
    and "view s2 (idem_Key (mID m) idemKey) = view s1 (idem_Key (mID m) idemKey)"
    and "Complete st n t (idem_Key (mID m) idemKey) (Fingerprint sha jc body) code contentType reply s2 = (Inl err, s3)"
    and "view s3 = view s2"
    and "view (wRedis w) (idem_Key (mID m) idemKey) = view s3 (idem_Key (mID m) idemKey)"
    and "hqMerchant r = Some m" and "header_Get (hqHeader r) ''Idempotency-Key'' = idemKey" and "idemKey \<noteq> []"
    and "idem_body r = Inr body"
    and "bnClaim (ieBegin e) < bnClaim b + stTTL st" and "bnRead (ieBegin e) < bnClaim b + stTTL st"
    and "\<And>s'. view (bnGap (ieBegin e) s') (idem_Key (mID m) idemKey) = view s' (idem_Key (mID m) idemKey)"
    and "Idempotency enc sha jc st e next r h w = (out, w')"
  shows "wDB w' = wDB w \<and> (out = writeError enc r h (Sentinel ErrInFlight)
     \<or> (\<exists>err. redis_failed err \<and> out = writeError enc r h err))"
proof -
  let ?fp = "Fingerprint sha jc body"
  from Begin_won [OF assms(4)] assms(2) obtain p where
    m: "rcMarshal (stCodec st) (claim_record ?fp (bnNow b)) = Inr p"
    and nx: "rdSetNX c (bnClaim b) (idem_Key (mID m) idemKey) p (stTTL st) s0 = (Inr True, s1)" by auto
  from redis_server.SetNX_won [OF assms(1) nx] assms(5,7,8) have
    v: "view (wRedis w) (idem_Key (mID m) idemKey) = Some (p, bnClaim b + stTTL st)" by (simp add: put_def)
  from claim_marshals [OF assms(3) plain_Fingerprint] m have
    dec: "rcUnmarshal (stCodec st) p = Inr (claim_record ?fp (bnNow b))" by (metis sum.inject(2))
  have ans: "begin_answer ?fp (claim_record ?fp (bnNow b)) = Inl (Sentinel ErrInFlight)"
    by (simp add: begin_answer_def claim_record_def)
  from retry_outcome [OF assms(1-3,9-12) v assms(13,14) dec assms(15,16)] show ?thesis
    by (simp add: ans retry_response_def)
qed

section \<open>A concrete codec and server\<close>

definition show_lines :: "string list \<Rightarrow> string \<Rightarrow> string" where
  "show_lines ls rest = foldr (\<lambda>f acc. f @ newline # acc) ls rest"

fun cut_lines :: "nat \<Rightarrow> string \<Rightarrow> (string list \<times> string) option" where
  "cut_lines 0 s = Some ([], s)"
| "cut_lines (Suc n) s =
     (case Cut newline s of
        None \<Rightarrow> None
      | Some (f, rest) \<Rightarrow> map_option (\<lambda>(fs, body). (f # fs, body)) (cut_lines n rest))"

lemma cut_show_lines:
  "\<forall>f \<in> set ls. newline \<notin> set f \<Longrightarrow> cut_lines (length ls) (show_lines ls rest) = Some (ls, rest)"
  by (induction ls) (auto simp: show_lines_def Cut_append)

definition read_int :: "string \<Rightarrow> int" where
  "read_int s = (case s of [] \<Rightarrow> 0 | c # cs \<Rightarrow>
     if c = CHR ''-'' then - int (digits_val 0 cs) else int (digits_val 0 s))"

lemma read_show_int: "read_int (show_int x) = x"
proof (cases "x < 0")
  case True
  then show ?thesis by (simp add: read_int_def show_int_def digits_val_show_nat)
next
  case False
  obtain c cs where sh: "show_nat (nat x) = c # cs" "is_digit c" using show_nat_hd by blast
  with False digits_val_show_nat [of "nat x"] show ?thesis by (simp add: read_int_def show_int_def)
qed

definition demo_codec :: rec_codec where
  "demo_codec =
     \<lparr> rcMarshal = (\<lambda>r. if irBody r \<noteq> [] \<and> hd (irBody r) \<noteq> CHR ''{'' then Inl (Opaque ''invalid character'')
         else Inr (show_lines [if irState r = StateCompleted then ''completed'' else ''in_progress'',
                irFingerprint r, show_int (irStatusCode r), irContentType r, show_int (irCreatedAt r)]
                (json_compact (irBody r)))),
       rcUnmarshal = (\<lambda>s. case cut_lines 5 s of
           Some ([state, fp, code, ct, created], body) \<Rightarrow>
             Inr \<lparr> irState = (if state = ''completed'' then StateCompleted else StateInProgress), irFingerprint = fp,
                   irStatusCode = read_int code, irBody = body, irContentType = ct, irCreatedAt = read_int created \<rparr>
         | _ \<Rightarrow> Inl (Opaque ''unexpected end of JSON input'')),
       rcValid = (\<lambda>body. hd body = CHR ''{'') \<rparr>"

lemma demo_codec_ok: "rec_codec_ok demo_codec"
proof -
  have pl: "newline \<notin> set s" if "plain s" for s
    using that by (auto simp: plain_def list_all_iff of_char_of)
  have num: "newline \<notin> set (show_int x)" for x
    by (rule show_int_free) (simp_all add: is_digit_def of_char_of newline_not_sign)
  have "\<exists>p. rcMarshal demo_codec r = Inr p \<and> rcUnmarshal demo_codec p = Inr (r\<lparr> irBody := json_compact (irBody r) \<rparr>)"
    if "plain (irFingerprint r)" "plain (irContentType r)" "irBody r = [] \<or> rcValid demo_codec (irBody r)" for r
  proof -
    let ?fs = "[if irState r = StateCompleted then ''completed'' else ''in_progress'',
        irFingerprint r, show_int (irStatusCode r), irContentType r, show_int (irCreatedAt r)]"
    have "\<forall>f \<in> set ?fs. newline \<notin> set f" using pl that num by (simp add: char_of_def)
    note cut = cut_show_lines [OF this, of "json_compact (irBody r)"]
    have five: "length ?fs = 5" by simp
    from cut [unfolded five] that(3) show ?thesis
      by (cases "irState r") (auto simp: demo_codec_def read_show_int)
  qed
  then show ?thesis by (auto simp: rec_codec_ok_def) (auto simp: demo_codec_def)
qed

definition demo_store :: "server idem_store" where
  "demo_store = NewStore keyspace_redis demo_codec 100"

definition demo_server :: server where
  "demo_server = \<lparr> svKeys = Map.empty, svFaults = [] \<rparr>"

definition demo_begin :: "time \<Rightarrow> server begin_env" where
  "demo_begin t = \<lparr> bnNow = t, bnClaim = t, bnGap = id, bnRead = t \<rparr>"

definition demo_idem :: "time \<Rightarrow> server idem_env" where
  "demo_idem t = \<lparr> ieBegin = demo_begin t, ieNow = t, ieDone = t \<rparr>"

definition demo_claimed :: "string \<Rightarrow> string \<Rightarrow> server" where
  "demo_claimed key fp = snd (Begin demo_store (demo_begin 10) key fp demo_server)"

lemma demo_won: "Begin demo_store (demo_begin 10) key fp demo_server = (Inr None, demo_claimed key fp)"
proof -
  have "fst (Begin demo_store (demo_begin 10) key fp demo_server) = Inr None"
    by (simp add: Begin_def demo_store_def NewStore_def demo_codec_def claim_record_def demo_begin_def
        keyspace_redis_def live_def demo_server_def answer_def)
  then show ?thesis by (metis demo_claimed_def prod.collapse)
qed

lemma demo_claimed_keys: "svFaults (demo_claimed key fp) = []"
  by (simp add: demo_claimed_def Begin_def demo_store_def NewStore_def demo_codec_def claim_record_def demo_begin_def
      keyspace_redis_def live_def demo_server_def answer_def)

definition demo_sys :: "server idem_sys" where
  "demo_sys = \<lparr> isServer = demo_server, isNow = 5, isHolders = [] \<rparr>"

lemma demo_sys_run:
  "(idem_step demo_store)\<^sup>*\<^sup>* demo_sys
     \<lparr> isServer = demo_claimed key fp, isNow = 10, isHolders = [Running key 10] \<rparr>"
proof -
  have "idem_step demo_store demo_sys \<lparr> isServer = demo_claimed key fp, isNow = bnClaim (demo_begin 10),
      isHolders = Running key (bnClaim (demo_begin 10)) # isHolders demo_sys \<rparr>"
    by (rule idem_step.won) (use demo_won [of key fp] in \<open>auto simp: demo_sys_def demo_begin_def\<close>)
  then show ?thesis by (simp add: demo_begin_def demo_sys_def r_into_rtranclp)
qed

theorem one_holder_per_key_witness:
  "length (filter (holds (stTTL demo_store) 10 ''k'') [Running ''k'' 10]) \<le> 1"
  using one_holder_per_key [OF keyspace_server.redis_server_axioms _ demo_sys_run [of "''k''" "''f''", unfolded demo_store_def]]
  by (simp add: demo_store_def demo_sys_def)

definition demo_jc :: "unit json_codec" where
  "demo_jc = \<lparr> jcUnmarshal = (\<lambda>_. None), jcMarshal = (\<lambda>_. None) \<rparr>"

definition demo_post :: "string \<Rightarrow> string \<Rightarrow> request" where
  "demo_post idemKey body =
     \<lparr> hqMethod = ''POST'', hqPath = ''/api/v1/payments'', hqHeader = [(''Idempotency-Key'', idemKey)],
       hqQuery = [], hqBody = Some (Inr body), hqContentLength = int (length body), hqParamID = [],
       hqRequestID = ''req_1'', hqMerchant = Some demo_merchant, hqRawBody = Some body \<rparr>"

lemma demo_post_simps [simp]:
  "hqMerchant (demo_post k b) = Some demo_merchant" "header_Get (hqHeader (demo_post k b)) ''Idempotency-Key'' = k"
  "idem_body (demo_post k b) = Inr b"
  by (simp_all add: demo_post_def header_Get_def idem_body_def)

definition demo_enc :: error_encoder where "demo_enc b = ebCode b"

definition answers :: "int \<Rightarrow> string \<Rightarrow> server handler" where
  "answers status body r h w = (writeJSON h status body, w)"

definition demo_k :: string where "demo_k = idem_Key (mID demo_merchant) ''k1''"

theorem no_second_run_witness:
  "Idempotency demo_enc id demo_jc demo_store (demo_idem 20) (answers 201 ''a'') (demo_post ''k1'' ''{}'') []
       \<lparr> wRedis = demo_claimed demo_k ''f'', wDB = demo_db \<rparr>
   = Idempotency demo_enc id demo_jc demo_store (demo_idem 20) (answers 500 ''b'') (demo_post ''k1'' ''{}'') []
       \<lparr> wRedis = demo_claimed demo_k ''f'', wDB = demo_db \<rparr>"
  unfolding demo_store_def
  by (rule no_second_run [OF keyspace_server.redis_server_axioms _ demo_sys_run [of demo_k "''f''", unfolded demo_store_def],
        where x = "Running demo_k 10" and m = demo_merchant])
    (simp_all add: demo_sys_def demo_k_def demo_idem_def demo_begin_def NewStore_def)

definition demo_answered :: server where
  "demo_answered = snd (Complete demo_store 15 15 demo_k (Fingerprint id demo_jc ''{}'') 201 json_content
     ''{ }'' (demo_claimed demo_k ''f''))"

lemma demo_complete:
  "Complete demo_store 15 15 demo_k (Fingerprint id demo_jc ''{}'') 201 json_content ''{ }''
     (demo_claimed demo_k ''f'') = (Inr (), demo_answered)"
proof -
  have "fst (Complete demo_store 15 15 demo_k (Fingerprint id demo_jc ''{}'') 201 json_content ''{ }''
     (demo_claimed demo_k ''f'')) = Inr ()"
    by (simp add: Complete_def demo_store_def NewStore_def demo_codec_def completed_record_def
        keyspace_redis_def answer_def demo_claimed_keys)
  then show ?thesis by (metis demo_answered_def prod.collapse)
qed

definition demo_world :: "server \<Rightarrow> server world" where
  "demo_world s = \<lparr> wRedis = s, wDB = demo_db \<rparr>"


theorem unstored_answer_blocks_witness:
  "fst (Idempotency demo_enc id demo_jc demo_store (demo_idem 20) (answers 500 ''b'') (demo_post ''k1'' ''{}'') []
       (demo_world (demo_claimed demo_k (Fingerprint id demo_jc ''{}'')))) =
     writeError demo_enc (demo_post ''k1'' ''{}'') [] (Sentinel ErrInFlight)
   \<or> (\<exists>err. redis_failed err \<and> fst (Idempotency demo_enc id demo_jc demo_store (demo_idem 20) (answers 500 ''b'')
       (demo_post ''k1'' ''{}'') [] (demo_world (demo_claimed demo_k (Fingerprint id demo_jc ''{}''))))
       = writeError demo_enc (demo_post ''k1'' ''{}'') [] err)"
proof -
  have st: "stRedis demo_store = keyspace_redis" "rec_codec_ok (stCodec demo_store)" "stTTL demo_store = 100"
    using demo_codec_ok by (simp_all add: demo_store_def NewStore_def)
  have "Complete demo_store 15 15 demo_k (Fingerprint id demo_jc ''{}'') 200 json_content ''oops''
      (demo_claimed demo_k (Fingerprint id demo_jc ''{}''))
    = (Inl (wrapf ''marshal idempotency record'' (Opaque ''invalid character'')),
       demo_claimed demo_k (Fingerprint id demo_jc ''{}''))"
    by (simp add: Complete_def demo_store_def NewStore_def demo_codec_def completed_record_def)
  from unstored_answer_blocks [OF keyspace_server.redis_server_axioms st(1,2) demo_won [of demo_k, unfolded demo_k_def] refl
      this [unfolded demo_k_def], of "demo_world (demo_claimed demo_k (Fingerprint id demo_jc ''{}''))"
      "demo_post ''k1'' ''{}''" "demo_idem 20"]
  show ?thesis
    by (simp add: demo_world_def demo_idem_def demo_begin_def st(3) demo_k_def) (metis prod.collapse)
qed

end
