(* ===== verification/Gateway.thy ===== *)
theory Gateway
  imports Reconciliation
begin

text \<open>
  The whole gateway over its database: a step relation with one rule per write that the
  services commit, the invariant that ties every transaction row to its journal entries, and
  the refinement of the service operations, under every interleaving, to sequences of steps.
\<close>

section \<open>What a committed write does to one row and the journal\<close>

definition adds_entries :: "ledger_entry list \<Rightarrow> db \<Rightarrow> db \<Rightarrow> bool" where
  "adds_entries es d d' \<longleftrightarrow>
     (\<exists>new. dbLedger d' = dbLedger d @ new \<and> map unnumbered new = map unnumbered es)"

definition row_commit ::
  "uuid \<Rightarrow> (transaction \<Rightarrow> transaction result) \<Rightarrow> ledger_entry list \<Rightarrow> WebhookEvent \<Rightarrow> transaction
     \<Rightarrow> db \<Rightarrow> db \<Rightarrow> bool" where
  "row_commit i oper es event t' d d' \<longleftrightarrow>
     (\<exists>r u now. row_of i d = Some r \<and> oper r = Inr u
        \<and> t' = u\<lparr> tVersion := tVersion u + 1, tUpdatedAt := now \<rparr>
        \<and> dbTransactions d' = dbTransactions (set_row t' d) \<and> dbMerchants d' = dbMerchants d
        \<and> adds_entries es d d' \<and> queued t' event d d')"

lemma updated_row_eq:
  "same_identity r u \<Longrightarrow> updated_row now u r = u\<lparr> tVersion := tVersion u + 1, tUpdatedAt := now \<rparr>"
  by (cases u; cases r) (simp add: updated_row_def same_identity_def)

lemma Update_row:
  assumes "distinct_rows d" and "row_of i d = Some r" and "same_identity r u"
    and "TransactionRepo_Update f now u d = Inr (t', d')"
  shows "t' = u\<lparr> tVersion := tVersion u + 1, tUpdatedAt := now \<rparr> \<and> d' = set_row t' d"
proof -
  have "tID u = i" using assms(2,3) row_of_key by (fastforce simp: same_identity_def)
  with assms show ?thesis
    by (auto simp: TransactionRepo_Update_Inr updated_row_eq)
qed

lemma adds_entries_refl [simp]: "dbLedger d' = dbLedger d \<Longrightarrow> adds_entries [] d d'"
  by (simp add: adds_entries_def)

lemma InsertGroup_effect:
  assumes "InsertGroup fs grp d = Inr d'"
  shows "adds_entries (gEntries grp) d d'" "dbTransactions d' = dbTransactions d"
    "dbMerchants d' = dbMerchants d" "dbWebhooks d' = dbWebhooks d"
  using InsertGroup_Inr [OF assms] by (auto simp: adds_entries_def)

text \<open>The shape the commit bodies share, from the update of the row on.\<close>

lemma row_commit_intro:
  assumes "distinct_rows d" and r: "row_of i d = Some r" and u: "oper r = Inr u" and "same_identity r u"
    and up: "TransactionRepo_Update f now u d = Inr (t', d1)"
    and d2: "adds_entries es d1 d2" "dbTransactions d2 = dbTransactions d1"
      "dbMerchants d2 = dbMerchants d1" "dbWebhooks d2 = dbWebhooks d1"
    and d': "d' = d2\<lparr> dbWebhooks := dbWebhooks d' \<rparr>" and q: "queued t' event d2 d'"
  shows "row_commit i oper es event t' d d'"
proof -
  from Update_row [OF assms(1,2,4) up]
  have t': "t' = u\<lparr> tVersion := tVersion u + 1, tUpdatedAt := now \<rparr>" and d1: "d1 = set_row t' d" by auto
  have same: "dbTransactions d' = dbTransactions d2" "dbMerchants d' = dbMerchants d2" "dbLedger d' = dbLedger d2"
    by (subst d', simp)+
  have "adds_entries es d d'" using d2(1) d1 same by (simp add: adds_entries_def)
  moreover have "queued t' event d d'" using q d2(4) d1 by (simp add: queued_def)
  ultimately show ?thesis using r u t' d1 d2 same by (auto simp: row_commit_def)
qed

lemma queue_after_Update:
  assumes "queueWebhook x t' event d1 = Inr d'"
  shows "d' = d1\<lparr> dbWebhooks := dbWebhooks d' \<rparr>" "queued t' event d1 d'"
  using queueWebhook_effect [OF assms] by blast+

lemma authorize_commit:
  assumes d: "distinct_rows d" and b: "authorize_body x i res d = Inr (t', d')"
  shows "row_commit i (Transaction_Authorize (rsRef res) (rsCardLast4 res) (rsCardBrand res) (xNow x)) []
           EventPaymentAuthorized t' d d'"
proof -
  let ?op = "Transaction_Authorize (rsRef res) (rsCardLast4 res) (rsCardBrand res) (xNow x)"
  from b obtain r u d1 where r: "row_of i d = Some r" "?op r = Inr u"
    and up: "TransactionRepo_Update (xUpdate x) (xDBNow x) u d = Inr (t', d1)"
    and q: "queueWebhook x t' EventPaymentAuthorized d1 = Inr d'"
    by (auto simp: authorize_body_def andThen_Inr GetForUpdate_Inr split: if_splits)
  show ?thesis
    by (rule row_commit_intro [where oper = ?op, OF d r authorize_op.oper_identity [OF r(2)] up _ _ _ _ queue_after_Update [OF q]])
      simp_all
qed

lemma fail_commit:
  assumes d: "distinct_rows d" and b: "fail_body x i code d = Inr (v, d')"
  shows "d' = d \<or> (\<exists>t'. row_commit i (Transaction_Fail code (xNow x)) [] EventPaymentFailed t' d d')"
proof (cases "d' = d")
  case False
  with b obtain r u t' d1 where r: "row_of i d = Some r" "Transaction_Fail code (xNow x) r = Inr u"
    and up: "TransactionRepo_Update (xUpdate x) (xDBNow x) u d = Inr (t', d1)"
    and q: "queueWebhook x t' EventPaymentFailed d1 = Inr d'"
    by (auto simp: fail_body_def andThen_Inr GetForUpdate_Inr split: if_splits)
  have "row_commit i (Transaction_Fail code (xNow x)) [] EventPaymentFailed t' d d'"
    by (rule row_commit_intro [where oper = "Transaction_Fail code (xNow x)", OF d r fail_op.oper_identity [OF r(2)] up _ _ _ _ queue_after_Update [OF q]])
      simp_all
  then show ?thesis by blast
qed simp

lemma void_commit:
  assumes d: "distinct_rows d" and b: "void_body x m i d = Inr (t', d')"
  shows "row_commit i (Transaction_Void (xNow x)) [] EventPaymentVoided t' d d' \<and> tMerchantID t' = m"
proof -
  from b obtain r u d1 where r: "row_of i d = Some r" "Transaction_Void (xNow x) r = Inr u"
    and m: "tMerchantID r = m"
    and up: "TransactionRepo_Update (xUpdate x) (xDBNow x) u d = Inr (t', d1)"
    and q: "queueWebhook x t' EventPaymentVoided d1 = Inr d'"
    by (auto simp: void_body_def andThen_Inr GetForUpdate_Inr split: if_splits)
  note sid = void_op.oper_identity [OF r(2)]
  have "tMerchantID t' = m" using Update_row [OF d r(1) sid up] sid m by (simp add: same_identity_def)
  moreover have "row_commit i (Transaction_Void (xNow x)) [] EventPaymentVoided t' d d'"
    by (rule row_commit_intro [where oper = "Transaction_Void (xNow x)", OF d r sid up _ _ _ _ queue_after_Update [OF q]]) simp_all
  ultimately show ?thesis by blast
qed

lemma capture_commit:
  assumes d: "distinct_rows d" and b: "capture_body fee x m i amount d = Inr (t', d')"
  shows "\<exists>grp. NewCaptureEntryGroup (xGroupID x) t' amount (Fee amount fee) (xNow x) = Inr grp
     \<and> row_commit i (Transaction_Capture amount (xNow x)) (gEntries grp) EventPaymentCaptured t' d d'
     \<and> tMerchantID t' = m"
proof -
  from b obtain r u d1 grp d2 where r: "row_of i d = Some r" "Transaction_Capture amount (xNow x) r = Inr u"
    and m: "tMerchantID r = m"
    and up: "TransactionRepo_Update (xUpdate x) (xDBNow x) u d = Inr (t', d1)"
    and grp: "NewCaptureEntryGroup (xGroupID x) t' amount (Fee amount fee) (xNow x) = Inr grp"
    and ins: "InsertGroup (xLedger x) grp d1 = Inr d2"
    and q: "queueWebhook x t' EventPaymentCaptured d2 = Inr d'"
    by (auto simp: capture_body_def andThen_Inr GetForUpdate_Inr split: if_splits)
  note sid = capture_op.oper_identity [OF r(2)]
  have "tMerchantID t' = m" using Update_row [OF d r(1) sid up] sid m by (simp add: same_identity_def)
  moreover have "row_commit i (Transaction_Capture amount (xNow x)) (gEntries grp) EventPaymentCaptured t' d d'"
    by (rule row_commit_intro [where oper = "Transaction_Capture amount (xNow x)", OF d r sid up InsertGroup_effect [OF ins] queue_after_Update [OF q]])
  ultimately show ?thesis using grp by blast
qed

lemma refund_commit:
  assumes d: "distinct_rows d" and b: "refund_body x m i amount d = Inr (t', d')"
  shows "\<exists>grp. NewRefundEntryGroup (xGroupID x) t' amount (xNow x) = Inr grp
     \<and> row_commit i (Transaction_Refund amount (xNow x)) (gEntries grp) EventPaymentRefunded t' d d'
     \<and> tMerchantID t' = m"
proof -
  from b obtain r u d1 grp d2 where r: "row_of i d = Some r" "Transaction_Refund amount (xNow x) r = Inr u"
    and m: "tMerchantID r = m"
    and up: "TransactionRepo_Update (xUpdate x) (xDBNow x) u d = Inr (t', d1)"
    and grp: "NewRefundEntryGroup (xGroupID x) t' amount (xNow x) = Inr grp"
    and ins: "InsertGroup (xLedger x) grp d1 = Inr d2"
    and q: "queueWebhook x t' EventPaymentRefunded d2 = Inr d'"
    by (auto simp: refund_body_def andThen_Inr GetForUpdate_Inr split: if_splits)
  note sid = refund_op.oper_identity [OF r(2)]
  have "tMerchantID t' = m" using Update_row [OF d r(1) sid up] sid m by (simp add: same_identity_def)
  moreover have "row_commit i (Transaction_Refund amount (xNow x)) (gEntries grp) EventPaymentRefunded t' d d'"
    by (rule row_commit_intro [where oper = "Transaction_Refund amount (xNow x)", OF d r sid up InsertGroup_effect [OF ins] queue_after_Update [OF q]])
  ultimately show ?thesis using grp by blast
qed

text \<open>The entries a settlement books: the two legs of the payout, if anything is left to pay.\<close>

definition payout_entries :: "int \<Rightarrow> uuid \<Rightarrow> transaction \<Rightarrow> time \<Rightarrow> ledger_entry list" where
  "payout_entries fee g t now =
     (if NetPayable t fee > 0 then
        [entry g t (MerchantPayableAccount (tMerchantID t)) Debit (NetPayable t fee) EventSettlement now,
         entry g t AccountPlatformCash Credit (NetPayable t fee) EventSettlement now]
      else [])"

lemma settle_commit_captured:
  assumes d: "distinct_rows d" and b: "settle_body fee x i d = Inr (v, d')"
    and r0: "row_of i d = Some r0" "tStatus r0 = StatusCaptured"
  shows "\<exists>t'. row_commit i (Transaction_Settle (xNow x)) (payout_entries fee (xGroupID x) t' (xNow x))
           EventPaymentSettled t' d d'"
proof -
  let ?pay = "\<lambda>t' d1. let net = NetPayable t' fee in if net > 0 then
      andThen (NewSettlementEntryGroup (xGroupID x) t' net (xNow x)) (\<lambda>grp. InsertGroup (xLedger x) grp d1)
      else Inr d1"
  from b r0 obtain r u t' d1 d2 payload where
    r: "row_of i d = Some r" "Transaction_Settle (xNow x) r = Inr u"
    and up: "TransactionRepo_Update (xUpdate x) (xDBNow x) u d = Inr (t', d1)"
    and pay: "?pay t' d1 = Inr d2"
    and q: "WebhookRepo_Create (xWebhook x)
                  (NewWebhookDelivery (xDeliveryID x) (tMerchantID t') (tID t')
                     EventPaymentSettled payload (xNow x)) d2 = Inr d'"
    by (auto simp: settle_body_def andThen_Inr GetForUpdate_Inr split: if_splits)
  have eff: "adds_entries (payout_entries fee (xGroupID x) t' (xNow x)) d1 d2
    \<and> dbTransactions d2 = dbTransactions d1 \<and> dbMerchants d2 = dbMerchants d1 \<and> dbWebhooks d2 = dbWebhooks d1"
  proof (cases "0 < NetPayable t' fee")
    case True
    with pay have ins: "InsertGroup (xLedger x)
        \<lparr> gID = xGroupID x, gEntries = payout_entries fee (xGroupID x) t' (xNow x) \<rparr> d1 = Inr d2"
      by (auto simp: andThen_Inr NewSettlementEntryGroup_Inr payout_entries_def Let_def)
    with InsertGroup_effect [OF ins] show ?thesis by simp
  next
    case False
    with pay show ?thesis by (simp add: payout_entries_def Let_def)
  qed
  have "d' = d2\<lparr> dbWebhooks := dbWebhooks d' \<rparr>" "queued t' EventPaymentSettled d2 d'"
    using WebhookRepo_Create_Inr [OF q] by (auto simp: queued_def NewWebhookDelivery_def)
  from row_commit_intro [where oper = "Transaction_Settle (xNow x)", OF d r settle_op.oper_identity [OF r(2)] up eff [THEN conjunct1] eff [THEN conjunct2, THEN conjunct1]
    eff [THEN conjunct2, THEN conjunct2, THEN conjunct1] eff [THEN conjunct2, THEN conjunct2, THEN conjunct2] this] show ?thesis by blast
qed

lemma settle_commit:
  assumes "distinct_rows d" and b: "settle_body fee x i d = Inr (v, d')"
  shows "d' = d \<or> (\<exists>t'. row_commit i (Transaction_Settle (xNow x)) (payout_entries fee (xGroupID x) t' (xNow x))
           EventPaymentSettled t' d d')"
proof -
  from b obtain r where r: "row_of i d = Some r" by (auto simp: settle_body_def andThen_Inr GetForUpdate_Inr)
  show ?thesis
  proof (cases "tStatus r = StatusCaptured")
    case True
    then show ?thesis using settle_commit_captured [OF assms r] by blast
  next
    case False
    with b r show ?thesis by (auto simp: settle_body_def andThen_Inr GetForUpdate_Inr)
  qed
qed

section \<open>The invariant of the database\<close>

definition paid_in :: "uuid \<Rightarrow> ledger_entry list \<Rightarrow> int" where
  "paid_in i es = sum_where (\<lambda>e. eTransactionID e = i \<and> eEventType e = EventSettlement
     \<and> eAccount e = AccountPlatformCash \<and> eDirection e = Credit) eAmount es"

text \<open>
  What the journal says about a transaction is what its row says: all that was captured and
  refunded is booked, the fees are not above the fee of the whole, and nothing is paid out
  before the settlement.
\<close>

definition booked :: "int \<Rightarrow> ledger_entry list \<Rightarrow> transaction \<Rightarrow> bool" where
  "booked fee es t \<longleftrightarrow> captured_in (tID t) es = tCapturedAmount t
     \<and> refunded_in (tID t) es = tRefundedAmount t
     \<and> 0 \<le> fees_in (tID t) es
     \<and> (fee_exact (tAmount t) fee \<longrightarrow> fees_in (tID t) es \<le> Fee (tCapturedAmount t) fee)
     \<and> (tStatus t = StatusSettled \<or> tStatus t = StatusRefunded \<or> paid_in (tID t) es = 0)"

definition entry_owned :: "transaction list \<Rightarrow> ledger_entry \<Rightarrow> bool" where
  "entry_owned ts e \<longleftrightarrow> 0 < eAmount e \<and> (\<exists>t \<in> set ts. tID t = eTransactionID e
     \<and> eMerchantID e = Some (tMerchantID t) \<and> eCurrency e = tCurrency t)"

definition ref_key :: "transaction \<Rightarrow> uuid \<times> string" where
  "ref_key t = (tMerchantID t, tReference t)"

definition gw_inv :: "int \<Rightarrow> db \<Rightarrow> bool" where
  "gw_inv fee d \<longleftrightarrow> distinct_rows d \<and> distinct (map ref_key (dbTransactions d))
     \<and> (\<forall>t \<in> set (dbTransactions d). wf_txn t \<and> booked fee (dbLedger d) t)
     \<and> (\<forall>e \<in> set (dbLedger d). entry_owned (dbTransactions d) e)
     \<and> groups_balanced (dbLedger d)"

lemma gw_invD:
  assumes "gw_inv fee d"
  shows "distinct_rows d" "distinct (map ref_key (dbTransactions d))"
    "t \<in> set (dbTransactions d) \<Longrightarrow> wf_txn t" "t \<in> set (dbTransactions d) \<Longrightarrow> booked fee (dbLedger d) t"
    "e \<in> set (dbLedger d) \<Longrightarrow> entry_owned (dbTransactions d) e" "groups_balanced (dbLedger d)"
  using assms by (auto simp: gw_inv_def)

definition gw_start :: "db \<Rightarrow> bool" where
  "gw_start d \<longleftrightarrow> dbTransactions d = [] \<and> dbLedger d = []"

lemma gw_start_inv: "gw_start d \<Longrightarrow> gw_inv fee d"
  by (simp add: gw_start_def gw_inv_def distinct_rows_def groups_balanced_def group_entries_def balanced_def)

text \<open>The invariant speaks about the transactions and the journal only.\<close>

lemma gw_inv_frame:
  "dbTransactions d' = dbTransactions d \<Longrightarrow> dbLedger d' = dbLedger d \<Longrightarrow> gw_inv fee d' = gw_inv fee d"
  by (simp add: gw_inv_def distinct_rows_def)

section \<open>One committed write keeps the invariant\<close>

lemma paid_in_simps [simp]: "paid_in i [] = 0" "paid_in i (xs @ ys) = paid_in i xs + paid_in i ys"
  by (simp_all add: paid_in_def)

lemma paid_in_unnumbered: "map unnumbered xs = map unnumbered ys \<Longrightarrow> paid_in i xs = paid_in i ys"
  unfolding paid_in_def by (rule sum_where_unnumbered) simp_all

lemma Fee_superadd:
  assumes "0 \<le> a" "0 \<le> b" "fee_exact c bps" "a + b \<le> c"
  shows "Fee a bps + Fee b bps \<le> Fee (a + b) bps"
proof (cases "0 \<le> bps")
  case True
  then have "fee_exact (a + b) bps" using assms by (auto intro: fee_exact_mono)
  then show ?thesis using Fee_split_bounds(1) assms(1,2) True by blast
qed (simp add: Fee_def)

text \<open>
  What a write of entries for one transaction has to satisfy: they balance as one group, they
  belong to the transaction, and they book what the row's amounts changed by.
\<close>

definition books :: "int \<Rightarrow> transaction \<Rightarrow> transaction \<Rightarrow> ledger_entry list \<Rightarrow> bool" where
  "books fee r t' es \<longleftrightarrow> balanced es \<and> (\<exists>g. \<forall>e \<in> set es. eEntryGroupID e = g)
     \<and> (\<forall>e \<in> set es. 0 < eAmount e \<and> eTransactionID e = tID t' \<and> eMerchantID e = Some (tMerchantID t') \<and> eCurrency e = tCurrency t')
     \<and> captured_in (tID t') es = tCapturedAmount t' - tCapturedAmount r
     \<and> refunded_in (tID t') es = tRefundedAmount t' - tRefundedAmount r
     \<and> 0 \<le> fees_in (tID t') es
     \<and> fees_in (tID t') es \<le> Fee (tCapturedAmount t' - tCapturedAmount r) fee
     \<and> (tStatus t' = StatusSettled \<or> tStatus t' = StatusRefunded
        \<or> (paid_in (tID t') es = 0 \<and> tStatus r \<noteq> StatusSettled \<and> tStatus r \<noteq> StatusRefunded))"

lemma sums_absent:
  assumes "\<forall>e \<in> set es. eTransactionID e \<noteq> i"
  shows "captured_in i es = 0" "refunded_in i es = 0" "fees_in i es = 0" "paid_in i es = 0"
  using assms by (auto simp: sums_in_defs paid_in_def intro!: sum_where_none)

lemma sums_foreign:
  assumes "\<forall>e \<in> set es. eTransactionID e = j" and "i \<noteq> j"
  shows "captured_in i es = 0" "refunded_in i es = 0" "fees_in i es = 0" "paid_in i es = 0"
  using assms by (auto intro!: sums_absent)

lemma booked_after:
  assumes "booked fee es0 r" "books fee r t' es" "tID t' = tID r" "tAmount t' = tAmount r"
    "0 \<le> tCapturedAmount r" "tCapturedAmount r \<le> tCapturedAmount t'" "tCapturedAmount t' \<le> tAmount t'"
  shows "booked fee (es0 @ es) t'"
proof -
  have "fees_in (tID t') (es0 @ es) \<le> Fee (tCapturedAmount t') fee" if "fee_exact (tAmount t') fee"
    using Fee_superadd [of "tCapturedAmount r" "tCapturedAmount t' - tCapturedAmount r" "tAmount t'" fee]
      assms that by (auto simp: booked_def books_def)
  with assms show ?thesis by (auto simp: booked_def books_def)
qed

lemma wf_txn_version [simp]: "wf_txn (u\<lparr> tVersion := v, tUpdatedAt := now \<rparr>) = wf_txn u"
  by (cases "tStatus u") (simp_all add: wf_txn_def wf_status_def)

text \<open>The rows after the write, seen from the row before it.\<close>

lemma row_commitE:
  assumes "gw_inv fee d" and rc: "row_commit i oper es event t' d d'" and op: "lifecycle_operation oper"
  obtains r new where "row_of i d = Some r" "r \<in> set (dbTransactions d)" "tID r = i"
    "tID t' = i" "ref_key t' = ref_key r" "tAmount t' = tAmount r" "tMerchantID t' = tMerchantID r"
    "tCurrency t' = tCurrency r" "wf_txn r" "wf_txn t'" "tCapturedAmount r \<le> tCapturedAmount t'"
    "dbTransactions d' = map (\<lambda>x. if tID x = i then t' else x) (dbTransactions d)"
    "\<And>x. x \<in> set (dbTransactions d) \<Longrightarrow> tID x = i \<Longrightarrow> x = r"
    "dbLedger d' = dbLedger d @ new" "map unnumbered new = map unnumbered es"
proof -
  from rc obtain r u now new where r: "row_of i d = Some r" "oper r = Inr u"
    and t': "t' = u\<lparr> tVersion := tVersion u + 1, tUpdatedAt := now \<rparr>"
    and rows: "dbTransactions d' = dbTransactions (set_row t' d)"
    and new: "dbLedger d' = dbLedger d @ new" "map unnumbered new = map unnumbered es"
    by (auto simp: row_commit_def adds_entries_def)
  from row_of_Some [OF r(1)] have rin: "r \<in> set (dbTransactions d)" and ri: "tID r = i" by auto
  have wfr: "wf_txn r" using gw_invD(3) [OF assms(1) rin] .
  have id: "same_identity r u" using lifecycle_operation.oper_identity [OF op r(2)] .
  have "wf_txn t'" using lifecycle_operation.oper_wf [OF op wfr r(2)] t' by simp
  moreover have "tCapturedAmount r \<le> tCapturedAmount t'"
    using lifecycle_operation.oper_mono [OF op wfr r(2)] t' by simp
  moreover have "dbTransactions d' = map (\<lambda>x. if tID x = i then t' else x) (dbTransactions d)"
    using rows id t' ri by (simp add: set_row_def same_identity_def)
  moreover have "x = r" if "x \<in> set (dbTransactions d)" "tID x = i" for x
    using row_of_mem [OF gw_invD(1) [OF assms(1)] that(1)] r(1) that(2) by simp
  moreover have "tID t' = i" "ref_key t' = ref_key r" "tAmount t' = tAmount r"
    "tMerchantID t' = tMerchantID r" "tCurrency t' = tCurrency r"
    using id t' ri by (simp_all add: same_identity_def ref_key_def)
  ultimately show thesis using r(1) rin ri wfr new by (intro that [of r new])
qed

lemma owned_after:
  assumes own: "\<And>e. e \<in> set es0 \<Longrightarrow> entry_owned ts e" and b: "books fee r t' es"
    and new: "map unnumbered new = map unnumbered es"
    and same: "\<And>x. x \<in> set ts \<Longrightarrow> tID x = i \<Longrightarrow> x = r" "tID t' = i" "tMerchantID t' = tMerchantID r"
      "tCurrency t' = tCurrency r" "tID r = i" "r \<in> set ts"
    and e: "e \<in> set (es0 @ new)"
  shows "entry_owned (map (\<lambda>x. if tID x = i then t' else x) ts) e"
proof -
  consider "e \<in> set es0" | "e \<in> set new" using e by auto
  then show ?thesis
  proof cases
    case 1
    with own obtain t where t: "t \<in> set ts" "tID t = eTransactionID e"
      "eMerchantID e = Some (tMerchantID t)" "eCurrency e = tCurrency t" by (auto simp: entry_owned_def)
    have "(if tID t = i then t' else t) \<in> set (map (\<lambda>x. if tID x = i then t' else x) ts)"
      using t(1) by auto
    moreover have "tID t = i \<Longrightarrow> t = r" by (rule same(1) [OF t(1)])
    moreover have "0 < eAmount e" using own [OF 1] by (simp add: entry_owned_def)
    ultimately show ?thesis unfolding entry_owned_def
      using t(2-4) same(2-5) by (cases "tID t = i") (metis (no_types))+
  next
    case 2
    then have "unnumbered e \<in> set (map unnumbered es)" by (simp flip: new)
    then obtain e' where "e' \<in> set es" "unnumbered e = unnumbered e'" by auto
    then have "0 < eAmount e \<and> eTransactionID e = tID t' \<and> eMerchantID e = Some (tMerchantID t')
        \<and> eCurrency e = tCurrency t'"
      using b unfolding books_def by (metis unnumbered_simps(3,4,6,7))
    moreover have "t' \<in> set (map (\<lambda>x. if tID x = i then t' else x) ts)" using same(5,6) by auto
    ultimately show ?thesis unfolding entry_owned_def by (metis (no_types))
  qed
qed

lemma booked_rows_after:
  assumes inv: "\<And>t. t \<in> set ts \<Longrightarrow> booked fee es0 t" and b: "books fee r t' es" "booked fee (es0 @ es) t'"
    and new: "map unnumbered new = map unnumbered es" and i: "tID t' = i"
    and x': "x' \<in> set (map (\<lambda>x. if tID x = i then t' else x) ts)"
  shows "booked fee (es0 @ new) x'"
proof -
  have sums: "captured_in j new = captured_in j es" "refunded_in j new = refunded_in j es"
    "fees_in j new = fees_in j es" "paid_in j new = paid_in j es" for j
    using sums_unnumbered [OF new] paid_in_unnumbered [OF new] by auto
  have es_i: "\<forall>e \<in> set es. eTransactionID e = i" using b i by (auto simp: books_def)
  from x' obtain x where x: "x \<in> set ts" "x' = (if tID x = i then t' else x)" by auto
  show ?thesis
  proof (cases "tID x = i")
    case True
    then show ?thesis using b(2) x by (simp add: booked_def sums)
  next
    case False
    then have "booked fee es0 x'" using x inv by simp
    then show ?thesis using False x sums_foreign [OF es_i False] by (simp add: booked_def sums)
  qed
qed

lemma row_commit_inv:
  assumes inv: "gw_inv fee d" and rc: "row_commit i oper es event t' d d'"
    and op: "lifecycle_operation oper"
    and bk: "\<And>r. row_of i d = Some r \<Longrightarrow> books fee r t' es"
  shows "gw_inv fee d'"
proof -
  obtain r new where r: "row_of i d = Some r" "r \<in> set (dbTransactions d)" "tID r = i"
    and id: "tID t' = i" "ref_key t' = ref_key r" "tAmount t' = tAmount r" "tMerchantID t' = tMerchantID r"
      "tCurrency t' = tCurrency r"
    and wf: "wf_txn r" "wf_txn t'" and mono: "tCapturedAmount r \<le> tCapturedAmount t'"
    and rows: "dbTransactions d' = map (\<lambda>x. if tID x = i then t' else x) (dbTransactions d)"
    and only: "\<And>x. x \<in> set (dbTransactions d) \<Longrightarrow> tID x = i \<Longrightarrow> x = r"
    and new: "dbLedger d' = dbLedger d @ new" "map unnumbered new = map unnumbered es"
    by (rule row_commitE [OF inv rc op]) blast
  note b = bk [OF r(1)]
  have "booked fee (dbLedger d @ es) t'"
    using booked_after [OF gw_invD(4) [OF inv r(2)] b] id r(3) mono wf_txn_bounds [OF wf(1)]
      wf_txn_bounds [OF wf(2)] by simp
  from booked_rows_after [OF gw_invD(4) [OF inv] b this new(2) id(1)]
  have 1: "booked fee (dbLedger d') x" if "x \<in> set (dbTransactions d')" for x
    using that unfolding rows new(1) by blast
  have 2: "entry_owned (dbTransactions d') e" if "e \<in> set (dbLedger d')" for e
    unfolding rows using owned_after [OF gw_invD(5) [OF inv] b new(2) only id(1,4,5) r(3,2)] that new(1) by simp
  obtain g where "\<And>e. e \<in> set es \<Longrightarrow> eEntryGroupID e = g" "balanced es" using b by (auto simp: books_def)
  then have 3: "groups_balanced (dbLedger d')"
    unfolding new(1) by (intro groups_balanced_append [OF gw_invD(6) [OF inv] _ _ new(2)])
  have 4: "map tID (dbTransactions d') = map tID (dbTransactions d)"
    "map ref_key (dbTransactions d') = map ref_key (dbTransactions d)"
    using rows id only by auto
  have 5: "wf_txn x" if "x \<in> set (dbTransactions d')" for x
    using that rows wf(2) gw_invD(3) [OF inv] by auto
  show ?thesis unfolding gw_inv_def distinct_rows_def 4
    using gw_invD(1,2) [OF inv] 1 2 3 5 by (auto simp: distinct_rows_def)
qed

lemma Fee_0 [simp]: "Fee 0 fee = 0"
  by (simp add: Fee_def)

lemma books_nothing:
  assumes "tCapturedAmount t' = tCapturedAmount r" "tRefundedAmount t' = tRefundedAmount r"
    "tStatus r \<noteq> StatusSettled" "tStatus r \<noteq> StatusRefunded"
  shows "books fee r t' []"
  using assms by (simp add: books_def balanced_def)

lemma row_commit_oper:
  assumes "row_commit i oper es event t' d d'" and "row_of i d = Some r"
  obtains u now where "oper r = Inr u" "t' = u\<lparr> tVersion := tVersion u + 1, tUpdatedAt := now \<rparr>"
  using assms by (auto simp: row_commit_def)

lemma books_capture:
  assumes wf: "wf_txn r" and cap: "Transaction_Capture amount now r = Inr u"
    and t': "t' = u\<lparr> tVersion := v, tUpdatedAt := n \<rparr>"
    and grp: "NewCaptureEntryGroup g t' amount (Fee amount fee) now = Inr grp"
  shows "books fee r t' (gEntries grp)"
proof -
  from cap wf have "0 < amount" "amount \<le> tAmount r" using wf_txn_bounds [OF wf] by (auto simp: Capture_Inr)
  then have a: "in64 amount" using wf_txn_bounds(1) [OF wf] by (simp add: in64_def)
  note f = Capture_wf_Inr [OF wf cap]
  have paid: "paid_in (tID t') (gEntries grp) = 0"
    using grp by (auto simp: NewCaptureEntryGroup_Inr [OF a] capture_entries_def paid_in_def)
  have fee: "0 \<le> Fee amount fee" using grp by (simp add: NewCaptureEntryGroup_Inr [OF a])
  have "tStatus r \<noteq> StatusSettled \<and> tStatus r \<noteq> StatusRefunded" using cap by (auto simp: Capture_Inr)
  then show ?thesis
    using sums_in_capture [OF a grp] capture_group.build_balanced [OF a grp]
      capture_group.build_origin [OF grp] capture_group.build_positive [OF grp] paid fee f t'
    by (auto simp: books_def)
qed

lemma books_refund:
  assumes wf: "wf_txn r" and ref: "Transaction_Refund amount now r = Inr u"
    and t': "t' = u\<lparr> tVersion := v, tUpdatedAt := n \<rparr>"
    and grp: "NewRefundEntryGroup g t' amount now = Inr grp"
  shows "books fee r t' (gEntries grp)"
proof -
  from ref wf have "0 < amount" "amount \<le> tAmount r" using wf_txn_bounds [OF wf] by (auto simp: Refund_Inr)
  then have a: "in64 amount" using wf_txn_bounds(1) [OF wf] by (simp add: in64_def)
  note f = Refund_wf_Inr [OF wf ref]
  have paid: "paid_in (tID t') (gEntries grp) = 0"
    using grp by (auto simp: NewRefundEntryGroup_Inr paid_in_def)
  have "tStatus r \<noteq> StatusRefunded" using ref by (auto simp: Refund_Inr)
  then show ?thesis
    using sums_in_refund [OF grp] refund_group.build_balanced [OF a grp]
      refund_group.build_origin [OF grp] refund_group.build_positive [OF grp] paid f t'
    by (auto simp: books_def)
qed

lemma books_settle:
  assumes "Transaction_Settle now r = Inr u" and t': "t' = u\<lparr> tVersion := v, tUpdatedAt := n \<rparr>"
  shows "books fee r t' (payout_entries fee g t' now)"
  using assms by (auto simp: books_def payout_entries_def Settle_Inr balanced_def sums_in_defs)

section \<open>The gateway as a transition system\<close>

inductive gw_step :: "int \<Rightarrow> db \<Rightarrow> db \<Rightarrow> bool" for fee where
  create: "NewTransaction i m r a c md now = Inr t \<Longrightarrow> in64 a \<Longrightarrow>
    TransactionRepo_Create f t d = Inr d' \<Longrightarrow> gw_step fee d d'"
| authorize: "authorize_body x i res d = Inr (t', d') \<Longrightarrow> gw_step fee d d'"
| failed: "fail_body x i code d = Inr (v, d') \<Longrightarrow> gw_step fee d d'"
| capture: "capture_body fee x m i amount d = Inr (t', d') \<Longrightarrow> gw_step fee d d'"
| refund: "refund_body x m i amount d = Inr (t', d') \<Longrightarrow> gw_step fee d d'"
| void: "void_body x m i d = Inr (t', d') \<Longrightarrow> gw_step fee d d'"
| settle: "settle_body fee x i d = Inr (v, d') \<Longrightarrow> gw_step fee d d'"
| merchant: "MerchantRepo_Create f m d = Inr d' \<Longrightarrow> gw_step fee d d'"
| callback: "UpdateWebhook f dbnow i url d = Inr d' \<Longrightarrow> gw_step fee d d'"
| claim: "ClaimDue f dbnow locked limit now d = Inr (ws, d') \<Longrightarrow> gw_step fee d d'"
| attempt: "UpdateAttempt f dbnow w d = Inr d' \<Longrightarrow> gw_step fee d d'"
| release: "ReleaseStale f dbnow age now d = Inr (n, d') \<Longrightarrow> gw_step fee d d'"

lemma create_inv:
  assumes inv: "gw_inv fee d" and new: "NewTransaction i m r a c md now = Inr t" "in64 a"
    and cr: "TransactionRepo_Create f t d = Inr d'"
  shows "gw_inv fee d'"
proof -
  have wf: "wf_txn t" by (rule wf_NewTransaction [OF new(2,1)])
  from new(1) have t: "tStatus t = StatusCreated" "tCapturedAmount t = 0" "tRefundedAmount t = 0"
    "tAuthorizedAt t = None" "tCapturedAt t = None"
    by (auto simp: NewTransaction_Inr)
  from cr have d': "d' = d\<lparr> dbTransactions := dbTransactions d @ [inserted_row t] \<rparr>"
    and fresh: "\<forall>x \<in> set (dbTransactions d). tID x \<noteq> tID t"
      "\<forall>x \<in> set (dbTransactions d). \<not> (tMerchantID x = tMerchantID t \<and> tReference x = tReference t)"
    by (auto simp: TransactionRepo_Create_def list_ex_iff split: option.splits if_splits)
  have row: "wf_txn (inserted_row t)" "tID (inserted_row t) = tID t" "ref_key (inserted_row t) = ref_key t"
    using wf t by (simp_all add: inserted_row_def wf_txn_def wf_status_def ref_key_def)
  have "\<forall>e \<in> set (dbLedger d). eTransactionID e \<noteq> tID t"
    using gw_invD(5) [OF inv] fresh(1) by (force simp: entry_owned_def)
  from sums_absent [OF this] have "booked fee (dbLedger d) (inserted_row t)"
    using t by (simp add: booked_def inserted_row_def)
  then show ?thesis
    using inv row fresh
    by (auto simp: gw_inv_def d' distinct_rows_def entry_owned_def ref_key_def image_iff)
qed

lemma gw_step_inv:
  assumes "gw_step fee d d'" and inv: "gw_inv fee d"
  shows "gw_inv fee d'"
  using assms(1)
proof cases
  case (create i m r a c md now t f)
  then show ?thesis using create_inv [OF inv] by blast
next
  case (authorize x i res t')
  note rc = authorize_commit [OF gw_invD(1) [OF inv] authorize]
  show ?thesis
    by (rule row_commit_inv [OF inv rc authorize_op.lifecycle_operation_axioms],
        rule row_commit_oper [OF rc], assumption) (auto simp: Authorize_Inr intro!: books_nothing)
next
  case (failed x i code v)
  from fail_commit [OF gw_invD(1) [OF inv] failed] consider "d' = d"
    | t' where "row_commit i (Transaction_Fail code (xNow x)) [] EventPaymentFailed t' d d'" by blast
  then show ?thesis
  proof cases
    case 2
    show ?thesis
      by (rule row_commit_inv [OF inv 2 fail_op.lifecycle_operation_axioms],
          rule row_commit_oper [OF 2], assumption) (auto simp: Fail_Inr intro!: books_nothing)
  qed (use inv in simp)
next
  case (capture x m i amount t')
  from capture_commit [OF gw_invD(1) [OF inv] capture] obtain grp where
    grp: "NewCaptureEntryGroup (xGroupID x) t' amount (Fee amount fee) (xNow x) = Inr grp"
    and rc: "row_commit i (Transaction_Capture amount (xNow x)) (gEntries grp) EventPaymentCaptured t' d d'" by blast
  show ?thesis
    by (rule row_commit_inv [OF inv rc capture_op.lifecycle_operation_axioms],
        rule row_commit_oper [OF rc], assumption)
      (use books_capture [OF _ _ _ grp] gw_invD(3) [OF inv] row_of_Some in blast)
next
  case (refund x m i amount t')
  from refund_commit [OF gw_invD(1) [OF inv] refund] obtain grp where
    grp: "NewRefundEntryGroup (xGroupID x) t' amount (xNow x) = Inr grp"
    and rc: "row_commit i (Transaction_Refund amount (xNow x)) (gEntries grp) EventPaymentRefunded t' d d'" by blast
  show ?thesis
    by (rule row_commit_inv [OF inv rc refund_op.lifecycle_operation_axioms],
        rule row_commit_oper [OF rc], assumption)
      (use books_refund [OF _ _ _ grp] gw_invD(3) [OF inv] row_of_Some in blast)
next
  case (void x m i t')
  from void_commit [OF gw_invD(1) [OF inv] void]
  have rc: "row_commit i (Transaction_Void (xNow x)) [] EventPaymentVoided t' d d'" by blast
  show ?thesis
    by (rule row_commit_inv [OF inv rc void_op.lifecycle_operation_axioms],
        rule row_commit_oper [OF rc], assumption) (auto simp: Void_Inr intro!: books_nothing)
next
  case (settle x i v)
  from settle_commit [OF gw_invD(1) [OF inv] settle] consider "d' = d"
    | t' where "row_commit i (Transaction_Settle (xNow x)) (payout_entries fee (xGroupID x) t' (xNow x))
           EventPaymentSettled t' d d'" by blast
  then show ?thesis
  proof cases
    case 2
    show ?thesis
      by (rule row_commit_inv [OF inv 2 settle_op.lifecycle_operation_axioms],
          rule row_commit_oper [OF 2], assumption) (rule books_settle)
  qed (use inv in simp)
next
  case (merchant f m)
  then have "dbTransactions d' = dbTransactions d" "dbLedger d' = dbLedger d"
    by (auto simp: MerchantRepo_Create_def split: option.splits if_splits)
  then show ?thesis using gw_inv_frame inv by blast
next
  case (callback f dbnow i url)
  then have "dbTransactions d' = dbTransactions d" "dbLedger d' = dbLedger d"
    by (auto simp: UpdateWebhook_def split: option.splits if_splits)
  then show ?thesis using gw_inv_frame inv by blast
next
  case (claim f dbnow locked limit now ws)
  then have "dbTransactions d' = dbTransactions d" "dbLedger d' = dbLedger d"
    by (auto simp: ClaimDue_Inr)
  then show ?thesis using gw_inv_frame inv by blast
next
  case (attempt f dbnow w)
  then have "dbTransactions d' = dbTransactions d" "dbLedger d' = dbLedger d"
    by (auto simp: UpdateAttempt_def split: option.splits if_splits)
  then show ?thesis using gw_inv_frame inv by blast
next
  case (release f dbnow age now n)
  then have "dbTransactions d' = dbTransactions d" "dbLedger d' = dbLedger d"
    by (auto simp: ReleaseStale_def split: option.splits)
  then show ?thesis using gw_inv_frame inv by blast
qed

interpretation gateway: invariant_system gw_start "gw_step fee" "gw_inv fee" for fee
  by unfold_locales (auto intro: gw_start_inv gw_step_inv)

end
