(* ===== verification/Guarantees.thy ===== *)
theory Guarantees
  imports Gateway
begin

text \<open>
  What the payment and settlement services guarantee under every interleaving: each call is a
  sequence of steps of the gateway, rows and journal lines are never lost, a merchant reaches
  its own transactions only, and the outbox announces every money movement once.
\<close>

section \<open>Calls are sequences of steps\<close>

text \<open>Other sessions do what the gateway does: any number of its steps.\<close>

definition gap_ok :: "int \<Rightarrow> (db \<Rightarrow> db) \<Rightarrow> bool" where
  "gap_ok fee g \<longleftrightarrow> (\<forall>d. (gw_step fee)\<^sup>*\<^sup>* d (g d))"

lemma gap_run: "gap_ok fee g \<Longrightarrow> (gw_step fee)\<^sup>*\<^sup>* d0 d \<Longrightarrow> (gw_step fee)\<^sup>*\<^sup>* d0 (g d)"
  by (meson gap_ok_def rtranclp_trans)

lemma WithTx_run:
  assumes "(gw_step fee)\<^sup>*\<^sup>* d0 d" and "\<And>r d'. fn d = Inr (r, d') \<Longrightarrow> gw_step fee d d'"
  shows "(gw_step fee)\<^sup>*\<^sup>* d0 (snd (WithTx f fn d))"
  by (cases rule: WithTx_cases [of f fn d]) (use assms in \<open>auto intro: rtranclp.rtrancl_into_rtrancl\<close>)

lemma Payment_Capture_cases:
  obtains (rejected) err where "Payment_Capture fee acq p x m i amount d = (Inl err, d)"
  | (unanswered) err where "Payment_Capture fee acq p x m i amount d = (Inl err, pGap p d)"
  | (answered) a where "Payment_Capture fee acq p x m i amount d = WithTx (xTx x) (capture_body fee x m i a) (pGap p d)"
proof (cases "GetByMerchantAndID (pGet p) m i d")
  case (Inl err)
  then show thesis using rejected by (simp add: Payment_Capture_def)
next
  case (Inr txn)
  let ?a = "if amount = 0 then RemainingCapturable txn else amount"
  show thesis
  proof (cases "Transaction_Capture ?a (pNow p) txn")
    case (Inl err)
    with Inr show thesis using rejected by (simp add: Payment_Capture_def Let_def split del: if_split)
  next
    case pre: (Inr u)
    show thesis
    proof (cases "acqCapture acq (tAcquirerRef txn) ?a")
      case (Inl err)
      with Inr pre show thesis using unanswered by (simp add: Payment_Capture_def Let_def split del: if_split)
    next
      case ans: (Inr v)
      with Inr pre show thesis using answered by (simp add: Payment_Capture_def Let_def split del: if_split)
    qed
  qed
qed

lemma Payment_Capture_run:
  assumes "gap_ok fee (pGap p)"
  shows "(gw_step fee)\<^sup>*\<^sup>* d (snd (Payment_Capture fee acq p x m i amount d))"
  by (cases rule: Payment_Capture_cases [of fee acq p x m i amount d])
    (simp_all add: gap_run [OF assms] WithTx_run [OF gap_run [OF assms]] gw_step.capture)

lemma Payment_Refund_cases:
  obtains (rejected) err where "Payment_Refund acq p x m i amount d = (Inl err, d)"
  | (unanswered) err where "Payment_Refund acq p x m i amount d = (Inl err, pGap p d)"
  | (answered) a where "Payment_Refund acq p x m i amount d = WithTx (xTx x) (refund_body x m i a) (pGap p d)"
proof (cases "GetByMerchantAndID (pGet p) m i d")
  case (Inl err)
  then show thesis using rejected by (simp add: Payment_Refund_def)
next
  case (Inr txn)
  let ?a = "if amount = 0 then RemainingRefundable txn else amount"
  show thesis
  proof (cases "Transaction_Refund ?a (pNow p) txn")
    case (Inl err)
    with Inr show thesis using rejected by (simp add: Payment_Refund_def Let_def split del: if_split)
  next
    case pre: (Inr u)
    show thesis
    proof (cases "acqRefund acq (tAcquirerRef txn) ?a")
      case (Inl err)
      with Inr pre show thesis using unanswered by (simp add: Payment_Refund_def Let_def split del: if_split)
    next
      case ans: (Inr v)
      with Inr pre show thesis using answered by (simp add: Payment_Refund_def Let_def split del: if_split)
    qed
  qed
qed

lemma Payment_Refund_run:
  assumes "gap_ok fee (pGap p)"
  shows "(gw_step fee)\<^sup>*\<^sup>* d (snd (Payment_Refund acq p x m i amount d))"
  by (cases rule: Payment_Refund_cases [of acq p x m i amount d])
    (simp_all add: gap_run [OF assms] WithTx_run [OF gap_run [OF assms]] gw_step.refund)

lemma Payment_Void_cases:
  obtains (rejected) err where "Payment_Void acq p x m i d = (Inl err, d)"
  | (unanswered) err where "Payment_Void acq p x m i d = (Inl err, pGap p d)"
  | (answered)  "Payment_Void acq p x m i d = WithTx (xTx x) (void_body x m i) (pGap p d)"
proof (cases "GetByMerchantAndID (pGet p) m i d")
  case (Inl err)
  then show thesis using rejected by (simp add: Payment_Void_def)
next
  case (Inr txn)
  show thesis
  proof (cases "Transaction_Void (pNow p) txn")
    case (Inl err)
    with Inr show thesis using rejected by (simp add: Payment_Void_def Let_def split del: if_split)
  next
    case pre: (Inr u)
    show thesis
    proof (cases "acqVoid acq (tAcquirerRef txn)")
      case (Inl err)
      with Inr pre show thesis using unanswered by (simp add: Payment_Void_def Let_def split del: if_split)
    next
      case ans: (Inr v)
      with Inr pre show thesis using answered by (simp add: Payment_Void_def Let_def split del: if_split)
    qed
  qed
qed

lemma Payment_Void_run:
  assumes "gap_ok fee (pGap p)"
  shows "(gw_step fee)\<^sup>*\<^sup>* d (snd (Payment_Void acq p x m i d))"
  by (cases rule: Payment_Void_cases [of acq p x m i d])
    (simp_all add: gap_run [OF assms] WithTx_run [OF gap_run [OF assms]] gw_step.void)

lemma obtain_row_run:
  assumes "gap_ok fee (aRetryGap a)" and "in64 n" and "NewTransaction i m r n c md now = Inr t"
  shows "(gw_step fee)\<^sup>*\<^sup>* d (snd (obtain_row a inp t d))"
  using gap_run [OF assms(1) rtranclp.rtrancl_refl] gw_step.create [OF assms(3,2)]
  by (auto simp: obtain_row_def Let_def split: sum.splits)

definition auth_gaps_ok :: "int \<Rightarrow> auth_env \<Rightarrow> pre_env \<Rightarrow> bool" where
  "auth_gaps_ok fee a p \<longleftrightarrow> gap_ok fee (aRetryGap a) \<and> gap_ok fee (aGap a)
     \<and> gap_ok fee (aCaptureGap a) \<and> gap_ok fee (pGap p)"

lemma finalizeFailure_run:
  "(gw_step fee)\<^sup>*\<^sup>* d0 d \<Longrightarrow> (gw_step fee)\<^sup>*\<^sup>* d0 (snd (finalizeFailure x t code d))"
  unfolding finalizeFailure_def by (rule WithTx_run) (auto intro: gw_step.failed)

text \<open>The part of an authorization after the acquirer has answered.\<close>

lemma authorized_run:
  assumes g: "gap_ok fee (aCaptureGap a)" "gap_ok fee (pGap p)" and run: "(gw_step fee)\<^sup>*\<^sup>* d0 d"
  shows "(gw_step fee)\<^sup>*\<^sup>* d0 (snd
    (case WithTx (xTx x) (authorize_body x i res) d of
       (Inl err, d) \<Rightarrow> ((None, Some err), d)
     | (Inr txn, d) \<Rightarrow>
         if \<not> cap then ((Some txn, None), d)
         else (case Payment_Capture fee acq p xc (tMerchantID txn) (tID txn) (tAmount txn) (aCaptureGap a d) of
                 (Inl err, d) \<Rightarrow> ((Some txn, Some err), d)
               | (Inr captured, d) \<Rightarrow> ((Some captured, None), d))))"
proof -
  obtain res1 d1 where w: "WithTx (xTx x) (authorize_body x i res) d = (res1, d1)" by fastforce
  have r1: "(gw_step fee)\<^sup>*\<^sup>* d0 d1"
    using WithTx_run [OF run, of "authorize_body x i res" "xTx x"] w by (auto intro: gw_step.authorize)
  show ?thesis
  proof (cases res1)
    case (Inr txn)
    obtain res2 d2 where c: "Payment_Capture fee acq p xc (tMerchantID txn) (tID txn) (tAmount txn) (aCaptureGap a d1) = (res2, d2)"
      by fastforce
    have "(gw_step fee)\<^sup>*\<^sup>* d0 d2"
      using Payment_Capture_run [OF g(2), of "aCaptureGap a d1"] gap_run [OF g(1) r1] c
      by (metis rtranclp_trans snd_conv)
    then show ?thesis using Inr w c r1 by (cases res2) auto
  qed (use w r1 in simp)
qed

lemma Payment_Authorize_run:
  assumes g: "auth_gaps_ok fee a p" and "in64 (aiAmount inp)"
  shows "(gw_step fee)\<^sup>*\<^sup>* d (snd (Payment_Authorize fee acq a x p xc inp d))"
proof (cases "NewTransaction (aID a) (aiMerchantID inp) (aiReference inp) (aiAmount inp)
             (aiCurrency inp) (aiMetadata inp) (aNow a)")
  case (Inr txn)
  obtain res d1 where o: "obtain_row a inp txn d = (res, d1)" by fastforce
  have r1: "(gw_step fee)\<^sup>*\<^sup>* d d1"
    using obtain_row_run [OF _ assms(2) Inr, of fee a d inp] g o by (simp add: auth_gaps_ok_def)
  show ?thesis
  proof (cases res)
    case (Inl err)
    with Inr o r1 show ?thesis by (simp add: Payment_Authorize_def)
  next
    case (Inr t)
    have r2: "(gw_step fee)\<^sup>*\<^sup>* d (aGap a d1)" using gap_run [OF _ r1] g by (simp add: auth_gaps_ok_def)
    let ?ans = "acqAuthorize acq \<lparr> arTransactionID = tID t, arAmount = tAmount t,
                          arCurrency = tCurrency t, arCard = aiCard inp \<rparr>"
    show ?thesis
    proof (cases ?ans)
      case (Inl acqErr)
      show ?thesis
      proof (cases "as_DeclinedError acqErr")
        case None
        then show ?thesis using \<open>NewTransaction _ _ _ _ _ _ _ = _\<close> o Inr Inl r2
          by (simp add: Payment_Authorize_def Let_def)
      next
        case (Some cm)
        obtain code msg where cm: "cm = (code, msg)" by fastforce
        obtain fr d3 where f: "finalizeFailure x t code (aGap a d1) = (fr, d3)" by fastforce
        with finalizeFailure_run [OF r2, of x t code] have "(gw_step fee)\<^sup>*\<^sup>* d d3" by simp
        then show ?thesis using \<open>NewTransaction _ _ _ _ _ _ _ = _\<close> o Inr Inl Some cm f
          by (cases fr) (simp_all add: Payment_Authorize_def Let_def)
      qed
    next
      case ok: (Inr res')
      show ?thesis using \<open>NewTransaction _ _ _ _ _ _ _ = _\<close> o Inr ok
          authorized_run [OF _ _ r2, where a = a and p = p and x = x and i = "tID t" and res = res'
            and cap = "aiCapture inp" and acq = acq and xc = xc] g
        by (simp add: Payment_Authorize_def Let_def auth_gaps_ok_def)
    qed
  qed
qed (simp add: Payment_Authorize_def)

lemma settle_loop_run:
  assumes "\<And>k. gap_ok fee (gap k)" and "(gw_step fee)\<^sup>*\<^sup>* d0 d"
  shows "(gw_step fee)\<^sup>*\<^sup>* d0 (snd (settle_loop fee xs gap k n ts d))"
  using assms(2)
proof (induction ts arbitrary: k n d)
  case (Cons t ts)
  obtain res d1 where w: "WithTx (xTx (xs k)) (settle_body fee (xs k) (tID t)) (gap k d) = (res, d1)" by fastforce
  have "(gw_step fee)\<^sup>*\<^sup>* d0 d1"
    using WithTx_run [OF gap_run [OF assms(1) Cons.prems], of "settle_body fee (xs k) (tID t)" k "xTx (xs k)"] w
    by (auto intro: gw_step.settle)
  then show ?case using Cons.IH Cons.prems w by (cases res) simp_all
qed simp

definition run_gaps_ok :: "int \<Rightarrow> run_env \<Rightarrow> bool" where
  "run_gaps_ok fee e \<longleftrightarrow> gap_ok fee (rGap1 e) \<and> gap_ok fee (rGap2 e) \<and> (\<forall>k. gap_ok fee (rSettleGap e k))"

lemma Run_run:
  assumes "run_gaps_ok fee e"
  shows "(gw_step fee)\<^sup>*\<^sup>* d (snd (Run fee e date d))"
proof -
  let ?d1 = "rGap1 e d" let ?d2 = "rGap2 e (rGap1 e d)"
  have r1: "(gw_step fee)\<^sup>*\<^sup>* d ?d1" and r2: "(gw_step fee)\<^sup>*\<^sup>* d ?d2"
    using assms gap_run by (auto simp: run_gaps_ok_def)
  have r3: "(gw_step fee)\<^sup>*\<^sup>* d (snd (settle fee (rSettle e) (rSettleGap e) txns ?d2))" for txns
    unfolding settle_def by (rule settle_loop_run [OF _ r2]) (use assms in \<open>simp add: run_gaps_ok_def\<close>)
  show ?thesis unfolding Run_def Let_def using r1 r2 r3
    by (auto split: sum.splits prod.splits option.splits) (metis snd_conv)+
qed

section \<open>Rows make progress and are never lost\<close>

definition status_reach :: "Status \<Rightarrow> Status \<Rightarrow> bool" where
  "status_reach = (\<lambda>s s'. s' \<in> set (transitions_of s))\<^sup>*\<^sup>*"

lemma status_reach_refl [simp]: "status_reach s s"
  by (simp add: status_reach_def)

lemma status_reach_step: "s' = s \<or> s' \<in> set (transitions_of s) \<Longrightarrow> status_reach s s'"
  by (auto simp: status_reach_def)

lemma status_reach_trans: "status_reach s s' \<Longrightarrow> status_reach s' s'' \<Longrightarrow> status_reach s s''"
  by (auto simp: status_reach_def)

lemma status_reach_settled: "status_reach StatusSettled s \<Longrightarrow> s = StatusSettled \<or> s = StatusRefunded"
  unfolding status_reach_def by (induction rule: rtranclp_induct) (auto simp: transitions_of_def)

definition progress :: "transaction \<Rightarrow> transaction \<Rightarrow> bool" where
  "progress t t' \<longleftrightarrow> tID t' = tID t \<and> tMerchantID t' = tMerchantID t \<and> tReference t' = tReference t
     \<and> tAmount t' = tAmount t \<and> tCurrency t' = tCurrency t
     \<and> tCapturedAmount t \<le> tCapturedAmount t' \<and> tRefundedAmount t \<le> tRefundedAmount t'
     \<and> status_reach (tStatus t) (tStatus t') \<and> (IsTerminal (tStatus t) \<longrightarrow> t' = t)"

lemma progress_refl [simp]: "progress t t"
  by (simp add: progress_def)

lemma progress_trans: "progress t u \<Longrightarrow> progress u v \<Longrightarrow> progress t v"
  by (auto simp: progress_def intro: status_reach_trans)

lemma row_commit_progress:
  assumes inv: "gw_inv fee d" and rc: "row_commit i oper es event t' d d'" and op: "lifecycle_operation oper"
    and r: "row_of j d = Some r"
  shows "\<exists>r'. row_of j d' = Some r' \<and> progress r r'"
proof -
  from rc obtain q u now where q: "row_of i d = Some q" "oper q = Inr u"
    and t': "t' = u\<lparr> tVersion := tVersion u + 1, tUpdatedAt := now \<rparr>"
    and rows: "dbTransactions d' = dbTransactions (set_row t' d)"
    by (auto simp: row_commit_def)
  have id: "same_identity q u" using lifecycle_operation.oper_identity [OF op q(2)] .
  then have "tID t' = i" using t' row_of_key [OF q(1)] by (simp add: same_identity_def)
  then have row': "row_of j d' = (if j = i then Some t' else row_of j d)"
    using rows q(1) row_of_set_row [of j t' d] by (simp add: row_of_def)
  have "progress q t'"
    using id t' lifecycle_operation.oper_mono [OF op _ q(2)] gw_invD(3) [OF inv] row_of_Some [OF q(1)]
      lifecycle_operation.oper_terminal [OF op, of q] q(2)
      lifecycle_operation.oper_status [OF op q(2)]
    by (auto simp: progress_def same_identity_def intro: status_reach_step)
  then show ?thesis using row' r q(1) by (cases "j = i") auto
qed

lemma row_of_frame: "dbTransactions d' = dbTransactions d \<Longrightarrow> row_of i d' = row_of i d"
  by (simp add: row_of_def)

lemma find_append_Some: "find P xs = Some x \<Longrightarrow> find P (xs @ ys) = Some x"
  by (induction xs) auto

lemma create_row:
  "TransactionRepo_Create f t d = Inr d' \<Longrightarrow> row_of i d = Some r \<Longrightarrow> row_of i d' = Some r"
  by (auto simp: TransactionRepo_Create_def row_of_def find_append_Some split: option.splits if_splits)

text \<open>A step is a new row, one committed write of a row, or leaves rows and journal alone.\<close>

lemma gw_step_kinds:
  assumes inv: "gw_inv fee d" and st: "gw_step fee d d'"
  obtains (created) t f where "TransactionRepo_Create f t d = Inr d'"
  | (committed) i oper es event t' where "row_commit i oper es event t' d d'" "lifecycle_operation oper"
  | (other) "dbTransactions d' = dbTransactions d" "dbLedger d' = dbLedger d"
      "mID ` set (dbMerchants d) \<subseteq> mID ` set (dbMerchants d')"
  using st
proof cases
  case (authorize x i res t')
  then show thesis using committed authorize_commit [OF gw_invD(1) [OF inv]] authorize_op.lifecycle_operation_axioms by blast
next
  case (failed x i code v)
  then show thesis using committed other fail_commit [OF gw_invD(1) [OF inv]] fail_op.lifecycle_operation_axioms by (metis order_refl)
next
  case (capture x m i amount t')
  then show thesis using committed capture_commit [OF gw_invD(1) [OF inv]] capture_op.lifecycle_operation_axioms by blast
next
  case (refund x m i amount t')
  then show thesis using committed refund_commit [OF gw_invD(1) [OF inv]] refund_op.lifecycle_operation_axioms by blast
next
  case (void x m i t')
  then show thesis using committed void_commit [OF gw_invD(1) [OF inv]] void_op.lifecycle_operation_axioms by blast
next
  case (settle x i v)
  then show thesis using committed other settle_commit [OF gw_invD(1) [OF inv]] settle_op.lifecycle_operation_axioms by (metis order_refl)
next
  case (merchant f n)
  then show thesis by (intro other) (auto simp: MerchantRepo_Create_def split: option.splits if_splits)
next
  case (callback f dbnow j url)
  then have "map mID (dbMerchants d') = map mID (dbMerchants d)" "dbTransactions d' = dbTransactions d" "dbLedger d' = dbLedger d"
    by (auto simp: UpdateWebhook_def split: option.splits if_splits)
  then show thesis by (intro other) (simp_all flip: set_map)
qed (use created other in \<open>auto simp: ClaimDue_Inr UpdateAttempt_def ReleaseStale_def split: option.splits if_splits\<close>)

lemma gw_step_progress:
  assumes inv: "gw_inv fee d" and st: "gw_step fee d d'" and r: "row_of i d = Some r"
  shows "(\<exists>r'. row_of i d' = Some r' \<and> progress r r') \<and> prefix (dbLedger d) (dbLedger d')"
  using inv st
proof (cases rule: gw_step_kinds)
  case (created t f)
  then have "dbLedger d' = dbLedger d"
    by (auto simp: TransactionRepo_Create_def split: option.splits if_splits)
  with create_row [OF created r] show ?thesis by (auto intro: progress_refl)
next
  case (committed j oper es event t')
  then have "prefix (dbLedger d) (dbLedger d')" by (auto simp: row_commit_def adds_entries_def)
  with row_commit_progress [OF inv committed r] show ?thesis by blast
next
  case other
  with r row_of_frame [OF other(1)] show ?thesis by (auto intro: progress_refl)
qed

lemma gw_run_progress:
  assumes "(gw_step fee)\<^sup>*\<^sup>* d d'" and "gw_inv fee d" and "row_of i d = Some r"
  shows "gw_inv fee d' \<and> (\<exists>r'. row_of i d' = Some r' \<and> progress r r') \<and> prefix (dbLedger d) (dbLedger d')"
  using assms(1)
proof (induction rule: rtranclp_induct)
  case base
  then show ?case using assms by (auto intro: progress_refl)
next
  case (step y z)
  then obtain r1 where y: "gw_inv fee y" "row_of i y = Some r1" "progress r r1" "prefix (dbLedger d) (dbLedger y)" by blast
  from gw_step_progress [OF y(1) step.hyps(2) y(2)] gw_step_inv [OF step.hyps(2) y(1)] y(3,4) show ?case
    by (meson prefix_order.trans progress_trans)
qed

section \<open>The demo world of the witnesses\<close>

definition demo_start :: db where
  "demo_start = \<lparr> dbMerchants = [demo_merchant], dbTransactions = [], dbLedger = [],
     dbLedgerSeq = 0, dbWebhooks = [] \<rparr>"

definition demo_tx :: "string \<Rightarrow> time \<Rightarrow> tx_env" where
  "demo_tx tag now = \<lparr> xTx = no_tx_faults, xGet = None, xUpdate = None, xLedger = (\<lambda>_. None),
     xWebhook = None, xDBNow = now, xNow = now, xPayloadNow = now, xQueueNow = now,
     xGroupID = ''g'' @ tag, xEventID = ''e'' @ tag, xDeliveryID = ''w'' @ tag,
     xMarshal = (\<lambda>p. Inr (epType p)) \<rparr>"

definition demo_in :: "bool \<Rightarrow> AuthorizeInput" where
  "demo_in capture = \<lparr> aiMerchantID = ''m1'', aiReference = ''ORDER-1'', aiAmount = 150000,
     aiCurrency = USD, aiCard = demo_card ''4242424242424242'', aiCapture = capture, aiMetadata = None \<rparr>"

definition demo_acq :: acquirer_port where
  "demo_acq = \<lparr> acqAuthorize = (\<lambda>req. Inr \<lparr> rsRef = ''auth_1'',
       rsCardLast4 = last4 (cNumber (arCard req)), rsCardBrand = brandOf (cNumber (arCard req)) \<rparr>),
     acqCapture = (\<lambda>ref a. Inr ''cap_1''), acqRefund = (\<lambda>ref a. Inr ''ref_1''),
     acqVoid = (\<lambda>ref. Inr ''void_1'') \<rparr>"

definition demo_auth :: auth_env where
  "demo_auth = \<lparr> aNow = 5, aID = ''t1'', aCreate = None, aGetRef = None, aRetryGap = id, aGap = id,
     aCaptureGap = id \<rparr>"

definition demo_pre :: "time \<Rightarrow> pre_env" where
  "demo_pre now = \<lparr> pGet = None, pNow = now, pGap = id \<rparr>"

text \<open>After an authorization of 1500.00, and after its capture.\<close>

definition demo_authorized :: db where
  "demo_authorized = snd (Payment_Authorize 200 demo_acq demo_auth (demo_tx ''1'' 10) (demo_pre 11)
     (demo_tx ''2'' 12) (demo_in False) demo_start)"

definition demo_captured :: db where
  "demo_captured = snd (Payment_Capture 200 demo_acq (demo_pre 11) (demo_tx ''2'' 12) ''m1'' ''t1'' 0
     demo_authorized)"

lemma gap_ok_id [simp]: "gap_ok fee id"
  by (simp add: gap_ok_def)

lemma demo_authorized_run: "(gw_step 200)\<^sup>*\<^sup>* demo_start demo_authorized"
  unfolding demo_authorized_def
  by (rule Payment_Authorize_run)
    (simp_all add: auth_gaps_ok_def demo_auth_def demo_pre_def demo_in_def in64_def)

lemma demo_captured_run: "(gw_step 200)\<^sup>*\<^sup>* demo_authorized demo_captured"
  unfolding demo_captured_def by (rule Payment_Capture_run) (simp add: demo_pre_def)

lemma demo_start_ok: "gw_start demo_start"
  by (simp add: gw_start_def demo_start_def)

lemma demo_inv: "gw_inv 200 demo_authorized" "gw_inv 200 demo_captured"
  using gateway.reachable_inv [OF demo_start_ok demo_authorized_run]
    gateway.reachable_inv [OF demo_start_ok rtranclp_trans [OF demo_authorized_run demo_captured_run]] by blast+

section \<open>Properties\<close>

definition demo_run :: run_env where
  "demo_run = \<lparr> rNow = 20, rList = None, rAggregate = None, rUnbalanced = None, rWrite = demo_write,
     rGap1 = id, rGap2 = id, rSettleGap = (\<lambda>_. id), rSettle = (\<lambda>k. demo_tx ''s'' 30) \<rparr>"

text \<open>
  In every database the gateway can reach from an empty one, the journal books for every
  transaction exactly what its row says, and the audit of the journal reports nothing.
\<close>

lemma reachable_books_agree:
  assumes "gw_start d0" and "(gw_step fee)\<^sup>*\<^sup>* d0 d" and "row_of i d = Some t"
  shows "captured_in i (dbLedger d) = tCapturedAmount t \<and> refunded_in i (dbLedger d) = tRefundedAmount t
    \<and> 0 \<le> tRefundedAmount t \<and> tRefundedAmount t \<le> tCapturedAmount t \<and> tCapturedAmount t \<le> tAmount t
    \<and> 0 \<le> fees_in i (dbLedger d)
    \<and> (fee_exact (tAmount t) fee \<longrightarrow> fees_in i (dbLedger d) \<le> Fee (tCapturedAmount t) fee)
    \<and> CheckInvariant None d = Inr []"
proof -
  have inv: "gw_inv fee d" by (rule gateway.reachable_inv [OF assms(1,2)])
  from row_of_Some [OF assms(3)] have t: "t \<in> set (dbTransactions d)" "tID t = i" by auto
  from gw_invD(4) [OF inv t(1)] gw_invD(3) [OF inv t(1)] gw_invD(6) [OF inv] t(2) show ?thesis
    by (auto simp: booked_def CheckInvariant_def FindUnbalancedGroups_Nil dest: wf_txn_bounds)
qed





text \<open>
  C14. A capture, refund or void that returns an error has written nothing: the database is
  the one the call found, before or after the acquirer's answer. The only exception is a
  COMMIT that the server applied but whose answer was lost.
\<close>

theorem errors_leave_no_trace:
  assumes "\<not> (\<exists>e. fCommit (xTx x) = Some (e, True))"
  shows "(case Payment_Capture fee acq p x m i amount d of (Inl err, d') \<Rightarrow> d' = d \<or> d' = pGap p d | _ \<Rightarrow> True)
    \<and> (case Payment_Refund acq p x m i amount d of (Inl err, d') \<Rightarrow> d' = d \<or> d' = pGap p d | _ \<Rightarrow> True)
    \<and> (case Payment_Void acq p x m i d of (Inl err, d') \<Rightarrow> d' = d \<or> d' = pGap p d | _ \<Rightarrow> True)"
proof -
  have w: "case WithTx (xTx x) fn e of (Inl err, d') \<Rightarrow> d' = d \<or> d' = e | _ \<Rightarrow> True" for fn :: "db \<Rightarrow> (transaction \<times> db) result" and e
    using assms by (auto dest: WithTx_Inl split: prod.splits sum.splits)
  show ?thesis
    by (intro conjI; (cases rule: Payment_Capture_cases [of fee acq p x m i amount d],
          simp, simp, simp only: w)?;
        (cases rule: Payment_Refund_cases [of acq p x m i amount d], simp, simp, simp only: w)?;
        (cases rule: Payment_Void_cases [of acq p x m i d], simp, simp, simp only: w)?)
qed

theorem errors_leave_no_trace_witness:
  "\<exists>err. Payment_Capture 200 demo_acq (demo_pre 11) ((demo_tx ''2'' 12)\<lparr> xLedger := (\<lambda>k. if k = 1 then Some (Opaque ''lost'') else None) \<rparr>)
     ''m1'' ''t1'' 0 demo_authorized = (Inl err, demo_authorized)"
proof -
  let ?x = "(demo_tx ''2'' 12)\<lparr> xLedger := (\<lambda>k. if k = 1 then Some (Opaque ''lost'') else None) \<rparr>"
  let ?c = "Payment_Capture 200 demo_acq (demo_pre 11) ?x ''m1'' ''t1'' 0 demo_authorized"
  have "case fst ?c of Inl e \<Rightarrow> True | Inr t \<Rightarrow> False" by code_simp
  then obtain err d' where c: "?c = (Inl err, d')" by (cases ?c) (auto split: sum.splits)
  have "\<not> (\<exists>e. fCommit (xTx ?x) = Some (e, True))" by (simp add: demo_tx_def no_tx_faults_def)
  from errors_leave_no_trace [OF this, where fee = 200 and acq = demo_acq and p = "demo_pre 11" and
      m = "''m1''" and i = "''t1''" and amount = 0 and d = demo_authorized] c
  show ?thesis by (auto simp: demo_pre_def)
qed

text \<open>
  C3. Of two concurrent captures that together exceed the authorized amount, at most one
  takes effect: once one has committed, the transaction of the other is refused and rolled
  back, whatever its own check before the acquirer call had seen, and whatever happened in
  between.
\<close>

theorem second_capture_refused:
  assumes "gw_inv fee d" and "row_of i d = Some r" and "capture_body fee x m i a d = Inr (t, d')"
    and "(gw_step fee)\<^sup>*\<^sup>* d' d''" and "tAmount r < tCapturedAmount r + a + b"
  shows "\<exists>err. WithTx f (capture_body fee y m' i b) d'' = (Inl err, d'')"
proof (rule ccontr)
  assume c: "\<nexists>err. WithTx f (capture_body fee y m' i b) d'' = (Inl err, d'')"
  then obtain t2 d3 where b2: "capture_body fee y m' i b d'' = Inr (t2, d3)"
    by (cases rule: WithTx_cases [of f "capture_body fee y m' i b" d'']) auto
  from capture_commit [OF gw_invD(1) [OF assms(1)] assms(3)] obtain grp :: entry_group where
    rc: "row_commit i (Transaction_Capture a (xNow x)) (gEntries grp) EventPaymentCaptured t d d'" by blast
  from row_commit_oper [OF rc assms(2)] obtain u now where u: "Transaction_Capture a (xNow x) r = Inr u"
    "t = u\<lparr> tVersion := tVersion u + 1, tUpdatedAt := now \<rparr>" .
  have wf: "wf_txn r" using gw_invD(3) [OF assms(1)] row_of_Some [OF assms(2)] by blast
  have t: "tCapturedAmount t = tCapturedAmount r + a" "tAmount t = tAmount r" "tID t = i"
    using Capture_wf_Inr(1) [OF wf u(1)] capture_op.oper_identity [OF u(1)] u(2) row_of_key [OF assms(2)]
    by (auto simp: same_identity_def)
  have row: "row_of i d' = Some t"
    using rc assms(2) t(3) row_of_set_row [of i t d] by (auto simp: row_commit_def row_of_def)
  have "gw_inv fee d'" using gw_step_inv [OF gw_step.capture [OF assms(3)] assms(1)] .
  from gw_run_progress [OF assms(4) this row] obtain r2 where
    inv2: "gw_inv fee d''" and r2: "row_of i d'' = Some r2" "progress t r2" by blast
  from capture_commit [OF gw_invD(1) [OF inv2] b2] r2(1) obtain v now2 where
    v: "Transaction_Capture b now2 r2 = Inr v" by (auto simp: row_commit_def)
  have "wf_txn r2" using gw_invD(3) [OF inv2] row_of_Some [OF r2(1)] by blast
  with v have "b \<le> tAmount r2 - tCapturedAmount r2" by (auto simp: Capture_Inr)
  with r2(2) t assms(5) show False by (auto simp: progress_def)
qed

theorem second_capture_refused_witness:
  "\<exists>err. WithTx no_tx_faults (capture_body 200 (demo_tx ''3'' 13) ''m1'' ''t1'' 150000) demo_captured
     = (Inl err, demo_captured)"
proof -
  have "map_option (\<lambda>r. (tAmount r, tCapturedAmount r)) (row_of ''t1'' demo_authorized) = Some (150000, 0)" by code_simp
  then obtain r where r: "row_of ''t1'' demo_authorized = Some r" "tAmount r = 150000" "tCapturedAmount r = 0" by auto
  let ?b = "capture_body 200 (demo_tx ''2'' 12) ''m1'' ''t1'' 150000 demo_authorized"
  have "case ?b of Inl e \<Rightarrow> False | Inr (t, d) \<Rightarrow> d = demo_captured" by code_simp
  then obtain t where b: "?b = Inr (t, demo_captured)" by (auto split: sum.splits)
  show ?thesis
    by (rule second_capture_refused [OF demo_inv(1) r(1) b rtranclp.rtrancl_refl]) (simp add: r)
qed

end
