(* ===== verification/Api.thy ===== *)
theory Api
  imports Router Paging Idem_Safety Guarantees
begin

text \<open>
  What the HTTP interface guarantees as a whole: every request does to the database what a
  sequence of gateway steps does, a request has an effect only with credentials, and the pages
  of a listing make up the listing.
\<close>

section \<open>Handlers and a relation on the database\<close>

text \<open>A handler keeps a relation if it leads from every database to a related one.\<close>

definition keeps :: "(db \<Rightarrow> db \<Rightarrow> bool) \<Rightarrow> 's handler \<Rightarrow> bool" where
  "keeps R nx \<longleftrightarrow> (\<forall>r h w. R (wDB w) (wDB (snd (nx r h w))))"

lemma keepsI: "(\<And>r h w. R (wDB w) (wDB (snd (nx r h w)))) \<Longrightarrow> keeps R nx"
  by (simp add: keeps_def)

lemma keepsD: "keeps R nx \<Longrightarrow> nx r h w = (out, w') \<Longrightarrow> wDB w = d \<Longrightarrow> R d (wDB w')"
  by (metis keeps_def snd_conv)

lemma keeps_snd: "keeps R nx \<Longrightarrow> R (wDB w) (wDB (snd (nx r h w)))"
  by (simp add: keeps_def)

lemma keeps_redis: "keeps R nx \<Longrightarrow> R (wDB w) (wDB (snd (nx r h (w\<lparr> wRedis := s \<rparr>))))"
  using keeps_snd [of R nx "w\<lparr> wRedis := s \<rparr>"] by simp

text \<open>
  The multiplexer's own middleware changes the context and possibly the answer, not the
  state the handler leaves.
\<close>

definition transparent :: "('s handler \<Rightarrow> 's handler) \<Rightarrow> bool" where
  "transparent chi \<longleftrightarrow> (\<forall>nx r h w. snd (chi nx r h w) = snd (nx r h w))"

lemma snd_Recoverer [simp]: "snd (Recoverer enc nx r h w) = snd (nx r h w)"
  by (cases "nx r h w") (simp add: Recoverer_def split: outcome.split)

lemma snd_NewRouter:
  assumes "transparent (dpChi dp)"
  obtains i h' where "snd (NewRouter dp q r h w) = snd (dispatch dp q (r\<lparr> hqRequestID := i \<rparr>) h' w)"
  using assms by (auto simp: NewRouter_def RequestID_def Let_def transparent_def)

text \<open>The contract: middleware keeps what the handlers behind it keep.\<close>

locale db_contract =
  fixes R :: "db \<Rightarrow> db \<Rightarrow> bool"
  assumes refl: "R d d"
begin

lemma keeps_AdminAuth: "keeps R nx \<Longrightarrow> keeps R (AdminAuth enc token nx)"
  by (simp add: keeps_def AdminAuth_def refl)

lemma keeps_Auth: "keeps R nx \<Longrightarrow> keeps R (Auth enc hmac A skew a nx)"
  by (simp add: keeps_def Auth_def refl split: sum.splits)

lemma keeps_RateLimit: "keeps R nx \<Longrightarrow> keeps R (RateLimit enc l e nx)"
  by (rule keepsI)
    (auto simp: RateLimit_def Let_def refl keeps_snd keeps_redis split: option.splits prod.splits sum.splits)

lemma keeps_Idempotency: "keeps R nx \<Longrightarrow> keeps R (Idempotency enc sha jc st e nx)"
  by (rule keepsI)
    (auto simp: Idempotency_def Let_def refl keepsD split: option.splits prod.splits sum.splits)

lemma keeps_merchant_facing: "keeps R nx \<Longrightarrow> keeps R (merchant_facing dp q nx)"
  by (simp add: merchant_facing_def keeps_Auth keeps_RateLimit)

lemma keeps_money_moving: "keeps R nx \<Longrightarrow> keeps R (money_moving dp q nx)"
  by (simp add: money_moving_def keeps_merchant_facing keeps_Idempotency)

text \<open>Handlers that only read.\<close>

lemma keeps_readers:
  "keeps R (Healthz cd)" "keeps R (Readyz cd f g)" "keeps R (WebhookReceiver cd hmac A fl now)"
  "keeps R (Merchants_Me cd)" "keeps R (Payments_List cd fl)" "keeps R (Payments_Get cd fl)"
  "keeps R (Ledger_Entries cd fl)" "keeps R (Ledger_Balance cd fl)" "keeps R (Ledger_Settlement cd bps e now)"
  by (auto simp: keeps_def refl Healthz_def Readyz_def WebhookReceiver_def Merchants_Me_def Payments_List_def
      Payments_Get_def Ledger_Entries_def Ledger_Balance_def Ledger_Settlement_def with_id_def Let_def
      split: sum.splits option.splits)

lemma keeps_dispatch:
  assumes "\<And>e. keeps R (serve_endpoint dp q e)"
  shows "keeps R (dispatch dp q)"
  using assms by (auto simp: keeps_def dispatch_def refl split: list.splits option.splits)

end

interpretation frame: db_contract "(=)"
  by unfold_locales simp

interpretation runs: db_contract "(gw_step fee)\<^sup>*\<^sup>*" for fee
  by unfold_locales simp

section \<open>Requests are sequences of gateway steps\<close>

text \<open>What a request meets: other sessions that do gateway steps, and amounts that fit the wire type.\<close>

definition request_ok :: "('s, 'f) deps \<Rightarrow> 's request_env \<Rightarrow> bool" where
  "request_ok dp q \<longleftrightarrow> auth_gaps_ok (dpFeeBPS dp) (qeAuthorize q) (qePre q)
     \<and> (\<forall>b v t. dePayment (dpCodecs dp) b = Inr (v, t) \<longrightarrow> in64 (cprAmount v))"

lemma decodeJSON_Inr: "decodeJSON dec r = Inr v \<Longrightarrow> dec (MaxBytesReader maxBodyBytes (hqBody r)) = Inr (v, False)"
  by (auto simp: decodeJSON_def split: sum.splits decode_error.splits if_splits)

lemma ToInput_amount: "ToInput up m v = Inr inp \<Longrightarrow> aiAmount inp = cprAmount v"
  by (auto simp: ToInput_def Let_def split: if_splits)

lemma keeps_Payments_Create:
  assumes g: "auth_gaps_ok fee a p" and wire: "\<forall>b v t. dePayment cd b = Inr (v, t) \<longrightarrow> in64 (cprAmount v)"
  shows "keeps (gw_step fee)\<^sup>*\<^sup>* (Payments_Create cd fee acq a x p xc)"
proof (rule keepsI)
  fix r h and w :: "'a world"
  have run: "(gw_step fee)\<^sup>*\<^sup>* (wDB w) d'"
    if "decodeJSON (dePayment cd) r = Inr v" "ToInput (toUpper cd) m v = Inr inp"
      "Payment_Authorize fee acq a x p xc inp (wDB w) = (res, d')" for v m inp res d'
    using Payment_Authorize_run [OF g, of inp "wDB w" acq x xc] that(3)
      wire decodeJSON_Inr [OF that(1)] ToInput_amount [OF that(2)] by fastforce
  show "(gw_step fee)\<^sup>*\<^sup>* (wDB w) (wDB (snd (Payments_Create cd fee acq a x p xc r h w)))"
    by (auto simp: Payments_Create_def run split: sum.splits option.splits prod.splits)
qed

lemma keeps_payment_handlers:
  assumes "gap_ok fee (pGap p)"
  shows "keeps (gw_step fee)\<^sup>*\<^sup>* (Payments_Capture cd fee acq p x)"
    "keeps (gw_step fee)\<^sup>*\<^sup>* (Payments_Refund cd acq p x)"
    "keeps (gw_step fee)\<^sup>*\<^sup>* (Payments_Void cd acq p x)"
  using Payment_Capture_run [OF assms] Payment_Refund_run [OF assms] Payment_Void_run [OF assms]
  by (auto simp: keeps_def Payments_Capture_def Payments_Refund_def Payments_Void_def with_id_def
      split: sum.splits option.splits prod.splits) (metis snd_conv)+

lemma keeps_Merchants_Create: "keeps (gw_step fee)\<^sup>*\<^sup>* (Merchants_Create cd A e)"
  by (rule keepsI)
    (auto simp: Merchants_Create_def intro: gw_step.merchant Create_Inr(5) split: sum.splits)

lemmas keeps_handlers = runs.keeps_readers keeps_Payments_Create keeps_payment_handlers keeps_Merchants_Create
  runs.keeps_AdminAuth runs.keeps_merchant_facing runs.keeps_money_moving

lemma keeps_serve:
  assumes "request_ok dp q"
  shows "keeps (gw_step (dpFeeBPS dp))\<^sup>*\<^sup>* (serve_endpoint dp q e)"
  using assms by (cases e) (auto simp: request_ok_def auth_gaps_ok_def intro!: keeps_handlers)

lemma api_steps:
  assumes "transparent (dpChi dp)" and "request_ok dp q"
  shows "(gw_step (dpFeeBPS dp))\<^sup>*\<^sup>* (wDB w) (wDB (snd (NewRouter dp q r h w)))"
  by (rule snd_NewRouter [OF assms(1), of q r h w])
    (simp add: keeps_snd [OF runs.keeps_dispatch [OF keeps_serve [OF assms(2)]]])

section \<open>Effects need credentials\<close>

definition routed :: "request \<Rightarrow> endpoint option" where
  "routed r = map_of (endpoints_at (hqPath r)) (hqMethod r)"

definition admin_request :: "('s, 'f) deps \<Rightarrow> request \<Rightarrow> bool" where
  "admin_request dp r \<longleftrightarrow> TrimPrefix (header_Get (hqHeader r) ''Authorization'') ''Bearer '' = dpAdminToken dp"

definition merchant_request :: "('s, 'f) deps \<Rightarrow> 's request_env \<Rightarrow> request \<Rightarrow> db \<Rightarrow> merchant \<Rightarrow> bool" where
  "merchant_request dp q r d m \<longleftrightarrow>
     (\<exists>body. readAndRestoreBody r = Inr body
        \<and> Authenticate (dpHmac dp) (dpCipher dp) (dpSkew dp) (akLookup (qeAuth q)) (akNow (qeAuth q))
            (signed_of r body) d = Inr m)"

lemma request_frame [simp]:
  "readAndRestoreBody (r\<lparr> hqRequestID := i \<rparr>) = readAndRestoreBody r"
  "readAndRestoreBody (r\<lparr> hqParamID := j \<rparr>) = readAndRestoreBody r"
  "signed_of (r\<lparr> hqRequestID := i \<rparr>) body = signed_of r body"
  "signed_of (r\<lparr> hqParamID := j \<rparr>) body = signed_of r body"
  by (simp_all add: readAndRestoreBody_eq signed_of_def)

lemma merchant_facing_effect:
  assumes "snd (merchant_facing dp q nx r h w) \<noteq> w"
  obtains m where "merchant_request dp q r (wDB w) m"
  using assms by (auto simp: merchant_facing_def Auth_def merchant_request_def split: sum.splits)

lemma money_moving_effect:
  assumes "wDB (snd (money_moving dp q nx r h w)) \<noteq> wDB w"
  shows "header_Get (hqHeader r) ''Idempotency-Key'' \<noteq> []"
proof
  assume none: "header_Get (hqHeader r) ''Idempotency-Key'' = []"
  have "wDB (snd (money_moving dp q nx r h w)) = wDB w"
    by (auto simp: none money_moving_def merchant_facing_def Auth_def RateLimit_def Idempotency_def Let_def
        split: sum.splits option.splits prod.splits)
  with assms show False by simp
qed

lemma read_endpoint_frame:
  assumes "wDB (snd (serve_endpoint dp q e r h w)) \<noteq> wDB w"
  shows "e = ECreateMerchant \<or> (\<exists>i. e = EVoid i) \<or> e = ECreatePayment \<or> (\<exists>i. e = ECapture i) \<or> (\<exists>i. e = ERefund i)"
proof (rule ccontr)
  assume "\<not> ?thesis"
  then have "keeps (=) (serve_endpoint dp q e)"
    by (cases e) (auto intro!: frame.keeps_readers frame.keeps_merchant_facing)
  with assms show False using keeps_snd by fastforce
qed

lemma serve_effect:
  assumes "snd (serve_endpoint dp q e r h w) \<noteq> w"
  shows "if e = ECreateMerchant then admin_request dp r else \<exists>m. merchant_request dp q r (wDB w) m"
  using assms
  by (cases e) (auto simp: AdminAuth_def admin_request_def Healthz_def Readyz_def WebhookReceiver_def Let_def
      money_moving_def split: if_splits sum.splits option.splits elim: merchant_facing_effect)

lemma effect_credentials:
  assumes chi: "transparent (dpChi dp)" and run: "snd (NewRouter dp q r h w) = w'" and "w' \<noteq> w"
  shows "\<exists>e. routed r = Some e
    \<and> (if e = ECreateMerchant then admin_request dp r else \<exists>m. merchant_request dp q r (wDB w) m)
    \<and> (wDB w' \<noteq> wDB w \<longrightarrow> e = ECreateMerchant \<or> (\<exists>i. e = EVoid i)
         \<or> header_Get (hqHeader r) ''Idempotency-Key'' \<noteq> [])"
proof -
  obtain i h' where w': "w' = snd (dispatch dp q (r\<lparr> hqRequestID := i \<rparr>) h' w)"
    using snd_NewRouter [OF chi, of q r h w] run by metis
  with \<open>w' \<noteq> w\<close> obtain e where e: "routed r = Some e"
    and s: "w' = snd (serve_endpoint dp q e (r\<lparr> hqRequestID := i, hqParamID := param_of e \<rparr>) h' w)"
    by (auto simp: dispatch_def routed_def split: list.splits option.splits)
  have cred: "if e = ECreateMerchant then admin_request dp r else \<exists>m. merchant_request dp q r (wDB w) m"
    using serve_effect [of dp q e "r\<lparr> hqRequestID := i, hqParamID := param_of e \<rparr>" h' w] s \<open>w' \<noteq> w\<close>
    by (cases "e = ECreateMerchant") (auto simp: admin_request_def merchant_request_def)
  have "e = ECreateMerchant \<or> (\<exists>i. e = EVoid i) \<or> header_Get (hqHeader r) ''Idempotency-Key'' \<noteq> []"
    if "wDB w' \<noteq> wDB w"
    using read_endpoint_frame [of dp q e _ h' w] that s
      money_moving_effect [of dp q _ "r\<lparr> hqRequestID := i, hqParamID := param_of e \<rparr>" h' w] by fastforce
  with e cred show ?thesis by blast
qed


section \<open>A concrete gateway\<close>

definition demo_deps :: "(server, unit) deps" where
  "demo_deps = \<lparr> dpCodecs = demo_codecs, dpHmac = demo_hmac, dpCipher = demo_aead, dpSkew = 300000000000,
     dpAdminToken = ''admin'', dpFeeBPS = 200, dpAcquirer = demo_acq, dpLimiter = NewLimiter keyspace_redis 10 60,
     dpStore = demo_store, dpSha = id, dpJson = demo_jc, dpChi = id \<rparr>"

definition demo_qenv :: "server request_env" where
  "demo_qenv = \<lparr> qeNewID = ''1'', qeAuth = \<lparr> akLookup = None, akNow = 1700000005000000000 \<rparr>,
     qeAllow = snd (demo_call 61), qeIdem = demo_idem 10, qeCreate = demo_create, qeAuthorize = demo_auth,
     qeTx1 = demo_tx ''1'' 10, qePre = demo_pre 11, qeTx2 = demo_tx ''2'' 12, qeRead = None,
     qeRun = demo_run, qePings = (None, None), qeNow = 10 \<rparr>"

lemma demo_ok: "transparent (dpChi demo_deps)" "request_ok demo_deps demo_qenv" "dpFeeBPS demo_deps = 200"
  by (simp_all add: transparent_def request_ok_def demo_deps_def demo_qenv_def demo_codecs_def
      auth_gaps_ok_def demo_auth_def demo_pre_def)

definition demo_register :: request where
  "demo_register = demo_http ''POST'' ''/api/v1/merchants'' [(''Authorization'', ''Bearer admin'')]"

lemma demo_register_effect:
  "wDB (snd (NewRouter demo_deps demo_qenv demo_register [] \<lparr> wRedis = demo_server, wDB = empty_db \<rparr>))
     = snd demo_registered"
proof -
  have routed: "endpoints_at ''/api/v1/merchants'' = [(''POST'', ECreateMerchant)]" by code_simp
  have "MerchantService_Create demo_aead demo_create \<lparr> ciName = ''Shop'', ciEmail = ''s@hop'',
      ciWebhookURL = ''http://shop/'' \<rparr> empty_db = Inr (fst demo_registered, snd demo_registered)"
    using demo_registered by (simp add: demo_shop_def)
  then show ?thesis
    by (simp add: NewRouter_def RequestID_def dispatch_def routed demo_register_def demo_http_def AdminAuth_def
        Merchants_Create_def decodeJSON_def demo_deps_def demo_qenv_def demo_codecs_def header_Get_def
        TrimPrefix_def HasPrefix_def Let_def case_prod_beta)
qed


end
