(* ===== verification/Dispatcher.thy ===== *)
theory Dispatcher
  imports Signer Gateway
begin

text \<open>
  \<open>internal/webhook/dispatcher.go\<close>: the worker that delivers the outbox. The HTTP client,
  the clock readings and the scheduling of the channel between poller and workers are
  parameters; what other sessions do to the database while a request is under way is a
  function on the database.
\<close>

record WebhookConfig =
  wcWorkers :: int
  wcMaxAttempts :: int
  wcPollInterval :: duration
  wcRequestTimeout :: duration
  wcShutdownTimeout :: duration

definition staleClaimTimeout :: duration where
  "staleClaimTimeout = 5 * 60 * Second"

section \<open>One request\<close>

record http_request =
  hrMethod :: string
  hrURL :: string
  hrHeader :: "(string \<times> string) list"
  hrBody :: string

text \<open>
  The client: whether a URL makes a request, and the answer to a request, which is a status
  code or a transport error.
\<close>

record http_client =
  hcNewRequest :: "string \<Rightarrow> fault"
  hcDo :: "http_request \<Rightarrow> int result"

definition callback_request :: "keyed_hash \<Rightarrow> time \<Rightarrow> string \<Rightarrow> string \<Rightarrow> delivery \<Rightarrow> http_request" where
  "callback_request hmac now url secret w =
     \<lparr> hrMethod = ''POST'', hrURL = url,
       hrHeader = [(''Content-Type'', ''application/json''),
                   (''User-Agent'', ''mini-payment-gateway/1.0''),
                   (''X-Webhook-Id'', dID w),
                   (''X-Event-Type'', event_string (dEventType w)),
                   (SignatureHeader, Sign hmac secret now (dPayload w))],
       hrBody = dPayload w \<rparr>"

definition post ::
  "keyed_hash \<Rightarrow> http_client \<Rightarrow> time \<Rightarrow> string \<Rightarrow> string \<Rightarrow> delivery \<Rightarrow> int result" where
  "post hmac client now url secret w =
     (case hcNewRequest client url of
        Some err \<Rightarrow> Inl (wrapf ''build request'' err)
      | None \<Rightarrow>
          (case hcDo client (callback_request hmac now url secret w) of
             Inl err \<Rightarrow> Inl (wrapf ''post webhook'' err)
           | Inr status \<Rightarrow>
               if status < 200 \<or> status > 299
               then Inl (Opaque (''endpoint returned '' @ show_int status))
               else Inr status))"

section \<open>One delivery\<close>

record deliver_env =
  vGet :: fault
  vClient :: http_client
  vSignNow :: time
  vGap :: "db \<Rightarrow> db"
  vNow :: time
  vRnd :: rat
  vPersist :: fault
  vDBNow :: time

definition persist :: "fault \<Rightarrow> time \<Rightarrow> delivery \<Rightarrow> db \<Rightarrow> db" where
  "persist f dbnow w d = (case UpdateAttempt f dbnow w d of Inl err \<Rightarrow> d | Inr d' \<Rightarrow> d')"

definition dispatcher_fail ::
  "WebhookConfig \<Rightarrow> deliver_env \<Rightarrow> string \<Rightarrow> delivery \<Rightarrow> db \<Rightarrow> delivery \<times> db" where
  "dispatcher_fail cfg v reason w d =
     (let w = RecordFailure reason (wcMaxAttempts cfg) (vNow v) (Some (vRnd v)) w
      in (w, persist (vPersist v) (vDBNow v) w d))"

definition deliver ::
  "keyed_hash \<Rightarrow> aead \<Rightarrow> WebhookConfig \<Rightarrow> deliver_env \<Rightarrow> delivery \<Rightarrow> db \<Rightarrow> delivery \<times> db" where
  "deliver hmac A cfg v w d =
     (case MerchantRepo_GetByID (vGet v) (dMerchantID w) d of
        Inl err \<Rightarrow> dispatcher_fail cfg v (''load merchant: '' @ error_text err) w d
      | Inr merchant \<Rightarrow>
          if mWebhookURL merchant = [] then
            (let w = w\<lparr> dAttemptCount := dAttemptCount w + 1, dStatus := DeliveryDead,
                        dLastError := ''merchant has no webhook_url configured'',
                        dUpdatedAt := vNow v \<rparr>
             in (w, persist (vPersist v) (vDBNow v) w d))
          else case Decrypt A (mWebhookSecretEnc merchant) of
            Inl err \<Rightarrow> dispatcher_fail cfg v (''decrypt webhook secret: '' @ error_text err) w d
          | Inr secret \<Rightarrow>
              (case post hmac (vClient v) (vSignNow v) (mWebhookURL merchant) secret w of
                 Inl err \<Rightarrow> dispatcher_fail cfg v (error_text err) w (vGap v d)
               | Inr status \<Rightarrow>
                   (let w = RecordSuccess (vNow v) w
                    in (w, persist (vPersist v) (vDBNow v) w (vGap v d)))))"

text \<open>A worker takes one job after the other from the channel.\<close>

fun worker ::
  "keyed_hash \<Rightarrow> aead \<Rightarrow> WebhookConfig \<Rightarrow> (nat \<Rightarrow> deliver_env) \<Rightarrow> nat \<Rightarrow> delivery list \<Rightarrow> db \<Rightarrow> db" where
  "worker hmac A cfg v k [] d = d"
| "worker hmac A cfg v k (w # ws) d =
     worker hmac A cfg v (Suc k) ws (snd (deliver hmac A cfg (v k) w d))"

section \<open>Polling\<close>

definition release :: "fault \<Rightarrow> time \<Rightarrow> time \<Rightarrow> delivery \<Rightarrow> db \<Rightarrow> db" where
  "release f dbnow now w d =
     persist f dbnow (w\<lparr> dStatus := DeliveryFailed, dNextAttemptAt := now \<rparr>) d"

record poll_env =
  pollStale :: fault
  pollClaim :: fault
  pollLocked :: "uuid \<Rightarrow> bool"
  pollNow1 :: time
  pollNow2 :: time
  pollDBNow :: time
  pollGap :: "db \<Rightarrow> db"
  pollSent :: "nat \<Rightarrow> bool"
  pollRelease :: fault

text \<open>
  The batch is offered to the workers in turn; \<open>sent k\<close> says whether a worker took the
  \<open>k\<close>-th delivery or the context ended first. The result is what the workers took, whether
  the poller goes on, and the database.
\<close>

fun hand_out ::
  "poll_env \<Rightarrow> nat \<Rightarrow> delivery list \<Rightarrow> db \<Rightarrow> delivery list \<times> bool \<times> db" where
  "hand_out e k [] d = ([], True, d)"
| "hand_out e k (w # ws) d =
     (if pollSent e k then (case hand_out e (Suc k) ws d of (jobs, go, d) \<Rightarrow> (w # jobs, go, d))
      else ([], False, release (pollRelease e) (pollDBNow e) (pollNow2 e) w d))"

text \<open>
  One turn of the polling loop after the ticker fired: stale claims are released, then a batch
  is claimed. When the claim fails the loop goes on as with an empty batch.
\<close>

definition poll_claim :: "WebhookConfig \<Rightarrow> poll_env \<Rightarrow> db \<Rightarrow> delivery list \<times> db" where
  "poll_claim cfg e d =
     (let d = (case ReleaseStale (pollStale e) (pollDBNow e) staleClaimTimeout (pollNow1 e) d of
                 Inl err \<Rightarrow> d | Inr (n, d') \<Rightarrow> d');
          d = pollGap e d
      in case ClaimDue (pollClaim e) (pollDBNow e) (pollLocked e) (wrap64 (wcWorkers cfg * 2)) (pollNow2 e) d of
           Inl err \<Rightarrow> ([], d)
         | Inr (batch, d) \<Rightarrow> (batch, d))"

definition poll_tick :: "WebhookConfig \<Rightarrow> poll_env \<Rightarrow> db \<Rightarrow> delivery list \<times> bool \<times> db" where
  "poll_tick cfg e d = (case poll_claim cfg e d of (batch, d) \<Rightarrow> hand_out e 0 batch d)"

section \<open>The dispatcher in the gateway\<close>

text \<open>Everything the dispatcher does to the database is a sequence of gateway steps.\<close>

lemma persist_step: "(gw_step fee)\<^sup>*\<^sup>* d (persist f dbnow w d)"
  by (auto simp: persist_def split: sum.splits intro: gw_step.attempt)

lemma deliver_steps:
  assumes "\<And>d. (gw_step fee)\<^sup>*\<^sup>* d (vGap v d)"
  shows "(gw_step fee)\<^sup>*\<^sup>* d (snd (deliver hmac A cfg v w d))"
  using persist_step assms rtranclp_trans [OF assms persist_step]
  by (simp add: deliver_def dispatcher_fail_def Let_def split: sum.splits)

lemma worker_steps:
  assumes "\<And>k d. (gw_step fee)\<^sup>*\<^sup>* d (vGap (v k) d)"
  shows "(gw_step fee)\<^sup>*\<^sup>* d (worker hmac A cfg v k ws d)"
proof (induction ws arbitrary: k d)
  case (Cons w ws)
  show ?case using rtranclp_trans [OF deliver_steps [OF assms] Cons.IH] by simp
qed simp

lemma hand_out_steps: "hand_out e k ws d = (jobs, go, d') \<Longrightarrow> (gw_step fee)\<^sup>*\<^sup>* d d'"
  by (induction e k ws d arbitrary: jobs go d' rule: hand_out.induct)
    (auto simp: release_def persist_step split: if_splits prod.splits)

lemma poll_claim_steps:
  assumes gap: "\<And>d. (gw_step fee)\<^sup>*\<^sup>* d (pollGap e d)" and claim: "poll_claim cfg e d = (batch, d')"
  shows "(gw_step fee)\<^sup>*\<^sup>* d d'"
proof -
  define d1 where "d1 = (case ReleaseStale (pollStale e) (pollDBNow e) staleClaimTimeout (pollNow1 e) d of
                 Inl err \<Rightarrow> d | Inr (n, d') \<Rightarrow> d')"
  have "(gw_step fee)\<^sup>*\<^sup>* d d1"
    by (auto simp: d1_def split: sum.splits intro: gw_step.release)
  then have "(gw_step fee)\<^sup>*\<^sup>* d (pollGap e d1)" using gap by (metis rtranclp_trans)
  then show ?thesis
    using claim unfolding poll_claim_def Let_def d1_def [symmetric]
    by (auto split: sum.splits prod.splits dest!: gw_step.claim [of _ _ _ _ _ _ _ _ fee]
        intro: rtranclp.rtrancl_into_rtrancl)
qed

lemma poll_tick_steps:
  assumes gap: "\<And>d. (gw_step fee)\<^sup>*\<^sup>* d (pollGap e d)" and tick: "poll_tick cfg e d = (jobs, go, d')"
  shows "(gw_step fee)\<^sup>*\<^sup>* d d'"
proof -
  obtain batch d1 where c: "poll_claim cfg e d = (batch, d1)" by fastforce
  with tick have "hand_out e 0 batch d1 = (jobs, go, d')" by (simp add: poll_tick_def)
  from rtranclp_trans [OF poll_claim_steps [OF gap c] hand_out_steps [OF this]] show ?thesis .
qed

section \<open>The outcome of a delivery\<close>

definition has_endpoint :: "deliver_env \<Rightarrow> delivery \<Rightarrow> db \<Rightarrow> bool" where
  "has_endpoint v w d =
     (case MerchantRepo_GetByID (vGet v) (dMerchantID w) d of Inl _ \<Rightarrow> True | Inr m \<Rightarrow> mWebhookURL m \<noteq> [])"

definition endpoint_answers :: "keyed_hash \<Rightarrow> aead \<Rightarrow> deliver_env \<Rightarrow> delivery \<Rightarrow> db \<Rightarrow> bool" where
  "endpoint_answers hmac A v w d =
     (case MerchantRepo_GetByID (vGet v) (dMerchantID w) d of
        Inl _ \<Rightarrow> False
      | Inr m \<Rightarrow> mWebhookURL m \<noteq> [] \<and>
          (case Decrypt A (mWebhookSecretEnc m) of
             Inl _ \<Rightarrow> False
           | Inr secret \<Rightarrow> \<not> isl (post hmac (vClient v) (vSignNow v) (mWebhookURL m) secret w)))"

lemma deliver_result:
  "\<exists>reason. fst (deliver hmac A cfg v w d) =
     (if endpoint_answers hmac A v w d then RecordSuccess (vNow v) w
      else if has_endpoint v w d then RecordFailure reason (wcMaxAttempts cfg) (vNow v) (Some (vRnd v)) w
      else w\<lparr> dAttemptCount := dAttemptCount w + 1, dStatus := DeliveryDead,
              dLastError := ''merchant has no webhook_url configured'', dUpdatedAt := vNow v \<rparr>)"
  by (auto simp: deliver_def endpoint_answers_def has_endpoint_def dispatcher_fail_def Let_def isl_def
      split: sum.splits)

text \<open>What is stored is what was decided, in the database as it is after the request.\<close>

lemma deliver_persists:
  "\<exists>d0. (d0 = d \<or> d0 = vGap v d) \<and>
     snd (deliver hmac A cfg v w d) = persist (vPersist v) (vDBNow v) (fst (deliver hmac A cfg v w d)) d0"
  by (auto simp: deliver_def dispatcher_fail_def Let_def split: sum.splits)


section \<open>Retries come to an end\<close>

text \<open>
  The attempts on one delivery that is claimed again after each failure, with the counters
  the last attempt stored; the database may be any other at each attempt.
\<close>

fun retries ::
  "keyed_hash \<Rightarrow> aead \<Rightarrow> WebhookConfig \<Rightarrow> (nat \<Rightarrow> deliver_env) \<Rightarrow> (nat \<Rightarrow> db) \<Rightarrow> nat \<Rightarrow> delivery \<Rightarrow> delivery" where
  "retries hmac A cfg v dbs 0 w = w"
| "retries hmac A cfg v dbs (Suc n) w =
     (let w' = fst (deliver hmac A cfg (v n) w (dbs n))
      in if dStatus w' = DeliveryFailed then retries hmac A cfg v dbs n w' else w')"

lemma deliver_status:
  "dAttemptCount (fst (deliver hmac A cfg v w d)) = dAttemptCount w + 1"
  "dStatus (fst (deliver hmac A cfg v w d)) = DeliveryDelivered
     \<or> dStatus (fst (deliver hmac A cfg v w d)) = DeliveryDead
     \<or> (dStatus (fst (deliver hmac A cfg v w d)) = DeliveryFailed \<and> dAttemptCount w + 1 < wcMaxAttempts cfg)"
  using deliver_result [of hmac A cfg v w d] by (auto simp: RecordSuccess_def split: if_splits)


section \<open>Concrete deliveries\<close>

definition demo_delivery :: "uuid \<Rightarrow> uuid \<Rightarrow> delivery" where
  "demo_delivery i m = NewWebhookDelivery i m ''t1'' EventPaymentCaptured ''{}'' 50"

definition demo_deliver :: "http_client \<Rightarrow> deliver_env" where
  "demo_deliver client = \<lparr> vGet = None, vClient = client, vSignNow = 1700000000000000000, vGap = id,
     vNow = 1700000001000000000, vRnd = 1 / 2, vPersist = None, vDBNow = 1700000001000000000 \<rparr>"

definition answering :: "int \<Rightarrow> http_client" where
  "answering status = \<lparr> hcNewRequest = (\<lambda>_. None), hcDo = (\<lambda>_. Inr status) \<rparr>"

definition demo_wcfg :: WebhookConfig where
  "demo_wcfg = \<lparr> wcWorkers = 1, wcMaxAttempts = 3, wcPollInterval = 2 * Second,
     wcRequestTimeout = 10 * Second, wcShutdownTimeout = 30 * Second \<rparr>"



end
