(* ===== verification/Config.thy ===== *)
theory Config
  imports Dispatcher Acquirer Base64 Secrets
begin

text \<open>
  \<open>internal/config\<close>: the configuration of a process, read from the environment
  (\<open>config.go\<close>), and the two spellings of the encryption key (\<open>encoding.go\<close>). The
  environment is a partial function; the parsers of floats and durations and the text of a
  number error are parameters.
\<close>

section \<open>Keys\<close>

definition hex_value :: "char \<Rightarrow> nat option" where
  "hex_value c =
     (let n = of_char c :: nat
      in if 48 \<le> n \<and> n \<le> 57 then Some (n - 48)
         else if 97 \<le> n \<and> n \<le> 102 then Some (n - 87)
         else if 65 \<le> n \<and> n \<le> 70 then Some (n - 55) else None)"

fun hex_decode :: "string \<Rightarrow> string option" where
  "hex_decode [] = Some []"
| "hex_decode [c] = None"
| "hex_decode (a # b # rest) =
     (case (hex_value a, hex_value b) of
        (Some x, Some y) \<Rightarrow> map_option (\<lambda>r. char_of (x * 16 + y) # r) (hex_decode rest)
      | _ \<Rightarrow> None)"

definition decodeHexOrBase64 :: "string \<Rightarrow> string result" where
  "decodeHexOrBase64 s =
     (case hex_decode s of
        Some b \<Rightarrow> Inr b
      | None \<Rightarrow>
          (case b64_decode b64_std True s of
             Some b \<Rightarrow> Inr b
           | None \<Rightarrow>
               (case b64_decode b64_std False s of
                  Some b \<Rightarrow> Inr b
                | None \<Rightarrow> Inl (Opaque ''value is neither valid hex nor base64''))))"

definition decodeKey :: "string \<Rightarrow> string result" where
  "decodeKey raw =
     (if raw = [] then Inl (Opaque ''SECRET_ENC_KEY is required (32 bytes, hex or base64)'')
      else case decodeHexOrBase64 (TrimSpace raw) of
             Inl err \<Rightarrow> Inl (wrapf ''SECRET_ENC_KEY'' err)
           | Inr key \<Rightarrow>
               if length key \<noteq> 32 then
                 Inl (Opaque (''SECRET_ENC_KEY: must decode to 32 bytes, got '' @ show_int (int (length key))))
               else Inr key)"

section \<open>The environment\<close>

type_synonym environ = "string \<Rightarrow> string option"

record parsers =
  psFloat :: "string \<Rightarrow> rat result"
  psDuration :: "string \<Rightarrow> duration result"
  psAtoiError :: "string \<Rightarrow> error"

definition env :: "environ \<Rightarrow> string \<Rightarrow> string \<Rightarrow> string" where
  "env e key def = (case e key of Some v \<Rightarrow> if v \<noteq> [] then v else def | None \<Rightarrow> def)"

text \<open>The shape of the typed readers: the value, and the error to collect.\<close>

definition env_parsed ::
  "(string \<Rightarrow> 'a result) \<Rightarrow> environ \<Rightarrow> string \<Rightarrow> 'a \<Rightarrow> 'a \<times> error option" where
  "env_parsed parse e key def =
     (case e key of
        None \<Rightarrow> (def, None)
      | Some raw \<Rightarrow>
          if raw = [] then (def, None)
          else (case parse raw of Inl err \<Rightarrow> (def, Some (wrapf key err)) | Inr v \<Rightarrow> (v, None)))"

definition envInt :: "parsers \<Rightarrow> environ \<Rightarrow> string \<Rightarrow> int \<Rightarrow> int \<times> error option" where
  "envInt ps = env_parsed (\<lambda>raw. case ParseInt raw of None \<Rightarrow> Inl (psAtoiError ps raw) | Some v \<Rightarrow> Inr v)"

definition envFloat :: "parsers \<Rightarrow> environ \<Rightarrow> string \<Rightarrow> rat \<Rightarrow> rat \<times> error option" where
  "envFloat ps = env_parsed (psFloat ps)"

definition envDuration :: "parsers \<Rightarrow> environ \<Rightarrow> string \<Rightarrow> duration \<Rightarrow> duration \<times> error option" where
  "envDuration ps = env_parsed (psDuration ps)"

definition ParseBool :: "string \<Rightarrow> bool option" where
  "ParseBool s =
     (if s \<in> set [''1'', ''t'', ''T'', ''TRUE'', ''true'', ''True''] then Some True
      else if s \<in> set [''0'', ''f'', ''F'', ''FALSE'', ''false'', ''False''] then Some False
      else None)"

definition envBool :: "environ \<Rightarrow> string \<Rightarrow> bool \<Rightarrow> bool" where
  "envBool e key def =
     (case e key of
        None \<Rightarrow> def
      | Some raw \<Rightarrow> if raw = [] then def else (case ParseBool raw of None \<Rightarrow> def | Some v \<Rightarrow> v))"

section \<open>Loading\<close>

record LimitsConfig =
  lcIdempotencyTTL :: duration
  lcAuthMaxClockSkew :: duration
  lcRateLimitRPM :: int

record Config =
  cfAppEnv :: string
  cfHTTPPort :: int
  cfLogLevel :: string
  cfDatabaseURL :: string
  cfRedisURL :: string
  cfRunMigrations :: bool
  cfAdminToken :: string
  cfSecretEncKey :: string
  cfPlatformFeeBPS :: int
  cfAcquirer :: AcquirerConfig
  cfWebhook :: WebhookConfig
  cfLimits :: LimitsConfig
  cfReportDir :: string

abbreviation (input) Millisecond :: duration where "Millisecond \<equiv> 1000000"
abbreviation (input) Minute :: duration where "Minute \<equiv> 60 * Second"
abbreviation (input) Hour :: duration where "Hour \<equiv> 60 * Minute"

definition load_acquirer :: "parsers \<Rightarrow> environ \<Rightarrow> AcquirerConfig \<times> error option list" where
  "load_acquirer ps e =
     (let (declineRate, e1) = envFloat ps e ''ACQUIRER_DECLINE_RATE'' (1 / 10);
          (timeoutRate, e2) = envFloat ps e ''ACQUIRER_TIMEOUT_RATE'' (5 / 100);
          (acqTimeout, e3) = envDuration ps e ''ACQUIRER_TIMEOUT'' (3 * Second);
          (minLat, e4) = envDuration ps e ''ACQUIRER_MIN_LATENCY'' (50 * Millisecond);
          (maxLat, e5) = envDuration ps e ''ACQUIRER_MAX_LATENCY'' (800 * Millisecond);
          (breakerThreshold, e6) = envInt ps e ''ACQUIRER_BREAKER_THRESHOLD'' 5;
          (breakerCooldown, e7) = envDuration ps e ''ACQUIRER_BREAKER_COOLDOWN'' (30 * Second)
      in (\<lparr> acDeclineRate = declineRate, acTimeoutRate = timeoutRate, acTimeout = acqTimeout,
            acMinLatency = minLat, acMaxLatency = maxLat, acBreakerThreshold = breakerThreshold,
            acBreakerCooldown = breakerCooldown \<rparr>, [e1, e2, e3, e4, e5, e6, e7]))"

definition load_webhook :: "parsers \<Rightarrow> environ \<Rightarrow> WebhookConfig \<times> error option list" where
  "load_webhook ps e =
     (let (workers, e1) = envInt ps e ''WEBHOOK_WORKERS'' 5;
          (maxAttempts, e2) = envInt ps e ''WEBHOOK_MAX_ATTEMPTS'' 6;
          (pollInterval, e3) = envDuration ps e ''WEBHOOK_POLL_INTERVAL'' (2 * Second);
          (whTimeout, e4) = envDuration ps e ''WEBHOOK_TIMEOUT'' (10 * Second);
          (shutdownTimeout, e5) = envDuration ps e ''WEBHOOK_SHUTDOWN_TIMEOUT'' (30 * Second)
      in (\<lparr> wcWorkers = workers, wcMaxAttempts = maxAttempts, wcPollInterval = pollInterval,
            wcRequestTimeout = whTimeout, wcShutdownTimeout = shutdownTimeout \<rparr>, [e1, e2, e3, e4, e5]))"

definition load_limits :: "parsers \<Rightarrow> environ \<Rightarrow> LimitsConfig \<times> error option list" where
  "load_limits ps e =
     (let (idemTTL, e1) = envDuration ps e ''IDEMPOTENCY_TTL'' (24 * Hour);
          (skew, e2) = envDuration ps e ''AUTH_MAX_CLOCK_SKEW'' (5 * Minute);
          (rpm, e3) = envInt ps e ''RATE_LIMIT_RPM'' 120
      in (\<lparr> lcIdempotencyTTL = idemTTL, lcAuthMaxClockSkew = skew, lcRateLimitRPM = rpm \<rparr>, [e1, e2, e3]))"

text \<open>The checks on the values, in the order they are made.\<close>

definition load_checks :: "Config \<Rightarrow> error option list" where
  "load_checks cfg =
     [if cfDatabaseURL cfg = [] then Some (Opaque ''DATABASE_URL is required'') else None,
      if cfPlatformFeeBPS cfg < 0 \<or> cfPlatformFeeBPS cfg > 10000
        then Some (Opaque ''PLATFORM_FEE_BPS must be between 0 and 10000'') else None,
      if acMinLatency (cfAcquirer cfg) > acMaxLatency (cfAcquirer cfg)
        then Some (Opaque ''ACQUIRER_MIN_LATENCY must not exceed ACQUIRER_MAX_LATENCY'') else None,
      if wcWorkers (cfWebhook cfg) < 1 then Some (Opaque ''WEBHOOK_WORKERS must be at least 1'') else None]"

text \<open>\<open>errors.Join\<close>: the texts, one on each line.\<close>

fun errors_Join :: "error list \<Rightarrow> string" where
  "errors_Join [] = []"
| "errors_Join [err] = error_text err"
| "errors_Join (err # errs) = error_text err @ [char_of (10 :: nat)] @ errors_Join errs"

definition collected :: "error option list \<Rightarrow> error list" where
  "collected errs = List.map_filter id errs"

definition Load :: "parsers \<Rightarrow> environ \<Rightarrow> Config result" where
  "Load ps e =
     (let (port, e1) = envInt ps e ''HTTP_PORT'' 8080;
          (feeBPS, e2) = envInt ps e ''PLATFORM_FEE_BPS'' 200;
          (key, e3) = (case decodeKey (env e ''SECRET_ENC_KEY'' []) of Inl err \<Rightarrow> ([], Some err) | Inr k \<Rightarrow> (k, None));
          (acquirer, acquirerErrs) = load_acquirer ps e;
          (webhook, webhookErrs) = load_webhook ps e;
          (limits, limitsErrs) = load_limits ps e;
          cfg = \<lparr> cfAppEnv = env e ''APP_ENV'' ''development'', cfHTTPPort = port,
            cfLogLevel = env e ''LOG_LEVEL'' ''info'', cfDatabaseURL = env e ''DATABASE_URL'' [],
            cfRedisURL = env e ''REDIS_URL'' ''redis://localhost:6379/0'',
            cfRunMigrations = envBool e ''RUN_MIGRATIONS'' False, cfAdminToken = env e ''ADMIN_TOKEN'' [],
            cfSecretEncKey = key, cfPlatformFeeBPS = feeBPS, cfAcquirer = acquirer, cfWebhook = webhook,
            cfLimits = limits, cfReportDir = env e ''REPORT_DIR'' ''reports'' \<rparr>;
          errs = collected ([e1, e2, e3] @ acquirerErrs @ webhookErrs @ limitsErrs @ load_checks cfg)
      in if errs \<noteq> [] then Inl (wrapf ''invalid configuration'' (Opaque (errors_Join errs)))
         else Inr cfg)"

definition IsProduction :: "Config \<Rightarrow> bool" where
  "IsProduction c \<longleftrightarrow> cfAppEnv c = ''production''"

definition RequireAdminToken :: "Config \<Rightarrow> unit result" where
  "RequireAdminToken c =
     (if cfAdminToken c = [] then Inl (Opaque ''invalid configuration: ADMIN_TOKEN is required to serve the API'')
      else Inr ())"

definition Addr :: "Config \<Rightarrow> string" where
  "Addr c = '':'' @ show_int (cfHTTPPort c)"

section \<open>Decoding a key\<close>

lemma hex_value_digit: "n < 16 \<Longrightarrow> hex_value (hex_digit n) = Some n"
  by (auto simp: hex_value_def of_hex_digit Let_def)

lemma hex_decode_encode: "hex_decode (hex_encode s) = Some s"
proof (induction s)
  case (Cons c cs)
  have "(of_char c :: nat) div 16 < 16" "(of_char c :: nat) mod 16 < 16"
    using byte_parts [of c] by simp_all
  with Cons show ?case by (simp add: hex_value_digit div_mult_mod_eq)
qed simp

lemma hex_decode_Some:
  "hex_decode s = Some t \<Longrightarrow> even (length s) \<and> CHR ''='' \<notin> set s"
  by (induction s arbitrary: t rule: hex_decode.induct) (auto simp: hex_value_def split: option.splits)

lemma four_dvd [simp]: "4 dvd Suc (Suc (Suc (Suc n))) \<longleftrightarrow> 4 dvd n"
  by presburger

lemma b64_groups_padded: "b64_groups alpha True s = Some t \<Longrightarrow> 4 dvd length s"
  by (induction alpha "True" s arbitrary: t rule: b64_groups.induct)
    (auto split: if_splits option.splits)

lemma b64_length: "length (b64_encode alpha False s) mod 4 = (if length s mod 3 = 0 then 0 else length s mod 3 + 1)"
  by (induction alpha "False" s rule: b64_encode.induct) (auto, (presburger+)?)

lemma b64_padded: "length s mod 3 \<noteq> 0 \<Longrightarrow> CHR ''='' \<in> set (b64_encode alpha True s)"
  by (induction alpha "True" s rule: b64_encode.induct) (auto, (presburger+)?)

lemma b64_visible:
  assumes "c \<in> set (b64_encode b64_std pad s)"
  shows "visible c"
proof -
  have "set (b64_encode b64_std pad s) \<subseteq> set b64_std \<union> {CHR ''=''}"
    by (induction "b64_std" pad s rule: b64_encode.induct) (auto simp: std.len)
  moreover have "list_all visible (b64_std @ ''='')" by code_simp
  ultimately show ?thesis using assms by (auto simp: list_all_iff)
qed

lemma TrimSpace_visible_all: "\<forall>c \<in> set s. visible c \<Longrightarrow> TrimSpace s = s"
  by (cases "s = []") (simp_all add: TrimSpace_visible, simp add: TrimSpace_def)

lemma decodeHexOrBase64_spellings:
  assumes "length k = 32"
  shows "decodeHexOrBase64 (hex_encode k) = Inr k"
    "decodeHexOrBase64 (b64_encode b64_std True k) = Inr k"
    "decodeHexOrBase64 (b64_encode b64_std False k) = Inr k"
proof -
  show "decodeHexOrBase64 (hex_encode k) = Inr k" by (simp add: decodeHexOrBase64_def hex_decode_encode)
  have "hex_decode (b64_encode b64_std True k) = None"
    using b64_padded [of k b64_std] hex_decode_Some [of "b64_encode b64_std True k"] assms
    by (cases "hex_decode (b64_encode b64_std True k)") auto
  then show "decodeHexOrBase64 (b64_encode b64_std True k) = Inr k"
    by (simp add: decodeHexOrBase64_def std.decode_encode)
  have len: "length (b64_encode b64_std False k) mod 4 = 3" using b64_length [of b64_std k] assms by simp
  then have "odd (length (b64_encode b64_std False k))" "\<not> 4 dvd length (b64_encode b64_std False k)"
    by presburger+
  then have "hex_decode (b64_encode b64_std False k) = None" "b64_decode b64_std True (b64_encode b64_std False k) = None"
    using hex_decode_Some [of "b64_encode b64_std False k"] b64_groups_padded [of b64_std "b64_encode b64_std False k"]
    by (cases "hex_decode (b64_encode b64_std False k)", simp_all add: b64_decode_def std.encode_no_eol)
      (cases "b64_groups b64_std True (b64_encode b64_std False k)", simp_all)
  then show "decodeHexOrBase64 (b64_encode b64_std False k) = Inr k"
    by (simp add: decodeHexOrBase64_def std.decode_encode)
qed

lemma decodeKey_spellings:
  assumes "length k = 32"
  shows "decodeKey (hex_encode k) = Inr k \<and> decodeKey (b64_encode b64_std pad k) = Inr k"
proof -
  have "hex_encode k \<noteq> []" "b64_encode b64_std pad k \<noteq> []"
    using assms by (cases k; auto; cases "(b64_std, pad, k)" rule: b64_encode.cases; auto)+
  moreover have "TrimSpace (hex_encode k) = hex_encode k" "TrimSpace (b64_encode b64_std pad k) = b64_encode b64_std pad k"
    using hex_encode_visible b64_visible by (auto intro!: TrimSpace_visible_all)
  ultimately show ?thesis
    using assms decodeHexOrBase64_spellings [OF assms] by (cases pad) (simp_all add: decodeKey_def)
qed

section \<open>Properties\<close>

text \<open>
  A key survives its spellings: 32 bytes written in hexadecimal, in base64 or in base64
  without padding are read back as the same 32 bytes, although the reader guesses the encoding.
\<close>

theorem key_roundtrip:
  assumes "length k = 32"
  shows "decodeKey (hex_encode k) = Inr k \<and> decodeKey (b64_encode b64_std pad k) = Inr k"
  using decodeKey_spellings [OF assms] .

theorem key_roundtrip_witness:
  "decodeKey ''4141414141414141414141414141414141414141414141414141414141414141'' = Inr (replicate 32 CHR ''A'')"
proof -
  have "hex_encode (replicate 32 CHR ''A'') = ''4141414141414141414141414141414141414141414141414141414141414141''"
    by code_simp
  with key_roundtrip [of "replicate 32 CHR ''A''" True] show ?thesis by simp
qed

lemma collected_Nil: "collected errs = [] \<longleftrightarrow> (\<forall>x \<in> set errs. x = None)"
  by (induction errs) (auto simp: collected_def List.map_filter_def)

lemma Load_Inr:
  assumes "Load ps e = Inr cfg"
  shows "set (load_checks cfg) = {None}" "decodeKey (env e ''SECRET_ENC_KEY'' []) = Inr (cfSecretEncKey cfg)"
proof -
  have cfg: "cfSecretEncKey cfg = (case decodeKey (env e ''SECRET_ENC_KEY'' []) of Inl err \<Rightarrow> [] | Inr k \<Rightarrow> k)"
    and ok: "\<forall>x \<in> set (load_checks cfg). x = None" and key: "\<not> isl (decodeKey (env e ''SECRET_ENC_KEY'' []))"
    using assms unfolding Load_def Let_def case_prod_beta
    by (cases "decodeKey (env e ''SECRET_ENC_KEY'' [])"; auto simp: collected_Nil split: if_splits)+
  from ok show "set (load_checks cfg) = {None}" unfolding load_checks_def by auto
  from cfg key show "decodeKey (env e ''SECRET_ENC_KEY'' []) = Inr (cfSecretEncKey cfg)"
    by (cases "decodeKey (env e ''SECRET_ENC_KEY'' [])") auto
qed

text \<open>
  What a process that starts can rely on: its database URL is given, its key is one that
  the cipher accepts, the latency range of the simulated acquirer is not empty, at least one
  webhook worker runs, and the platform fee is between nothing and the whole amount, so that a
  capture never costs the merchant more than it brings. A process that passes the check for
  the API has an admin token, and a request without an \<open>Authorization\<close> header does not present it.
\<close>

theorem load_guarantees:
  assumes "Load ps e = Inr cfg"
  shows "cfDatabaseURL cfg \<noteq> [] \<and> length (cfSecretEncKey cfg) = 32
    \<and> acMinLatency (cfAcquirer cfg) \<le> acMaxLatency (cfAcquirer cfg) \<and> 1 \<le> wcWorkers (cfWebhook cfg)
    \<and> (\<forall>a. 0 \<le> a \<and> fee_exact a (cfPlatformFeeBPS cfg) \<longrightarrow>
         0 \<le> Fee a (cfPlatformFeeBPS cfg) \<and> Fee a (cfPlatformFeeBPS cfg) \<le> a)
    \<and> (\<forall>newAES newGCM. NewCipher newAES newGCM (cfSecretEncKey cfg) \<noteq> Inl (Opaque ''secrets: key must be 32 bytes''))
    \<and> (RequireAdminToken cfg = Inr () \<longrightarrow> TrimPrefix [] ''Bearer '' \<noteq> cfAdminToken cfg)"
proof -
  have key: "length (cfSecretEncKey cfg) = 32"
    using Load_Inr(2) [OF assms] by (auto simp: decodeKey_def split: if_splits sum.splits)
  then have "NewCipher newAES newGCM (cfSecretEncKey cfg) \<noteq> Inl (Opaque ''secrets: key must be 32 bytes'')" for newAES newGCM
    by (simp add: NewCipher_def wrapf_def split: sum.splits)
  moreover have "cfDatabaseURL cfg \<noteq> []" "0 \<le> cfPlatformFeeBPS cfg" "cfPlatformFeeBPS cfg \<le> 10000"
    "acMinLatency (cfAcquirer cfg) \<le> acMaxLatency (cfAcquirer cfg)" "1 \<le> wcWorkers (cfWebhook cfg)"
    using Load_Inr(1) [OF assms] by (auto simp: load_checks_def split: if_splits)
  ultimately show ?thesis
    using key Fee_nonneg Fee_le by (auto simp: RequireAdminToken_def TrimPrefix_def HasPrefix_def split: if_splits)
qed

definition demo_parsers :: parsers where
  "demo_parsers = \<lparr> psFloat = (\<lambda>s. Inl (Opaque s)), psDuration = (\<lambda>s. Inl (Opaque s)), psAtoiError = Opaque \<rparr>"

definition demo_environ :: environ where
  "demo_environ = map_of [(''DATABASE_URL'', ''postgres://db''), (''ADMIN_TOKEN'', ''token''), (''PLATFORM_FEE_BPS'', ''200''),
     (''SEED_TRANSACTIONS'', ''1''), (''SECRET_ENC_KEY'', ''4141414141414141414141414141414141414141414141414141414141414141'')]"

lemma demo_env:
  "demo_environ ''HTTP_PORT'' = None" "demo_environ ''PLATFORM_FEE_BPS'' = Some ''200''"
  "demo_environ ''DATABASE_URL'' = Some ''postgres://db''"
  "demo_environ ''SECRET_ENC_KEY'' = Some ''4141414141414141414141414141414141414141414141414141414141414141''"
  by (simp_all add: demo_environ_def)

lemma env_parsed_unset: "e key = None \<Longrightarrow> env_parsed parse e key def = (def, None)"
  by (simp add: env_parsed_def)

lemma demo_loads:
  "load_acquirer ps demo_environ = (\<lparr> acDeclineRate = 1 / 10, acTimeoutRate = 5 / 100, acTimeout = 3 * Second,
     acMinLatency = 50 * Millisecond, acMaxLatency = 800 * Millisecond, acBreakerThreshold = 5,
     acBreakerCooldown = 30 * Second \<rparr>, [None, None, None, None, None, None, None])"
  "load_webhook ps demo_environ = (\<lparr> wcWorkers = 5, wcMaxAttempts = 6, wcPollInterval = 2 * Second,
     wcRequestTimeout = 10 * Second, wcShutdownTimeout = 30 * Second \<rparr>, [None, None, None, None, None])"
  "load_limits ps demo_environ = (\<lparr> lcIdempotencyTTL = 24 * Hour, lcAuthMaxClockSkew = 5 * Minute,
     lcRateLimitRPM = 120 \<rparr>, [None, None, None])"
  by (simp_all add: load_acquirer_def load_webhook_def load_limits_def envInt_def envFloat_def envDuration_def
      env_parsed_unset demo_environ_def)

lemma demo_cfg:
  obtains cfg where "Load demo_parsers demo_environ = Inr cfg" "cfPlatformFeeBPS cfg = 200"
    "length (cfSecretEncKey cfg) = 32" "cfAdminToken cfg = ''token''"
proof -
  let ?L = "Load demo_parsers demo_environ"
  have "hex_encode (replicate 32 CHR ''A'') = ''4141414141414141414141414141414141414141414141414141414141414141''"
    by code_simp
  with decodeKey_spellings [of "replicate 32 CHR ''A''" True]
  have "decodeKey ''4141414141414141414141414141414141414141414141414141414141414141'' = Inr (replicate 32 CHR ''A'')"
    by simp
  then have key: "decodeKey (env demo_environ ''SECRET_ENC_KEY'' []) = Inr (replicate 32 CHR ''A'')"
    by (simp only: env_def demo_env option.case if_True list.distinct not_False_eq_True)
  have "ParseInt ''200'' = Some 200"
    by (simp add: ParseInt_def parse_nat_def is_digit_def in64_def)
  then have ints: "envInt demo_parsers demo_environ ''HTTP_PORT'' 8080 = (8080, None)"
    "envInt demo_parsers demo_environ ''PLATFORM_FEE_BPS'' 200 = (200, None)"
    by (simp_all add: envInt_def env_parsed_def demo_env)
  have token: "env demo_environ ''ADMIN_TOKEN'' [] = ''token''" by (simp add: env_def demo_environ_def)
  have url: "env demo_environ ''DATABASE_URL'' [] \<noteq> []" by (simp add: env_def demo_env)
  have "\<exists>cfg. ?L = Inr cfg \<and> cfPlatformFeeBPS cfg = 200 \<and> length (cfSecretEncKey cfg) = 32 \<and> cfAdminToken cfg = ''token''"
    unfolding Load_def key ints demo_loads Let_def prod.case sum.case by (simp add: url token load_checks_def collected_def List.map_filter_def)
  then show thesis using that by blast
qed

theorem load_guarantees_witness:
  "\<exists>cfg. Load demo_parsers demo_environ = Inr cfg \<and> cfPlatformFeeBPS cfg = 200
     \<and> Fee 100000 (cfPlatformFeeBPS cfg) \<le> 100000"
proof -
  obtain cfg where cfg: "Load demo_parsers demo_environ = Inr cfg" "cfPlatformFeeBPS cfg = 200" by (rule demo_cfg)
  have "fee_exact 100000 200" by (simp add: fee_exact_def in64_def)
  moreover have "\<forall>a. 0 \<le> a \<and> fee_exact a (cfPlatformFeeBPS cfg) \<longrightarrow>
      0 \<le> Fee a (cfPlatformFeeBPS cfg) \<and> Fee a (cfPlatformFeeBPS cfg) \<le> a"
    using load_guarantees [OF cfg(1)] by blast
  ultimately have "Fee 100000 (cfPlatformFeeBPS cfg) \<le> 100000" by (simp only: cfg(2)) simp
  with cfg show ?thesis by blast
qed

end
