(* ===== verification/Settlement.thy ===== *)
theory Settlement
  imports Guarantees "HOL-Library.Multiset"
begin

text \<open>
  What the reconciliation shows and what the settlement pays: on a database the gateway
  reached, the two sides of the comparison agree on everything but possibly the fees, and a
  settlement pays each transaction once, at most what the journal owes for it.
\<close>

section \<open>The payout\<close>

lemma NetPayable_exact:
  assumes wf: "wf_txn r" and ex: "fee_exact (tAmount r) fee" "0 \<le> fee" "fee \<le> 10000"
  shows "NetPayable r fee = tCapturedAmount r - Fee (tCapturedAmount r) fee - tRefundedAmount r"
    and "0 \<le> Fee (tCapturedAmount r) fee"
proof -
  note b = wf_txn_bounds [OF wf]
  have ex': "fee_exact (tCapturedAmount r) fee" using fee_exact_mono [OF ex(1) b(6,5) ex(2)] .
  have f: "0 \<le> Fee (tCapturedAmount r) fee" "Fee (tCapturedAmount r) fee \<le> tCapturedAmount r"
    using Fee_nonneg [OF ex'] Fee_le [OF b(6) ex(3) ex'] by auto
  show "0 \<le> Fee (tCapturedAmount r) fee" by (rule f(1))
  show "NetPayable r fee = tCapturedAmount r - Fee (tCapturedAmount r) fee - tRefundedAmount r"
    unfolding NetPayable_def using b f by (simp add: wrap64_id in64_def)
qed

lemma payout_sums:
  "paid_in (tID t) (payout_entries fee g t now) = max 0 (NetPayable t fee)"
  "fees_in i (payout_entries fee g t now) = 0" "captured_in i (payout_entries fee g t now) = 0"
  "refunded_in i (payout_entries fee g t now) = 0"
  by (auto simp: payout_entries_def paid_in_def sums_in_defs)

text \<open>The row and the journal after a settlement.\<close>

lemma settle_effect:
  assumes inv: "gw_inv fee d" and r: "row_of i d = Some r" "tStatus r = StatusCaptured"
    and b: "settle_body fee x i d = Inr (v, d')"
  obtains t where "row_of i d' = Some t" "tStatus t = StatusSettled"
    "paid_in i (dbLedger d') = paid_in i (dbLedger d) + max 0 (NetPayable r fee)"
    "fees_in i (dbLedger d') = fees_in i (dbLedger d)"
proof -
  from settle_commit_captured [OF gw_invD(1) [OF inv] b r] obtain t where
    rc: "row_commit i (Transaction_Settle (xNow x)) (payout_entries fee (xGroupID x) t (xNow x))
           EventPaymentSettled t d d'" by blast
  from rc r(1) obtain u now new where u: "Transaction_Settle (xNow x) r = Inr u"
    and t: "t = u\<lparr> tVersion := tVersion u + 1, tUpdatedAt := now \<rparr>"
    and rows: "dbTransactions d' = dbTransactions (set_row t d)"
    and new: "dbLedger d' = dbLedger d @ new"
      "map unnumbered new = map unnumbered (payout_entries fee (xGroupID x) t (xNow x))"
    by (auto simp: row_commit_def adds_entries_def)
  have ut: "u = r\<lparr> tStatus := StatusSettled, tSettledAt := Some (xNow x), tUpdatedAt := xNow x \<rparr>"
    using u by (simp add: Settle_Inr)
  have i: "tID t = i" using t ut row_of_key [OF r(1)] by simp
  have "row_of i d' = Some t"
    using rows r(1) i row_of_set_row [of i t d] by (simp add: row_of_def)
  moreover have "tStatus t = StatusSettled" using t ut by simp
  moreover have "NetPayable t fee = NetPayable r fee" using t ut by (simp add: NetPayable_def)
  ultimately show thesis
    using that [of t] new(1) paid_in_unnumbered [OF new(2), of i] sums_unnumbered(3) [OF new(2), of i]
      payout_sums(1) [of t fee "xGroupID x" "xNow x"] payout_sums(2) [of i] i by simp
qed

section \<open>The two sides of the comparison\<close>

text \<open>The sum of a value of the transactions of one key, and of their entries.\<close>

lemma sum_list_map_sort: "sum_list (map f (sort_key k xs)) = (sum_list (map f xs) :: int)"
  by (metis mset_map mset_sort sum_mset_sum_list)

lemma sum_where_sort: "sum_where P f (sort_key k xs) = sum_where P f xs"
  unfolding sum_where_def by (simp add: filter_sort sum_list_map_sort)

lemma sum_where_filter: "sum_where P f (filter Q xs) = sum_where (\<lambda>x. Q x \<and> P x) f xs"
  by (simp add: sum_where_def conj_commute)

lemma entries_sum_rows:
  assumes inv: "gw_inv fee d"
    and val: "\<And>t. t \<in> set (dbTransactions d) \<Longrightarrow>
      sum_where (\<lambda>e. eTransactionID e = tID t \<and> P e) eAmount (dbLedger d) = val t"
  shows "sum_where P eAmount (key_entries k (joined_entries frm til d)) =
    sum_where (\<lambda>t. captured_between frm til t \<and> txn_key t = k) val (dbTransactions d)"
proof -
  let ?R = "filter (\<lambda>t. captured_between frm til t \<and> txn_key t = k) (dbTransactions d)"
  let ?J = "\<lambda>e. eMerchantID e \<noteq> None \<and>
         list_ex (\<lambda>t. tID t = eTransactionID e \<and> captured_between frm til t) (dbTransactions d)"
  let ?Q = "\<lambda>e. ?J e \<and> (eMerchantID e = Some (fst k) \<and> eCurrency e = snd k) \<and> P e"
  have lhs: "sum_where P eAmount (key_entries k (joined_entries frm til d)) = sum_where ?Q eAmount (dbLedger d)"
    by (simp add: key_entries_def joined_entries_def sum_where_filter)
  have own: "\<exists>t \<in> set (dbTransactions d). tID t = eTransactionID e \<and> eMerchantID e = Some (tMerchantID t)
      \<and> eCurrency e = tCurrency t" if "e \<in> set (dbLedger d)" for e
    using gw_invD(5) [OF inv that] by (simp add: entry_owned_def)
  have uniq: "t = t'" if "t \<in> set (dbTransactions d)" "t' \<in> set (dbTransactions d)" "tID t = tID t'" for t t'
    using row_of_mem [OF gw_invD(1) [OF inv] that(1)] row_of_mem [OF gw_invD(1) [OF inv] that(2)] that(3)
    by (metis option.inject)
  have Q: "?Q e \<longleftrightarrow> P e \<and> (\<exists>t \<in> set ?R. tID t = eTransactionID e)" if "e \<in> set (dbLedger d)" for e
  proof -
    from own [OF that] obtain t where t: "t \<in> set (dbTransactions d)" "tID t = eTransactionID e"
      "eMerchantID e = Some (tMerchantID t)" "eCurrency e = tCurrency t" by blast
    have only: "t' = t" if "t' \<in> set (dbTransactions d)" "tID t' = eTransactionID e" for t'
      by (rule uniq [OF that(1) t(1)]) (simp add: that(2) t(2))
    have "?J e \<longleftrightarrow> captured_between frm til t" unfolding list_ex_iff using t only by blast
    moreover have "(eMerchantID e = Some (fst k) \<and> eCurrency e = snd k) \<longleftrightarrow> txn_key t = k"
      using t by (cases k) (auto simp: txn_key_def)
    moreover have "(\<exists>t \<in> set ?R. tID t = eTransactionID e) \<longleftrightarrow> captured_between frm til t \<and> txn_key t = k"
      unfolding set_filter using t(1,2) only by blast
    ultimately show ?thesis by blast
  qed
  have "sum_where ?Q eAmount (dbLedger d) =
      sum_list (map (\<lambda>i. sum_where (\<lambda>e. ?Q e \<and> eTransactionID e = i) eAmount (dbLedger d)) (map tID ?R))"
  proof (rule sum_where_partition [symmetric])
    show "distinct (map tID ?R)" using gw_invD(1) [OF inv] by (simp add: distinct_rows_def distinct_map_filter)
    show "eTransactionID e \<in> set (map tID ?R)" if "e \<in> set (dbLedger d)" "?Q e" for e
      using Q [OF that(1)] that(2) by force
  qed
  also have "\<dots> = sum_list (map val ?R)"
  proof (rule arg_cong [where f = sum_list], unfold map_map, rule map_cong [OF refl])
    fix t assume t: "t \<in> set ?R"
    have "sum_where (\<lambda>e. ?Q e \<and> eTransactionID e = tID t) eAmount (dbLedger d)
        = sum_where (\<lambda>e. eTransactionID e = tID t \<and> P e) eAmount (dbLedger d)"
      by (rule sum_where_cong) (use Q t in auto)
    then show "((\<lambda>i. sum_where (\<lambda>e. ?Q e \<and> eTransactionID e = i) eAmount (dbLedger d)) \<circ> tID) t = val t"
      using val t by simp
  qed
  finally show ?thesis using lhs by (simp add: sum_where_def)
qed

text \<open>The transactions of a day are those captured in its window; the status says nothing more.\<close>

lemma ListCapturedBetween_rows:
  assumes "gw_inv fee d"
  shows "\<exists>ts. ListCapturedBetween None frm til d = Inr ts \<and> set ts = {t \<in> set (dbTransactions d). captured_between frm til t}
    \<and> (\<forall>P f. sum_where P f ts = sum_where (\<lambda>t. captured_between frm til t \<and> P t) f (dbTransactions d))"
proof -
  let ?W = "\<lambda>t. captured_between frm til t \<and>
              (tStatus t = StatusCaptured \<or> tStatus t = StatusSettled \<or> tStatus t = StatusRefunded)"
  have "?W t \<longleftrightarrow> captured_between frm til t" if "t \<in> set (dbTransactions d)" for t
    using wf_captured_status [OF gw_invD(3) [OF assms that]]
    by (auto simp: captured_between_def split: option.splits)
  then have "filter ?W (dbTransactions d) = filter (captured_between frm til) (dbTransactions d)"
    by (intro filter_cong) auto
  then show ?thesis
    unfolding ListCapturedBetween_def by (simp add: sum_where_sort sum_where_filter)
qed

section \<open>The map of summaries\<close>

lemma upsert_keys:
  assumes "\<And>s. summary_key (f s) = summary_key s"
  shows "map summary_key (upsert k f ss) =
    (if k \<in> set (map summary_key ss) then map summary_key ss else map summary_key ss @ [k])"
proof (induction ss)
  case Nil
  show ?case using assms by (simp add: summary_key_def empty_summary_def)
qed (use assms in auto)

lemma upsert_mem:
  assumes "distinct (map summary_key ss)" and "s' \<in> set (upsert k f ss)"
  shows "(s' \<in> set ss \<and> summary_key s' \<noteq> k) \<or> (\<exists>s \<in> set ss. summary_key s = k \<and> s' = f s)
    \<or> (k \<notin> set (map summary_key ss) \<and> s' = f (empty_summary k))"
  using assms
proof (induction ss)
  case (Cons a ss)
  show ?case
  proof (cases "summary_key a = k")
    case True
    then have "s' = f a \<or> (s' \<in> set ss \<and> summary_key s' \<noteq> k)"
      using Cons.prems by (auto intro: rev_image_eqI)
    then show ?thesis using True by auto
  next
    case False
    then show ?thesis using Cons by auto
  qed
qed simp

lemma add_txn_key [simp]: "summary_key (add_txn fee t s) = summary_key s"
  by (simp add: add_txn_def summary_key_def Let_def)

lemma set_ledger_key [simp]: "summary_key (set_ledger a s) = summary_key s"
  by (simp add: set_ledger_def summary_key_def)

lemma empty_summary_key [simp]: "summary_key (empty_summary k) = k"
  by (simp add: empty_summary_def summary_key_def)

text \<open>What the summaries hold after the transactions \<open>ts\<close>.\<close>

definition side_of :: "int \<Rightarrow> transaction list \<Rightarrow> MerchantSummary \<Rightarrow> bool" where
  "side_of fee ts s \<longleftrightarrow>
     msCapturedTotal s = wrap64 (sum_where (\<lambda>t. txn_key t = summary_key s) tCapturedAmount ts)
     \<and> msRefundedTotal s = wrap64 (sum_where (\<lambda>t. txn_key t = summary_key s) tRefundedAmount ts)
     \<and> msFeeTotal s = wrap64 (sum_where (\<lambda>t. txn_key t = summary_key s) (\<lambda>t. Fee (tCapturedAmount t) fee) ts)"

definition no_ledger :: "MerchantSummary \<Rightarrow> bool" where
  "no_ledger s \<longleftrightarrow> msLedgerCaptured s = 0 \<and> msLedgerRefunded s = 0 \<and> msLedgerFees s = 0"

lemma no_ledger_simps [simp]: "no_ledger (add_txn fee t s) = no_ledger s" "no_ledger (empty_summary k)"
  by (simp_all add: no_ledger_def add_txn_def Let_def empty_summary_def)

lemma side_of_add:
  assumes "side_of fee ts s" and "summary_key s = txn_key t"
  shows "side_of fee (ts @ [t]) (add_txn fee t s)"
  using assms by (simp add: side_of_def add_txn_def Let_def summary_key_def)

lemma side_of_other: "side_of fee ts s \<Longrightarrow> summary_key s \<noteq> txn_key t \<Longrightarrow> side_of fee (ts @ [t]) s"
  by (auto simp: side_of_def)

lemma side_of_empty:
  assumes "k \<notin> txn_key ` set ts"
  shows "side_of fee ts (empty_summary k)"
proof -
  have "sum_where (\<lambda>t. txn_key t = k) f ts = 0" for f using assms by (intro sum_where_none) auto
  then show ?thesis by (simp add: side_of_def) (simp add: empty_summary_def)
qed

lemma transaction_side_ok:
  "distinct (map summary_key (transaction_side fee ts))
   \<and> set (map summary_key (transaction_side fee ts)) = txn_key ` set ts
   \<and> (\<forall>s \<in> set (transaction_side fee ts). side_of fee ts s \<and> no_ledger s)"
proof (induction ts rule: rev_induct)
  case (snoc t ts)
  let ?ss = "transaction_side fee ts"
  have ss: "transaction_side fee (ts @ [t]) = upsert (txn_key t) (add_txn fee t) ?ss"
    by (simp add: transaction_side_def)
  note keys = upsert_keys [of "add_txn fee t" "txn_key t" ?ss, OF add_txn_key]
  have "side_of fee (ts @ [t]) s' \<and> no_ledger s'" if "s' \<in> set (upsert (txn_key t) (add_txn fee t) ?ss)" for s'
  proof -
    from upsert_mem [OF _ that] snoc consider "s' \<in> set ?ss" "summary_key s' \<noteq> txn_key t"
      | s where "s \<in> set ?ss" "summary_key s = txn_key t" "s' = add_txn fee t s"
      | "txn_key t \<notin> txn_key ` set ts" "s' = add_txn fee t (empty_summary (txn_key t))" by auto
    then show ?thesis
    proof cases
      case 1
      then show ?thesis using snoc side_of_other by blast
    next
      case 2
      then show ?thesis using snoc side_of_add by auto
    next
      case 3
      then show ?thesis using side_of_add [OF side_of_empty [OF 3(1)]] by simp
    qed
  qed
  then show ?case using snoc ss keys by auto
qed (simp add: transaction_side_def)

text \<open>What the summaries hold after the aggregates \<open>as\<close> of the journal.\<close>

definition agg_key :: "DailyTotals \<Rightarrow> reconKey" where
  "agg_key a = (dtMerchantID a, dtCurrency a)"

definition ledger_of :: "DailyTotals list \<Rightarrow> MerchantSummary \<Rightarrow> bool" where
  "ledger_of as s \<longleftrightarrow> (if summary_key s \<in> agg_key ` set as
     then (\<exists>a \<in> set as. agg_key a = summary_key s \<and> msLedgerCaptured s = dtCaptured a
            \<and> msLedgerRefunded s = dtRefunded a \<and> msLedgerFees s = dtFees a)
     else no_ledger s)"

lemma set_ledger_side [simp]: "side_of fee ts (set_ledger a s) = side_of fee ts s"
  by (simp add: side_of_def) (simp add: set_ledger_def)

lemma journal_side_ok:
  assumes ts: "distinct (map summary_key ss)" "set (map summary_key ss) = txn_key ` set ts"
    "\<forall>s \<in> set ss. side_of fee ts s \<and> no_ledger s"
  shows "distinct (map summary_key (journal_side as ss))
    \<and> txn_key ` set ts \<subseteq> set (map summary_key (journal_side as ss))
    \<and> (\<forall>s \<in> set (journal_side as ss). side_of fee ts s \<and> ledger_of as s)"
proof (induction as rule: rev_induct)
  case Nil
  show ?case using ts by (auto simp: journal_side_def ledger_of_def)
next
  case (snoc a as)
  let ?js = "journal_side as ss"
  have js: "journal_side (as @ [a]) ss = upsert (agg_key a) (set_ledger a) ?js"
    by (simp add: journal_side_def agg_key_def)
  note keys = upsert_keys [of "set_ledger a" "agg_key a" ?js, OF set_ledger_key]
  have now: "ledger_of (as @ [a]) (set_ledger a s)" if "summary_key s = agg_key a" for s
    using that by (auto simp: ledger_of_def set_ledger_def summary_key_def intro!: bexI [of _ a])
  have "side_of fee ts s' \<and> ledger_of (as @ [a]) s'" if "s' \<in> set (upsert (agg_key a) (set_ledger a) ?js)" for s'
  proof -
    from upsert_mem [OF _ that] snoc consider "s' \<in> set ?js" "summary_key s' \<noteq> agg_key a"
      | s where "s \<in> set ?js" "summary_key s = agg_key a" "s' = set_ledger a s"
      | "agg_key a \<notin> set (map summary_key ?js)" "s' = set_ledger a (empty_summary (agg_key a))" by blast
    then show ?thesis
    proof cases
      case 1
      then have "side_of fee ts s'" "ledger_of as s'" using snoc by auto
      then show ?thesis using 1(2) by (auto simp: ledger_of_def)
    next
      case 2
      then show ?thesis using snoc now by auto
    next
      case 3
      then have "agg_key a \<notin> txn_key ` set ts" using snoc by blast
      from side_of_empty [OF this] now 3(2) show ?thesis by simp
    qed
  qed
  then show ?case using snoc js keys by auto
qed

section \<open>The comparison on a consistent database\<close>

text \<open>The totals of the journal fit in an \<open>int64\<close>, so that no sum of a part overflows.\<close>

definition totals_fit :: "db \<Rightarrow> bool" where
  "totals_fit d \<longleftrightarrow> in64 (sum_captured (dbLedger d)) \<and> in64 (sum_refunded (dbLedger d)) \<and> in64 (sum_fees (dbLedger d))"

lemma sum_where_part:
  assumes "\<And>x. x \<in> set xs \<Longrightarrow> 0 \<le> f x"
  shows "0 \<le> sum_where P f (filter Q xs)" "sum_where P f (filter Q xs) \<le> sum_where P f xs"
  using assms by (induction xs) (auto simp: add_nonneg_nonneg intro: add_increasing)

lemma part_fits:
  assumes "gw_inv fee d" and "totals_fit d"
  shows "in64 (sum_captured (key_entries k (joined_entries frm til d)))"
    "in64 (sum_refunded (key_entries k (joined_entries frm til d)))"
    "in64 (sum_fees (key_entries k (joined_entries frm til d)))"
proof -
  have pos: "0 \<le> eAmount e" if "e \<in> set (dbLedger d)" for e
    using gw_invD(5) [OF assms(1) that] by (simp add: entry_owned_def)
  have eq: "key_entries k (joined_entries frm til d) = filter (\<lambda>e. (eMerchantID e = Some (fst k) \<and> eCurrency e = snd k)
      \<and> eMerchantID e \<noteq> None \<and> list_ex (\<lambda>t. tID t = eTransactionID e \<and> captured_between frm til t) (dbTransactions d))
      (dbLedger d)"
    by (simp add: key_entries_def joined_entries_def conj_commute)
  have "in64 (sum_where P eAmount (key_entries k (joined_entries frm til d)))"
    if "in64 (sum_where P eAmount (dbLedger d))" for P
    unfolding eq by (rule in64_bounds [OF that]; rule sum_where_part) (rule pos, assumption)+
  then show "in64 (sum_captured (key_entries k (joined_entries frm til d)))"
    "in64 (sum_refunded (key_entries k (joined_entries frm til d)))"
    "in64 (sum_fees (key_entries k (joined_entries frm til d)))"
    using assms(2) by (simp_all add: totals_fit_def sum_captured_def sum_refunded_def sum_fees_def)
qed

lemma scan_rows_all: "(\<And>x. x \<in> set xs \<Longrightarrow> f x = Inr (g x)) \<Longrightarrow> scan_rows f xs = Inr (map g xs)"
  by (induction xs) auto

definition totals_of :: "ledger_entry list \<Rightarrow> uuid \<times> Currency \<Rightarrow> DailyTotals" where
  "totals_of es k = \<lparr> dtMerchantID = fst k, dtCurrency = snd k, dtCaptured = sum_captured (key_entries k es),
     dtRefunded = sum_refunded (key_entries k es), dtFees = sum_fees (key_entries k es) \<rparr>"

lemma AggregateByMerchant_ok:
  assumes "gw_inv fee d" and "totals_fit d"
  shows "AggregateByMerchant None frm til d =
    Inr (map (totals_of (joined_entries frm til d)) (sort_key fst (remdups (map entry_key (joined_entries frm til d)))))"
  using part_fits [OF assms]
  by (simp add: AggregateByMerchant_def Let_def, intro scan_rows_all)
    (simp add: scan_totals_def totals_of_def Let_def)

lemma agg_key_totals [simp]: "agg_key (totals_of es k) = k"
  by (simp add: agg_key_def totals_of_def)

lemma ledger_of_totals:
  assumes "gw_inv fee d"
    and "ledger_of (map (totals_of es) (sort_key fst (remdups (map entry_key es)))) s"
    and es: "es = joined_entries frm til d"
  shows "msLedgerCaptured s = sum_captured (key_entries (summary_key s) es)
    \<and> msLedgerRefunded s = sum_refunded (key_entries (summary_key s) es)
    \<and> msLedgerFees s = sum_fees (key_entries (summary_key s) es)"
proof (cases "summary_key s \<in> entry_key ` set es")
  case True
  then show ?thesis using assms(2) by (auto simp: ledger_of_def image_image) (auto simp: totals_of_def)
next
  case False
  then have "key_entries (summary_key s) es = []"
    by (force simp: key_entries_def filter_empty_conv entry_key_def image_iff)
  then show ?thesis using False assms(2)
    by (auto simp: ledger_of_def no_ledger_def image_image sum_captured_def sum_refunded_def sum_fees_def)
qed

text \<open>The report of a day on a consistent database, with no fault and no other session.\<close>

definition quiet :: "run_env \<Rightarrow> bool" where
  "quiet e \<longleftrightarrow> rList e = None \<and> rAggregate e = None \<and> rUnbalanced e = None \<and> rGap1 e = id \<and> rGap2 e = id"

definition day_report :: "int \<Rightarrow> run_env \<Rightarrow> time \<Rightarrow> db \<Rightarrow> Report option" where
  "day_report fee e date d =
     (case (ListCapturedBetween (rList e) (day_from date) (day_to date) d,
            AggregateByMerchant (rAggregate e) (day_from date) (day_to date) d,
            FindUnbalancedGroups (rUnbalanced e) d) of
        (Inr txns, Inr aggregates, Inr unbalanced) \<Rightarrow>
          Some (build_report fee date (rNow e) txns aggregates unbalanced)
      | _ \<Rightarrow> None)"

lemma Run_quiet:
  assumes "quiet e" and "day_report fee e date d = Some r"
  shows "\<exists>txns. ListCapturedBetween None (day_from date) (day_to date) d = Inr txns \<and>
    Run fee e date d =
     (if \<not> Report_OK r then (write_result (rWrite e) (r\<lparr> rpSettlementSkipped := True \<rparr>), d)
      else (case settle fee (rSettle e) (rSettleGap e) txns d of
              ((settled, Some err), d) \<Rightarrow> ((Some r, Some err), d)
            | ((settled, None), d) \<Rightarrow> (write_result (rWrite e) (r\<lparr> rpSettledCount := settled \<rparr>), d)))"
  using assms by (auto simp: quiet_def day_report_def Run_def Let_def split: sum.splits)

lemma Run_report:
  assumes "quiet e" and "day_report fee e date d = Some r"
  shows "\<exists>n. fst (fst (Run fee e date d)) = Some (r\<lparr> rpSettlementSkipped := \<not> Report_OK r, rpSettledCount := n \<rparr>)"
    and "\<not> Report_OK r \<Longrightarrow> snd (Run fee e date d) = d"
proof -
  from assms(2) have r: "rpSettlementSkipped r = False" "rpSettledCount r = 0"
    by (auto simp: day_report_def build_report_def Let_def split: sum.splits)
  have id: "r = r\<lparr> rpSettlementSkipped := False, rpSettledCount := 0 \<rparr>"
    "r\<lparr> rpSettledCount := n \<rparr> = r\<lparr> rpSettlementSkipped := False, rpSettledCount := n \<rparr>"
    "r\<lparr> rpSettlementSkipped := True \<rparr> = r\<lparr> rpSettlementSkipped := True, rpSettledCount := 0 \<rparr>" for n
    using r by (cases r; simp)+
  from Run_quiet [OF assms] obtain txns where run: "Run fee e date d =
     (if \<not> Report_OK r then (write_result (rWrite e) (r\<lparr> rpSettlementSkipped := True \<rparr>), d)
      else (case settle fee (rSettle e) (rSettleGap e) txns d of
              ((settled, Some err), d) \<Rightarrow> ((Some r, Some err), d)
            | ((settled, None), d) \<Rightarrow> (write_result (rWrite e) (r\<lparr> rpSettledCount := settled \<rparr>), d)))" by blast
  then show "\<not> Report_OK r \<Longrightarrow> snd (Run fee e date d) = d" by simp
  from run id show "\<exists>n. fst (fst (Run fee e date d)) = Some (r\<lparr> rpSettlementSkipped := \<not> Report_OK r, rpSettledCount := n \<rparr>)"
    by (cases "settle fee (rSettle e) (rSettleGap e) txns d")
      (auto simp: write_result_def split: option.splits)
qed

lemma booked_sums:
  assumes "gw_inv fee d" and "t \<in> set (dbTransactions d)"
  shows "sum_where (\<lambda>e. eTransactionID e = tID t \<and> eEventType e = EventCapture
      \<and> eAccount e = AccountAcquirerReceivable \<and> eDirection e = Debit) eAmount (dbLedger d) = tCapturedAmount t"
    and "sum_where (\<lambda>e. eTransactionID e = tID t \<and> eEventType e = EventRefund
      \<and> eAccount e = AccountAcquirerReceivable \<and> eDirection e = Credit) eAmount (dbLedger d) = tRefundedAmount t"
  using gw_invD(4) [OF assms] by (simp_all add: booked_def captured_in_def refunded_in_def)

text \<open>The totals of every summary against those of the journal.\<close>

lemma summaries_agree:
  assumes inv: "gw_inv fee d" and fit: "totals_fit d"
    and l: "ListCapturedBetween None frm til d = Inr txns" and a: "AggregateByMerchant None frm til d = Inr aggregates"
    and s: "s \<in> set (journal_side aggregates (transaction_side fee txns))"
  shows "msCapturedTotal s = msLedgerCaptured s" "msRefundedTotal s = msLedgerRefunded s"
    "(\<And>t. t \<in> set txns \<Longrightarrow> fees_in (tID t) (dbLedger d) = Fee (tCapturedAmount t) fee) \<Longrightarrow>
       msFeeTotal s = msLedgerFees s"
proof -
  let ?es = "joined_entries frm til d" let ?k = "summary_key s"
  from transaction_side_ok [of fee txns] have side: "side_of fee txns s" "ledger_of aggregates s"
    using journal_side_ok [of "transaction_side fee txns" txns fee aggregates] s by auto
  have led: "msLedgerCaptured s = sum_captured (key_entries ?k ?es)"
    "msLedgerRefunded s = sum_refunded (key_entries ?k ?es)" "msLedgerFees s = sum_fees (key_entries ?k ?es)"
    using ledger_of_totals [OF inv _ refl, of frm til s] side(2) a AggregateByMerchant_ok [OF inv fit, of frm til]
    by auto
  from ListCapturedBetween_rows [OF inv, of frm til] l
  have rows: "set txns = {t \<in> set (dbTransactions d). captured_between frm til t}"
    and sums: "\<And>P f. sum_where P f txns = sum_where (\<lambda>t. captured_between frm til t \<and> P t) f (dbTransactions d)" by auto
  have eq: "sum_where (\<lambda>t. txn_key t = ?k) f txns = sum_where P eAmount (key_entries ?k ?es)"
    if "\<And>t. t \<in> set (dbTransactions d) \<Longrightarrow> sum_where (\<lambda>e. eTransactionID e = tID t \<and> P e) eAmount (dbLedger d) = g t"
      "\<And>t. t \<in> set txns \<Longrightarrow> g t = f t" for f g P
  proof -
    have "sum_where (\<lambda>t. txn_key t = ?k) f txns = sum_where (\<lambda>t. captured_between frm til t \<and> txn_key t = ?k) g (dbTransactions d)"
      unfolding sums by (rule sum_where_cong) (use that(2) rows in auto)
    also have "\<dots> = sum_where P eAmount (key_entries ?k ?es)" by (rule entries_sum_rows [OF inv that(1), symmetric])
    finally show ?thesis .
  qed
  show "msCapturedTotal s = msLedgerCaptured s"
    using side(1) eq [OF booked_sums(1) [OF inv], of tCapturedAmount] led(1) part_fits(1) [OF inv fit, of ?k frm til]
    by (simp add: side_of_def sum_captured_def wrap64_id)
  show "msRefundedTotal s = msLedgerRefunded s"
    using side(1) eq [OF booked_sums(2) [OF inv], of tRefundedAmount] led(2) part_fits(2) [OF inv fit, of ?k frm til]
    by (simp add: side_of_def sum_refunded_def wrap64_id)
  show "msFeeTotal s = msLedgerFees s"
    if fees: "\<And>t. t \<in> set txns \<Longrightarrow> fees_in (tID t) (dbLedger d) = Fee (tCapturedAmount t) fee"
  proof -
    have "sum_where (\<lambda>t. txn_key t = ?k) (\<lambda>t. Fee (tCapturedAmount t) fee) txns = sum_fees (key_entries ?k ?es)"
      unfolding sum_fees_def by (rule eq [of _ "\<lambda>t. fees_in (tID t) (dbLedger d)"]) (simp_all add: fees_in_def fees [unfolded fees_in_def])
    then show ?thesis using side(1) led(3) part_fits(3) [OF inv fit, of ?k frm til]
      by (simp add: side_of_def wrap64_id)
  qed
qed

lemma day_report_exists:
  assumes "gw_inv fee d" and "totals_fit d" and "quiet e"
  obtains txns aggregates where "ListCapturedBetween None (day_from date) (day_to date) d = Inr txns"
    "AggregateByMerchant None (day_from date) (day_to date) d = Inr aggregates"
    "day_report fee e date d = Some (build_report fee date (rNow e) txns aggregates [])"
proof -
  from ListCapturedBetween_rows [OF assms(1), of "day_from date" "day_to date"] obtain txns where
    "ListCapturedBetween None (day_from date) (day_to date) d = Inr txns" by blast
  moreover have "FindUnbalancedGroups None d = Inr []"
    using gw_invD(6) [OF assms(1)] by (simp add: FindUnbalancedGroups_Nil)
  ultimately show thesis
    using that AggregateByMerchant_ok [OF assms(1,2)] assms(3) by (auto simp: day_report_def quiet_def)
qed

section \<open>Properties\<close>



text \<open>
  C9. A settlement pays each transaction once and never too much: settling a captured
  transaction pays exactly its captured total less the fee and the refunds (nothing if that
  is negative), where nothing had been paid before; what is paid is at most what the journal
  still owes for it; and no later settlement of it, in any continuation, changes anything.
\<close>

theorem settlement_pays_once:
  assumes "gw_inv fee d" and "row_of i d = Some r" and "tStatus r = StatusCaptured"
    and "settle_body fee x i d = Inr (v, d')"
    and "fee_exact (tAmount r) fee" and "0 \<le> fee" and "fee \<le> 10000"
  shows "paid_in i (dbLedger d) = 0
    \<and> paid_in i (dbLedger d') = max 0 (tCapturedAmount r - Fee (tCapturedAmount r) fee - tRefundedAmount r)
    \<and> paid_in i (dbLedger d') \<le> max 0 (captured_in i (dbLedger d) - fees_in i (dbLedger d') - refunded_in i (dbLedger d))
    \<and> (\<forall>d'' y w e. (gw_step fee)\<^sup>*\<^sup>* d' d'' \<longrightarrow> settle_body fee y i d'' = Inr (w, e) \<longrightarrow> e = d'')"
proof -
  from row_of_Some [OF assms(2)] have r: "r \<in> set (dbTransactions d)" "tID r = i" by auto
  have wf: "wf_txn r" and bk: "booked fee (dbLedger d) r" using gw_invD(3,4) [OF assms(1) r(1)] by auto
  obtain t where t: "row_of i d' = Some t" "tStatus t = StatusSettled"
    and paid: "paid_in i (dbLedger d') = paid_in i (dbLedger d) + max 0 (NetPayable r fee)"
      "fees_in i (dbLedger d') = fees_in i (dbLedger d)"
    by (rule settle_effect [OF assms(1-4)])
  have p0: "paid_in i (dbLedger d) = 0" using bk r(2) assms(3) by (simp add: booked_def)
  have inv': "gw_inv fee d'" by (rule gw_step_inv [OF gw_step.settle [OF assms(4)] assms(1)])
  have "e = d''" if "(gw_step fee)\<^sup>*\<^sup>* d' d''" and s: "settle_body fee y i d'' = Inr (w, e)" for d'' y w e
  proof -
    from gw_run_progress [OF that(1) inv' t(1)] t(2) obtain r2 where
      "row_of i d'' = Some r2" "status_reach StatusSettled (tStatus r2)" by (auto simp: progress_def)
    then have "row_of i d'' = Some r2" "tStatus r2 \<noteq> StatusCaptured" using status_reach_settled by fastforce+
    with s show ?thesis by (auto simp: settle_body_def andThen_Inr GetForUpdate_Inr)
  qed
  with paid p0 NetPayable_exact(1) [OF wf assms(5-7)] bk r(2) assms(5) show ?thesis
    by (auto simp: booked_def max_def)
qed

theorem settlement_pays_once_witness:
  "\<exists>d'. settle_body 200 (demo_tx ''s'' 30) ''t1'' demo_captured = Inr ((), d')
     \<and> paid_in ''t1'' (dbLedger demo_captured) = 0 \<and> paid_in ''t1'' (dbLedger d') = 147000"
proof -
  have "map_option (\<lambda>r. (tStatus r, tAmount r, tCapturedAmount r, tRefundedAmount r)) (row_of ''t1'' demo_captured)
      = Some (StatusCaptured, 150000, 150000, 0)" by code_simp
  then obtain r where r: "row_of ''t1'' demo_captured = Some r" "tStatus r = StatusCaptured" "tAmount r = 150000"
    "tCapturedAmount r = 150000" "tRefundedAmount r = 0" by auto
  let ?b = "settle_body 200 (demo_tx ''s'' 30) ''t1'' demo_captured"
  have "case ?b of Inl e \<Rightarrow> False | Inr _ \<Rightarrow> True" by code_simp
  then obtain d' where b: "?b = Inr ((), d')" by (auto split: sum.splits)
  have "Fee 150000 200 = 3000" by code_simp
  with settlement_pays_once [OF demo_inv(2) r(1,2) b] r b show ?thesis
    by (simp add: fee_exact_def in64_def)
qed

section \<open>Where the comparison and the reports go wrong\<close>

definition demo_partial :: db where
  "demo_partial =
     snd (Payment_Capture 200 demo_acq (demo_pre 13) (demo_tx ''3'' 14) ''m1'' ''t1'' 49
       (snd (Payment_Capture 200 demo_acq (demo_pre 11) (demo_tx ''2'' 12) ''m1'' ''t1'' 49 demo_authorized)))"

text \<open>
  Two partial captures can block the settlement of their day for ever: two captures of 49
  at 200 basis points book no fee, the reconciliation expects the fee of 98, which is 1, and a
  run on this reachable database reports a fee discrepancy and settles nothing.
\<close>

theorem partial_captures_block_settlement:
  "(gw_step 200)\<^sup>*\<^sup>* demo_start demo_partial
   \<and> (case Run 200 demo_run 0 demo_partial of
        ((Some r, None), d) \<Rightarrow> rpSettlementSkipped r \<and> rpUnbalancedGroups r = []
          \<and> map (\<lambda>x. (dcField x, dcExpected x, dcActual x)) (rpDiscrepancies r) = [(''fee_total'', 1, 0)]
          \<and> map tStatus (dbTransactions d) = [StatusCaptured]
      | _ \<Rightarrow> False)"
proof
  show "(gw_step 200)\<^sup>*\<^sup>* demo_start demo_partial"
    unfolding demo_partial_def
    by (intro rtranclp_trans [OF demo_authorized_run] rtranclp_trans [OF Payment_Capture_run Payment_Capture_run])
      (simp_all add: demo_pre_def)
  show "case Run 200 demo_run 0 demo_partial of
        ((Some r, None), d) \<Rightarrow> rpSettlementSkipped r \<and> rpUnbalancedGroups r = []
          \<and> map (\<lambda>x. (dcField x, dcExpected x, dcActual x)) (rpDiscrepancies r) = [(''fee_total'', 1, 0)]
          \<and> map tStatus (dbTransactions d) = [StatusCaptured]
      | _ \<Rightarrow> False"
  proof -
    have "map_option (\<lambda>r. map (\<lambda>x. (dcField x, dcExpected x, dcActual x)) (rpDiscrepancies r))
        (day_report 200 demo_run 0 demo_partial) = Some [(''fee_total'', 1, 0)]" by code_simp
    moreover have "map_option rpUnbalancedGroups (day_report 200 demo_run 0 demo_partial) = Some []" by code_simp
    ultimately obtain r where r: "day_report 200 demo_run 0 demo_partial = Some r" "rpUnbalancedGroups r = []"
      "map (\<lambda>x. (dcField x, dcExpected x, dcActual x)) (rpDiscrepancies r) = [(''fee_total'', 1, 0)]" by auto
    have "map tStatus (dbTransactions demo_partial) = [StatusCaptured]" by code_simp
    moreover have "quiet demo_run" "rWrite demo_run = demo_write" by (simp_all add: quiet_def demo_run_def)
    moreover have "\<not> Report_OK r" using r(3) by (auto simp: Report_OK_def)
    ultimately show ?thesis
      using Run_quiet [of demo_run 200 0 demo_partial r] r by (auto simp: write_result_def demo_write_ok)
  qed
qed

definition demo_in_vnd :: AuthorizeInput where
  "demo_in_vnd = (demo_in True)\<lparr> aiReference := ''ORDER-2'', aiCurrency := VND, aiAmount := 1000 \<rparr>"

definition demo_two_currencies :: db where
  "demo_two_currencies = snd (Payment_Authorize 200 demo_acq (demo_auth\<lparr> aID := ''t2'' \<rparr>) (demo_tx ''4'' 15)
     (demo_pre 16) (demo_tx ''5'' 17) demo_in_vnd demo_captured)"

text \<open>
  The settlement report of one merchant adds amounts of different currencies: for a
  merchant with a captured payment of 150000 US cents and one of 1000 dong on the same day, on
  a database that reconciles, it reports a captured total of 151000 and is not balanced.
\<close>

theorem settlement_report_mixes_currencies:
  "(gw_step 200)\<^sup>*\<^sup>* demo_start demo_two_currencies
   \<and> map_option Report_OK (day_report 200 demo_run 0 demo_two_currencies) = Some True
   \<and> (case SettlementReport 200 demo_run 0 ''m1'' demo_two_currencies of
        Inr s \<Rightarrow> msCapturedTotal s = 151000 \<and> \<not> msBalanced s \<and> msTransactionCount s = 2
      | Inl _ \<Rightarrow> False)"
proof (intro conjI)
  show "(gw_step 200)\<^sup>*\<^sup>* demo_start demo_two_currencies"
    unfolding demo_two_currencies_def
    by (intro rtranclp_trans [OF demo_authorized_run] rtranclp_trans [OF demo_captured_run] Payment_Authorize_run)
      (simp_all add: auth_gaps_ok_def demo_auth_def demo_pre_def demo_in_def demo_in_vnd_def in64_def)
  show "map_option Report_OK (day_report 200 demo_run 0 demo_two_currencies) = Some True" by code_simp
  show "case SettlementReport 200 demo_run 0 ''m1'' demo_two_currencies of
        Inr s \<Rightarrow> msCapturedTotal s = 151000 \<and> \<not> msBalanced s \<and> msTransactionCount s = 2
      | Inl _ \<Rightarrow> False" by code_simp
qed

text \<open>
  The settled count of a run also counts transactions it skipped: if every transaction
  that the scan saw as captured has moved on by the time it is locked, the settlement changes
  nothing and still returns the number of those transactions.
\<close>

theorem settled_count_includes_skipped:
  assumes "\<And>t. t \<in> set ts \<Longrightarrow> tStatus t = StatusCaptured"
    and "\<And>t. t \<in> set ts \<Longrightarrow> \<exists>r. row_of (tID t) d = Some r \<and> tStatus r \<noteq> StatusCaptured"
    and "\<And>k. xTx (xs k) = no_tx_faults \<and> xGet (xs k) = None \<and> gap k = id"
  shows "settle fee xs gap ts d = ((int (length ts), None), d)"
proof -
  have body: "WithTx (xTx (xs k)) (settle_body fee (xs k) (tID t)) (gap k d) = (Inr (), d)"
    if tin: "t \<in> set ts" for t k
  proof -
    obtain r where "row_of (tID t) d = Some r" "tStatus r \<noteq> StatusCaptured" using assms(2) [OF tin] by blast
    then have "GetForUpdate (xGet (xs k)) (tID t) d = Inr r" "tStatus r \<noteq> StatusCaptured"
      using assms(3) by (auto simp: GetForUpdate_Inr)
    then show ?thesis using assms(3) by (simp add: settle_body_def WithTx_def no_tx_faults_def)
  qed
  have "settle_loop fee xs gap k n us d = ((n + int (length us), None), d)" if "set us \<subseteq> set ts" for us k n
    using that
  proof (induction us arbitrary: k n)
    case (Cons t us)
    then show ?case using assms(1) body [of t k] by simp
  qed simp
  then show ?thesis by (simp add: settle_def)
qed

definition demo_settled :: db where
  "demo_settled = snd (WithTx no_tx_faults (settle_body 200 (demo_tx ''s'' 30) ''t1'') demo_captured)"

theorem settled_count_includes_skipped_witness:
  "settle 200 (\<lambda>_. demo_tx ''s'' 40) (\<lambda>_. id) (dbTransactions demo_captured) demo_settled
     = ((1, None), demo_settled) \<and> map tStatus (dbTransactions demo_settled) = [StatusSettled]"
proof -
  have c: "map (\<lambda>t. (tID t, tStatus t)) (dbTransactions demo_captured) = [(''t1'', StatusCaptured)]" by code_simp
  then obtain t where t: "dbTransactions demo_captured = [t]" "tID t = ''t1''" "tStatus t = StatusCaptured" by auto
  have s: "map_option tStatus (row_of ''t1'' demo_settled) = Some StatusSettled" by code_simp
  have st: "map tStatus (dbTransactions demo_settled) = [StatusSettled]" by code_simp
  have "settle 200 (\<lambda>_. demo_tx ''s'' 40) (\<lambda>_. id) (dbTransactions demo_captured) demo_settled
      = ((int (length (dbTransactions demo_captured)), None), demo_settled)"
    by (rule settled_count_includes_skipped) (use t s in \<open>auto simp: demo_tx_def\<close>)
  with t st show ?thesis by simp
qed

end
