(* ===== verification/Dispatch.thy ===== *)
theory Dispatch
  imports Dispatcher
begin

text \<open>
  What the webhook dispatcher guarantees to a merchant: a callback carries a signature its
  owner can verify, and what happens to the claimed rows when the dispatcher shuts down.
\<close>

section \<open>The stored row\<close>

lemma find_map_same:
  assumes "\<And>x. key (f x) = key x"
  shows "find (\<lambda>x. key x = i) (map f xs) = map_option f (find (\<lambda>x. key x = i) xs)"
  using assms by (induction xs) auto

lemma updated_attempt_row:
  assumes "dID w \<in> set (map dID (dbWebhooks d))"
  shows "\<exists>r. WebhookRepo_GetByID None (dID w) (persist None dbnow w d) = Inr r
     \<and> dStatus r = dStatus w \<and> dAttemptCount r = dAttemptCount w \<and> dNextAttemptAt r = dNextAttemptAt w"
proof -
  from assms obtain r0 where r0: "find (\<lambda>r. dID r = dID w) (dbWebhooks d) = Some r0"
    by (cases "find (\<lambda>r. dID r = dID w) (dbWebhooks d)") (auto simp: find_None_iff)
  then have "dID r0 = dID w" by (auto simp: find_Some_iff)
  with r0 assms show ?thesis
    by (auto simp: persist_def UpdateAttempt_def WebhookRepo_GetByID_def scanDelivery_def list_ex_iff
        find_map_same [where key = dID])
qed

lemma persist_other_row:
  assumes "dID w \<noteq> i"
  shows "WebhookRepo_GetByID f i (persist g dbnow w d) = WebhookRepo_GetByID f i d"
proof -
  define h :: "delivery \<Rightarrow> delivery" where "h = (\<lambda>r. if dID r = dID w then
      r\<lparr> dStatus := dStatus w, dAttemptCount := dAttemptCount w, dNextAttemptAt := dNextAttemptAt w,
         dLastError := dLastError w, dUpdatedAt := dbnow \<rparr> else r)"
  have h: "dID (h r) = dID r" "dID r = i \<Longrightarrow> h r = r" for r using assms by (simp_all add: h_def)
  have "find (\<lambda>r. dID r = i) (map h ws) = find (\<lambda>r. dID r = i) ws" for ws
    using h by (induction ws) auto
  moreover have "UpdateAttempt g dbnow w d = Inr d' \<Longrightarrow> dbWebhooks d' = map h (dbWebhooks d)" for d'
    by (auto simp: UpdateAttempt_def h_def split: option.splits if_splits)
  ultimately show ?thesis
    by (auto simp: persist_def WebhookRepo_GetByID_def split: sum.splits)
qed

section \<open>The signature reaches the owner\<close>

text \<open>
  The endpoint of a merchant that verifies callbacks with its own secret, as the demo
  receiver of the HTTP layer does.
\<close>

definition verifying_endpoint :: "keyed_hash \<Rightarrow> string \<Rightarrow> time \<Rightarrow> duration \<Rightarrow> http_request \<Rightarrow> int result" where
  "verifying_endpoint hmac secret now tolerance req =
     (case map_of (hrHeader req) SignatureHeader of
        None \<Rightarrow> Inr 401
      | Some header \<Rightarrow>
          (case Verify hmac secret header (hrBody req) now tolerance of
             Inl err \<Rightarrow> Inr 401 | Inr _ \<Rightarrow> Inr 200))"

lemma callback_header:
  "map_of (hrHeader (callback_request hmac now url secret w)) SignatureHeader
     = Some (Sign hmac secret now (dPayload w))"
  "hrBody (callback_request hmac now url secret w) = dPayload w"
  by (simp_all add: callback_request_def SignatureHeader_def)

lemma Verify_own_signature:
  assumes "hash_size hmac" and "0 \<le> ts" and "unix_seconds ts < 2 ^ 62"
    and "0 \<le> tolerance" and "tolerance < maxDuration" and "\<bar>now - unix_seconds ts * Second\<bar> \<le> tolerance"
  shows "Verify hmac secret (Sign hmac secret ts body) body now tolerance = Inr ()"
  using Verify_Sign [OF assms(1-5), of secret body body now] assms(6) by (simp add: no_collision_def)


definition demo_outbox :: db where
  "demo_outbox = (snd demo_registered)\<lparr> dbWebhooks :=
     [demo_delivery ''w1'' (mID (cmMerchant (fst demo_registered))),
      demo_delivery ''w2'' (mID (cmMerchant (fst demo_registered)))] \<rparr>"


section \<open>Shutting down in the middle of a batch\<close>

lemma hand_out_stops:
  assumes "hand_out e k batch d = (jobs, False, d')"
  shows "\<exists>j < length batch. jobs = take j batch
     \<and> d' = release (pollRelease e) (pollDBNow e) (pollNow2 e) (batch ! j) d"
  using assms
proof (induction e k batch d arbitrary: jobs d' rule: hand_out.induct)
  case (2 e k w ws d)
  show ?case
  proof (cases "pollSent e k")
    case True
    with "2.prems" obtain jobs1 where r: "hand_out e (Suc k) ws d = (jobs1, False, d')" "jobs = w # jobs1"
      by (auto split: prod.splits)
    from "2.IH" [OF True r(1)] obtain j where "j < length ws" "jobs1 = take j ws"
      "d' = release (pollRelease e) (pollDBNow e) (pollNow2 e) (ws ! j) d" by blast
    with r(2) show ?thesis by (intro exI [of _ "Suc j"]) simp
  next
    case False
    with "2.prems" show ?thesis by (intro exI [of _ 0]) auto
  qed
qed simp

lemma GetByID_row: "WebhookRepo_GetByID f i d = Inr r \<Longrightarrow> i \<in> set (map dID (dbWebhooks d))"
  by (auto simp: WebhookRepo_GetByID_def scanDelivery_def find_Some_iff image_iff
      split: option.splits)

lemma find_distinct:
  "distinct (map key xs) \<Longrightarrow> x \<in> set xs \<Longrightarrow> find (\<lambda>y. key y = key x) xs = Some x"
  by (induction xs) (auto simp: image_iff)

text \<open>A claimed batch is a set of rows of the table, marked as being delivered.\<close>

lemma claimed_batch:
  assumes dist: "distinct (map dID (dbWebhooks d))"
    and claim: "ClaimDue f dbnow locked limit now d = Inr (batch, d1)"
  shows "distinct (map dID batch)"
    and "\<And>w. w \<in> set batch \<Longrightarrow> WebhookRepo_GetByID None (dID w) d1 = Inr w"
    and "\<And>w. w \<in> set batch \<Longrightarrow> dStatus w = DeliveryDelivering"
proof -
  define ids where "ids = due_ids locked (nat limit) now (dbWebhooks d)"
  have batch: "batch = map (claimed dbnow) (filter (\<lambda>w. dID w \<in> set ids) (dbWebhooks d))"
    and d1: "dbWebhooks d1 = map (\<lambda>w. if dID w \<in> set ids then claimed dbnow w else w) (dbWebhooks d)"
    using claim by (auto simp: ClaimDue_def ids_def Let_def split: option.splits if_splits)
  have id: "dID (claimed dbnow w) = dID w" for w by (simp add: claimed_def)
  show "distinct (map dID batch)"
    using distinct_map_filter [OF dist] by (simp add: batch o_def id)
  have "map dID (dbWebhooks d1) = map dID (dbWebhooks d)" by (simp add: d1 id)
  then have dist1: "distinct (map dID (dbWebhooks d1))" using dist by simp
  show "WebhookRepo_GetByID None (dID w) d1 = Inr w" if "w \<in> set batch" for w
  proof -
    have "w \<in> set (dbWebhooks d1)" using that by (auto simp: batch d1)
    from find_distinct [OF dist1 this] show ?thesis by (simp add: WebhookRepo_GetByID_def scanDelivery_def)
  qed
  show "dStatus w = DeliveryDelivering" if "w \<in> set batch" for w
    using that by (auto simp: batch claimed_def)
qed

text \<open>
  A shutdown strands the rest of the batch. When the context ends while the poller is
  handing a claimed batch to the workers, the delivery it holds is put back on the queue,
  due at once, but every delivery after it in the batch is given to no worker and stays
  marked as being delivered in the database, where no \<open>ClaimDue\<close> takes it until it has
  become stale. The code's comments promise that a claimed job is completed or released.
\<close>

theorem shutdown_strands_batch:
  assumes dist: "distinct (map dID (dbWebhooks d))"
    and claim: "ClaimDue f dbnow locked limit now d = Inr (batch, d1)"
    and stop: "hand_out e k batch d1 = (jobs, False, d')" and rel: "pollRelease e = None"
  shows "\<exists>j < length batch. jobs = take j batch
     \<and> (\<exists>r. WebhookRepo_GetByID None (dID (batch ! j)) d' = Inr r \<and> is_due (pollNow2 e) r)
     \<and> (\<forall>w \<in> set (drop (Suc j) batch). dID w \<notin> set (map dID jobs) \<and>
          (\<exists>r. WebhookRepo_GetByID None (dID w) d' = Inr r \<and> dStatus r = DeliveryDelivering
             \<and> (\<forall>t. \<not> is_due t r)))"
proof -
  obtain j where j: "j < length batch" "jobs = take j batch"
    and d': "d' = persist None (pollDBNow e) ((batch ! j)\<lparr> dStatus := DeliveryFailed, dNextAttemptAt := pollNow2 e \<rparr>) d1"
    using hand_out_stops [OF stop] rel by (auto simp: release_def)
  note b = claimed_batch [OF dist claim]
  have ids: "distinct (map dID batch)" by (rule b(1))
  have "dID (batch ! j) \<in> set (map dID (dbWebhooks d1))"
    using GetByID_row [OF b(2)] j(1) by simp
  then have "\<exists>r. WebhookRepo_GetByID None (dID (batch ! j)) d' = Inr r \<and> is_due (pollNow2 e) r"
    using updated_attempt_row [of "(batch ! j)\<lparr> dStatus := DeliveryFailed, dNextAttemptAt := pollNow2 e \<rparr>" d1 "pollDBNow e"]
    by (auto simp: d' is_due_def)
  moreover have "dID w \<notin> set (map dID jobs) \<and> (\<exists>r. WebhookRepo_GetByID None (dID w) d' = Inr r
      \<and> dStatus r = DeliveryDelivering \<and> (\<forall>t. \<not> is_due t r))" if "w \<in> set (drop (Suc j) batch)" for w
  proof -
    have w: "w \<in> set batch" using that by (rule in_set_dropD)
    have split: "distinct (map dID (take j batch @ batch ! j # drop (Suc j) batch))"
      using ids j(1) by (simp flip: id_take_nth_drop)
    then have "dID w \<notin> set (map dID jobs)" and "dID (batch ! j) \<noteq> dID w"
      using that j(2) by (auto simp: image_iff)
    then show ?thesis
      using b(2,3) [OF w] by (auto simp: d' persist_other_row is_due_def)
  qed
  ultimately show ?thesis using j by blast
qed

definition demo_poll :: poll_env where
  "demo_poll = \<lparr> pollStale = None, pollClaim = None, pollLocked = (\<lambda>_. False), pollNow1 = 60, pollNow2 = 60,
     pollDBNow = 60, pollGap = id, pollSent = (\<lambda>_. False), pollRelease = None \<rparr>"

theorem shutdown_strands_batch_witness:
  "\<exists>r. WebhookRepo_GetByID None ''w2'' (snd (snd (poll_tick demo_wcfg demo_poll
       (empty_db\<lparr> dbWebhooks := [demo_delivery ''w1'' ''m'', demo_delivery ''w2'' ''m''] \<rparr>)))) = Inr r
     \<and> dStatus r = DeliveryDelivering"
proof -
  let ?d = "empty_db\<lparr> dbWebhooks := [demo_delivery ''w1'' ''m'', demo_delivery ''w2'' ''m''] \<rparr>"
  have dist: "distinct (map dID (dbWebhooks ?d))" by (simp add: demo_delivery_def NewWebhookDelivery_def)
  have stale: "ReleaseStale None 60 staleClaimTimeout 60 ?d = Inr (0, ?d)" by code_simp
  obtain batch d1 where c: "ClaimDue None 60 (\<lambda>_. False) 2 60 ?d = Inr (batch, d1)"
    and ids: "map dID batch = [''w1'', ''w2'']"
  proof -
    have "map_sum id (map dID \<circ> fst) (ClaimDue None 60 (\<lambda>_. False) 2 60 ?d) = Inr [''w1'', ''w2'']"
      by code_simp
    then show ?thesis using that by (cases "ClaimDue None 60 (\<lambda>_. False) 2 60 ?d") auto
  qed
  obtain w1 w2 where batch: "batch = [w1, w2]" "dID w2 = ''w2''" using ids by auto
  have h: "hand_out demo_poll 0 batch d1 = ([], False, snd (snd (hand_out demo_poll 0 batch d1)))"
    by (simp add: batch demo_poll_def)
  have rel: "pollRelease demo_poll = None" by (simp add: demo_poll_def)
  have "poll_tick demo_wcfg demo_poll ?d = hand_out demo_poll 0 batch d1"
    using stale c by (simp add: poll_tick_def poll_claim_def demo_poll_def demo_wcfg_def wrap64_def)
  moreover obtain j where "j < length batch" "[] = take j batch"
    "\<forall>w \<in> set (drop (Suc j) batch). \<exists>r. WebhookRepo_GetByID None (dID w)
       (snd (snd (hand_out demo_poll 0 batch d1))) = Inr r \<and> dStatus r = DeliveryDelivering"
    using shutdown_strands_batch [OF dist c h rel] by blast
  ultimately show ?thesis using batch by auto
qed

end
