(* ===== verification/Dispatch_Run.thy ===== *)
theory Dispatch_Run
  imports Dispatch Guarantees "HOL-Library.Multiset"
begin

text \<open>
  \<open>Run\<close> of \<open>internal/webhook/dispatcher.go\<close>: the poller and the workers as concurrent
  processes over an unbuffered channel, with the shutdown protocol. A step is one event of one
  goroutine; other sessions change the database between any two of them.
\<close>

section \<open>Goroutines\<close>

text \<open>
  The poller waits for its ticker, offers the rest of a batch, or has returned, which closes the
  channel. A worker waits at the channel, holds a delivery, or has returned. The four last
  fields are auxiliary: they record what has become of every claimed delivery and no step
  depends on them.
\<close>

datatype poller = Waiting | Handing "delivery list" | Stopped

datatype slot = Idle | Busy delivery | Exited

record run_state =
  ruDone :: bool
  ruPoller :: poller
  ruWorkers :: "slot list"
  ruDB :: db
  ruClaimed :: "delivery multiset"
  ruAttempted :: "delivery multiset"
  ruReleased :: "delivery multiset"
  ruStranded :: "delivery multiset"

definition run_start :: "WebhookConfig \<Rightarrow> db \<Rightarrow> run_state" where
  "run_start cfg d = \<lparr> ruDone = False, ruPoller = Waiting, ruWorkers = replicate (nat (wcWorkers cfg)) Idle,
     ruDB = d, ruClaimed = {#}, ruAttempted = {#}, ruReleased = {#}, ruStranded = {#} \<rparr>"

text \<open>
  When the context has ended and the ticker has fired, \<open>select\<close> takes either, so a poll may
  still follow the cancellation.
\<close>

inductive run_step ::
  "keyed_hash \<Rightarrow> aead \<Rightarrow> WebhookConfig \<Rightarrow> int \<Rightarrow> run_state \<Rightarrow> run_state \<Rightarrow> bool" for hmac A cfg fee where
  cancel: "run_step hmac A cfg fee s (s\<lparr> ruDone := True \<rparr>)"
| poll: "ruPoller s = Waiting \<Longrightarrow> gap_ok fee (pollGap e) \<Longrightarrow> poll_claim cfg e (ruDB s) = (batch, d) \<Longrightarrow>
    run_step hmac A cfg fee s (s\<lparr> ruPoller := Handing batch, ruDB := d, ruClaimed := ruClaimed s + mset batch \<rparr>)"
| send: "ruPoller s = Handing (w # ws) \<Longrightarrow> k < length (ruWorkers s) \<Longrightarrow> ruWorkers s ! k = Idle \<Longrightarrow>
    run_step hmac A cfg fee s (s\<lparr> ruPoller := Handing ws, ruWorkers := (ruWorkers s)[k := Busy w] \<rparr>)"
| handed: "ruPoller s = Handing [] \<Longrightarrow> run_step hmac A cfg fee s (s\<lparr> ruPoller := Waiting \<rparr>)"
| abort: "ruPoller s = Handing (w # ws) \<Longrightarrow> ruDone s \<Longrightarrow>
    run_step hmac A cfg fee s (s\<lparr> ruPoller := Stopped, ruDB := release f dbnow now w (ruDB s),
      ruReleased := ruReleased s + {#w#}, ruStranded := ruStranded s + mset ws \<rparr>)"
| quit: "ruPoller s = Waiting \<Longrightarrow> ruDone s \<Longrightarrow> run_step hmac A cfg fee s (s\<lparr> ruPoller := Stopped \<rparr>)"
| finish: "k < length (ruWorkers s) \<Longrightarrow> ruWorkers s ! k = Busy w \<Longrightarrow> gap_ok fee (vGap v) \<Longrightarrow>
    run_step hmac A cfg fee s (s\<lparr> ruWorkers := (ruWorkers s)[k := Idle],
      ruDB := snd (deliver hmac A cfg v w (ruDB s)), ruAttempted := ruAttempted s + {#w#} \<rparr>)"
| leave: "ruPoller s = Stopped \<Longrightarrow> k < length (ruWorkers s) \<Longrightarrow> ruWorkers s ! k = Idle \<Longrightarrow>
    run_step hmac A cfg fee s (s\<lparr> ruWorkers := (ruWorkers s)[k := Exited] \<rparr>)"
| others: "gw_step fee (ruDB s) d \<Longrightarrow> run_step hmac A cfg fee s (s\<lparr> ruDB := d \<rparr>)"

text \<open>
  What \<open>Run\<close> returns in a state, if it returns: it waits for the cancellation, then for the
  poller, and then for the workers or the timeout, whichever \<open>select\<close> sees.
\<close>

definition Dispatcher_Run :: "bool \<Rightarrow> run_state \<Rightarrow> fault option" where
  "Dispatcher_Run timeout s =
     (if \<not> ruDone s \<or> ruPoller s \<noteq> Stopped then None
      else if timeout then Some (Some (Opaque ''webhook dispatcher: workers did not finish''))
      else if list_all (\<lambda>k. k = Exited) (ruWorkers s) then Some None
      else None)"

section \<open>The dispatcher refines the gateway\<close>

lemma run_step_refines: "run_step hmac A cfg fee s s' \<Longrightarrow> (gw_step fee)\<^sup>*\<^sup>* (ruDB s) (ruDB s')"
proof (induction rule: run_step.induct)
  case (poll s e batch d)
  then show ?case using poll_claim_steps [of fee e] by (simp add: gap_ok_def)
next
  case (finish k s w v)
  then show ?case using deliver_steps [of fee v] by (simp add: gap_ok_def)
qed (auto simp: release_def persist_step)

lemma run_refines: "(run_step hmac A cfg fee)\<^sup>*\<^sup>* s s' \<Longrightarrow> (gw_step fee)\<^sup>*\<^sup>* (ruDB s) (ruDB s')"
  by (induction rule: rtranclp_induct) (auto intro: rtranclp_trans run_step_refines)

section \<open>The identifiers of the outbox\<close>

definition distinct_webhooks :: "db \<Rightarrow> bool" where
  "distinct_webhooks d \<longleftrightarrow> distinct (map dID (dbWebhooks d))"

lemma distinct_queued: "queued t event d d' \<Longrightarrow> distinct_webhooks d \<Longrightarrow> distinct_webhooks d'"
  by (auto simp: queued_def distinct_webhooks_def)

lemma distinct_row_commit: "row_commit i oper es event t d d' \<Longrightarrow> distinct_webhooks d \<Longrightarrow> distinct_webhooks d'"
  by (auto simp: row_commit_def intro: distinct_queued)

lemma distinct_same_ids:
  "map dID (dbWebhooks d') = map dID (dbWebhooks d) \<Longrightarrow> distinct_webhooks d \<Longrightarrow> distinct_webhooks d'"
  by (simp add: distinct_webhooks_def)

lemma distinct_webhooks_step:
  assumes st: "gw_step fee d d'" and inv: "gw_inv fee d" and dw: "distinct_webhooks d"
  shows "distinct_webhooks d'"
  using st
proof cases
  case create
  then show ?thesis
    by (intro distinct_same_ids [OF _ dw]) (auto simp: TransactionRepo_Create_def split: option.splits if_splits)
next
  case (failed x i code v)
  with fail_commit [OF gw_invD(1) [OF inv]] show ?thesis using distinct_row_commit dw by blast
next
  case merchant
  then show ?thesis
    by (intro distinct_same_ids [OF _ dw]) (auto simp: MerchantRepo_Create_def split: option.splits if_splits)
next
  case callback
  then show ?thesis
    by (intro distinct_same_ids [OF _ dw]) (auto simp: UpdateWebhook_def split: option.splits if_splits)
next
  case claim
  then show ?thesis
    by (intro distinct_same_ids [OF _ dw]) (auto simp: ClaimDue_Inr claimed_def)
next
  case attempt
  then show ?thesis
    by (intro distinct_same_ids [OF _ dw]) (auto simp: UpdateAttempt_def split: option.splits if_splits)
next
  case release
  then show ?thesis
    by (intro distinct_same_ids [OF _ dw]) (auto simp: ReleaseStale_def split: option.splits)
next
  case (settle x i v)
  with settle_commit [OF gw_invD(1) [OF inv]] show ?thesis using distinct_row_commit dw by metis
next
  case (authorize x i res t')
  from distinct_row_commit [OF authorize_commit [OF gw_invD(1) [OF inv] authorize] dw] show ?thesis .
next
  case (capture x m i amount t')
  with capture_commit [OF gw_invD(1) [OF inv] capture] distinct_row_commit dw show ?thesis by blast
next
  case (refund x m i amount t')
  with refund_commit [OF gw_invD(1) [OF inv] refund] distinct_row_commit dw show ?thesis by blast
next
  case (void x m i t')
  with void_commit [OF gw_invD(1) [OF inv] void] distinct_row_commit dw show ?thesis by blast
qed

lemma distinct_webhooks_run:
  assumes "(gw_step fee)\<^sup>*\<^sup>* d d'" and "gw_inv fee d" and "distinct_webhooks d"
  shows "gw_inv fee d' \<and> distinct_webhooks d'"
  using assms by (induction rule: rtranclp_induct) (auto intro: gw_step_inv distinct_webhooks_step)

section \<open>Where the claimed deliveries are\<close>

definition batch_of :: "poller \<Rightarrow> delivery list" where
  "batch_of p = (case p of Handing ws \<Rightarrow> ws | _ \<Rightarrow> [])"

definition job_of :: "slot \<Rightarrow> delivery multiset" where
  "job_of k = (case k of Busy w \<Rightarrow> {#w#} | _ \<Rightarrow> {#})"

definition in_work :: "slot list \<Rightarrow> delivery multiset" where
  "in_work ks = sum_list (map job_of ks)"

lemma batch_of_simps [simp]: "batch_of Waiting = []" "batch_of (Handing ws) = ws" "batch_of Stopped = []"
  by (simp_all add: batch_of_def)

lemma job_of_simps [simp]: "job_of Idle = {#}" "job_of (Busy w) = {#w#}" "job_of Exited = {#}"
  by (simp_all add: job_of_def)

lemma sum_list_slot:
  fixes f :: "'k \<Rightarrow> 'a :: comm_monoid_add"
  shows "k < length ks \<Longrightarrow> sum_list (map f (ks[k := x])) + f (ks ! k) = sum_list (map f ks) + f x"
  by (induction ks arbitrary: k) (auto simp: nth_Cons ac_simps split: nat.splits)

lemma in_work_update: "k < length ks \<Longrightarrow> in_work (ks[k := x]) + job_of (ks ! k) = in_work ks + job_of x"
  by (simp add: in_work_def sum_list_slot)

lemma in_work_taken: "k < length ks \<Longrightarrow> ks ! k = Idle \<Longrightarrow> in_work (ks[k := Busy w]) = in_work ks + {#w#}"
  using in_work_update [of k ks "Busy w"] by simp

lemma in_work_done: "k < length ks \<Longrightarrow> ks ! k = Busy w \<Longrightarrow> in_work ks = in_work (ks[k := Idle]) + {#w#}"
  using in_work_update [of k ks Idle] by simp

lemma in_work_left: "k < length ks \<Longrightarrow> ks ! k = Idle \<Longrightarrow> in_work (ks[k := Exited]) = in_work ks"
  using in_work_update [of k ks Exited] by simp

lemma in_work_start [simp]: "in_work (replicate n Idle) = {#}"
  by (induction n) (simp_all add: in_work_def)

lemma in_work_exited: "list_all (\<lambda>k. k = Exited) ks \<Longrightarrow> in_work ks = {#}"
  by (induction ks) (simp_all add: in_work_def)

lemma size_in_work: "size (in_work ks) \<le> length ks"
  by (induction ks) (auto simp: in_work_def job_of_def split: slot.splits)

definition run_inv :: "WebhookConfig \<Rightarrow> run_state \<Rightarrow> bool" where
  "run_inv cfg s \<longleftrightarrow> length (ruWorkers s) = nat (wcWorkers cfg)
     \<and> ruClaimed s = mset (batch_of (ruPoller s)) + in_work (ruWorkers s)
         + ruAttempted s + ruReleased s + ruStranded s
     \<and> length (batch_of (ruPoller s)) \<le> 2 * nat (wcWorkers cfg)
     \<and> (ruPoller s \<noteq> Stopped \<longrightarrow> ruReleased s = {#} \<and> ruStranded s = {#})
     \<and> (ruPoller s = Stopped \<longrightarrow> ruDone s)
     \<and> size (ruReleased s) \<le> 1 \<and> (ruReleased s = {#} \<longrightarrow> ruStranded s = {#})"

text \<open>A claim takes at most twice as many rows as there are workers.\<close>

lemma length_filter_ids:
  assumes "distinct (map f xs)"
  shows "length (filter (\<lambda>x. f x \<in> set ids) xs) \<le> length ids"
proof -
  have "length (filter (\<lambda>x. f x \<in> set ids) xs) = card (set (map f (filter (\<lambda>x. f x \<in> set ids) xs)))"
    using distinct_card [OF distinct_map_filter [OF assms]] by simp
  also have "\<dots> \<le> card (set ids)" by (rule card_mono) auto
  finally show ?thesis using card_length le_trans by blast
qed

lemma ClaimDue_length:
  assumes "ClaimDue f dbnow locked limit now d = Inr (batch, d')" and "distinct_webhooks d"
  shows "length batch \<le> nat limit"
proof -
  let ?ids = "due_ids locked (nat limit) now (dbWebhooks d)"
  have "length batch \<le> length ?ids"
    using assms length_filter_ids [of dID "dbWebhooks d" ?ids] by (simp add: ClaimDue_Inr distinct_webhooks_def)
  then show ?thesis by (simp add: due_ids_def)
qed

lemma poll_claim_length:
  assumes "gap_ok fee (pollGap e)" and "gw_inv fee d" and "distinct_webhooks d"
    and "0 \<le> wcWorkers cfg" and "poll_claim cfg e d = (batch, d')"
  shows "length batch \<le> 2 * nat (wcWorkers cfg)"
proof -
  define d1 where "d1 = (case ReleaseStale (pollStale e) (pollDBNow e) staleClaimTimeout (pollNow1 e) d of
                 Inl err \<Rightarrow> d | Inr (n, d') \<Rightarrow> d')"
  have "(gw_step fee)\<^sup>*\<^sup>* d d1"
    by (auto simp: d1_def split: sum.splits intro: gw_step.release)
  then have "(gw_step fee)\<^sup>*\<^sup>* d (pollGap e d1)" using gap_run [OF assms(1)] by blast
  then have dist: "distinct_webhooks (pollGap e d1)" using distinct_webhooks_run assms(2,3) by blast
  have "(wcWorkers cfg * 2 + 2 ^ 63) mod 2 ^ 64 \<le> wcWorkers cfg * 2 + 2 ^ 63"
    by (rule zmod_le_nonneg_dividend) (use assms(4) in simp)
  then have "wrap64 (wcWorkers cfg * 2) \<le> wcWorkers cfg * 2" by (simp add: wrap64_def)
  then have "nat (wrap64 (wcWorkers cfg * 2)) \<le> 2 * nat (wcWorkers cfg)" by linarith
  then show ?thesis
    using assms(5) ClaimDue_length [OF _ dist] unfolding poll_claim_def Let_def d1_def [symmetric]
    by (fastforce split: sum.splits prod.splits)
qed

lemma run_step_inv:
  assumes st: "run_step hmac A cfg fee s s'" and inv: "run_inv cfg s"
    and db: "gw_inv fee (ruDB s)" "distinct_webhooks (ruDB s)"
    and ws: "0 \<le> wcWorkers cfg"
  shows "run_inv cfg s'"
  using st
proof cases
  case (poll e batch d)
  then show ?thesis
    using inv poll_claim_length [OF poll(3) db ws poll(4)] by (auto simp: run_inv_def)
next
  case (send w ws k)
  then show ?thesis using inv in_work_taken [of k "ruWorkers s" w] by (auto simp: run_inv_def)
next
  case (finish k w v)
  then show ?thesis using inv in_work_done [of k "ruWorkers s" w] by (auto simp: run_inv_def)
next
  case (leave k)
  then show ?thesis using inv in_work_left [of k "ruWorkers s"] by (auto simp: run_inv_def)
qed (use inv in \<open>auto simp: run_inv_def\<close>)

definition run_ready :: "int \<Rightarrow> WebhookConfig \<Rightarrow> run_state \<Rightarrow> bool" where
  "run_ready fee cfg s \<longleftrightarrow> (\<exists>d. s = run_start cfg d \<and> gw_inv fee d \<and> distinct_webhooks d) \<and> 0 \<le> wcWorkers cfg"

definition run_ok :: "int \<Rightarrow> WebhookConfig \<Rightarrow> run_state \<Rightarrow> bool" where
  "run_ok fee cfg s \<longleftrightarrow> run_inv cfg s \<and> gw_inv fee (ruDB s) \<and> distinct_webhooks (ruDB s) \<and> 0 \<le> wcWorkers cfg"

interpretation dispatcher_runs: invariant_system "run_ready fee cfg" "run_step hmac A cfg fee" "run_ok fee cfg"
  for fee cfg hmac A
proof unfold_locales
  show "run_ready fee cfg s \<Longrightarrow> run_ok fee cfg s" for s
    by (auto simp: run_ready_def run_ok_def run_inv_def run_start_def)
  show "run_step hmac A cfg fee s t \<Longrightarrow> run_ok fee cfg s \<Longrightarrow> run_ok fee cfg t" for s t
    using run_step_inv distinct_webhooks_run [OF run_step_refines] unfolding run_ok_def by blast
qed


section \<open>Shutting down\<close>

definition weight :: "slot \<Rightarrow> nat" where
  "weight k = (case k of Busy w \<Rightarrow> 2 | Idle \<Rightarrow> 1 | Exited \<Rightarrow> 0)"

lemma weight_0 [simp]: "weight k = 0 \<longleftrightarrow> k = Exited"
  by (cases k) (simp_all add: weight_def)

lemma worker_advances:
  assumes "ruPoller s = Stopped" and "\<not> list_all (\<lambda>k. k = Exited) (ruWorkers s)"
  shows "\<exists>s'. run_step hmac A cfg fee s s' \<and> ruPoller s' = Stopped \<and> ruDone s' = ruDone s
    \<and> Suc (sum_list (map weight (ruWorkers s'))) = sum_list (map weight (ruWorkers s))
    \<and> ruAttempted s' + in_work (ruWorkers s') = ruAttempted s + in_work (ruWorkers s)"
proof -
  from assms(2) obtain k where k: "k < length (ruWorkers s)" "ruWorkers s ! k \<noteq> Exited"
    by (auto simp: list_all_length)
  note sum = sum_list_slot [OF k(1), where f = weight]
  show ?thesis
  proof (cases "ruWorkers s ! k")
    case Idle
    show ?thesis
      by (rule exI, intro conjI, rule run_step.leave [OF assms(1) k(1) Idle])
        (use assms(1) sum [of Exited] Idle in_work_left [OF k(1) Idle] in \<open>simp_all add: weight_def\<close>)
  next
    case (Busy w)
    obtain v :: deliver_env where v: "gap_ok fee (vGap v)"
      using that [of "demo_deliver (answering 200)"] by (simp add: demo_deliver_def)
    show ?thesis
      by (rule exI, intro conjI, rule run_step.finish [OF k(1) Busy v])
        (use assms(1) sum [of Idle] Busy in_work_done [OF k(1) Busy] in \<open>simp_all add: weight_def\<close>)
  qed (use k in simp)
qed

lemma workers_drain:
  assumes "ruPoller s = Stopped" and "n = sum_list (map weight (ruWorkers s))"
  shows "\<exists>s'. (run_step hmac A cfg fee ^^ n) s s' \<and> ruPoller s' = Stopped \<and> ruDone s' = ruDone s
    \<and> list_all (\<lambda>k. k = Exited) (ruWorkers s')
    \<and> ruAttempted s' = ruAttempted s + in_work (ruWorkers s)"
  using assms
proof (induction n arbitrary: s)
  case 0
  then have "list_all (\<lambda>k. k = Exited) (ruWorkers s)"
    by (simp add: list_all_iff)
  with 0 show ?case using in_work_exited by fastforce
next
  case (Suc n)
  have "sum_list (map weight (ruWorkers s)) \<noteq> 0"
    unfolding Suc.prems(2) [symmetric] by (rule Suc_not_Zero)
  then have "\<not> list_all (\<lambda>k. k = Exited) (ruWorkers s)" by (auto simp: list_all_iff)
  from worker_advances [OF Suc.prems(1) this] obtain s1 where s1: "run_step hmac A cfg fee s s1"
    "ruPoller s1 = Stopped" "ruDone s1 = ruDone s" "n = sum_list (map weight (ruWorkers s1))"
    "ruAttempted s1 + in_work (ruWorkers s1) = ruAttempted s + in_work (ruWorkers s)"
    using Suc.prems(2) by (metis Suc_inject)
  from Suc.IH [OF s1(2,4)] obtain s2 where "(run_step hmac A cfg fee ^^ n) s1 s2"
    "ruPoller s2 = Stopped" "ruDone s2 = ruDone s" "list_all (\<lambda>k. k = Exited) (ruWorkers s2)"
    "ruAttempted s2 = ruAttempted s + in_work (ruWorkers s)" using s1(3,5) by auto
  then show ?case using relpowp_Suc_I2 [where P = "run_step hmac A cfg fee", OF s1(1)] by blast
qed

lemma poller_stops:
  assumes "ruDone s"
  shows "\<exists>s' n. n \<le> 2 \<and> (run_step hmac A cfg fee ^^ n) s s' \<and> ruPoller s' = Stopped \<and> ruDone s'
    \<and> ruWorkers s' = ruWorkers s \<and> ruAttempted s' = ruAttempted s"
proof (cases "ruPoller s")
  case Waiting
  from run_step.quit [OF this assms] assms show ?thesis
    by (intro exI [of _ "s\<lparr> ruPoller := Stopped \<rparr>"] exI [of _ 1]) (simp add: eq_OO)
next
  case (Handing ws)
  show ?thesis
  proof (cases ws)
    case Nil
    let ?s = "s\<lparr> ruPoller := Waiting \<rparr>"
    have "run_step hmac A cfg fee s ?s" using Handing Nil by (simp add: run_step.handed)
    moreover have "run_step hmac A cfg fee ?s (?s\<lparr> ruPoller := Stopped \<rparr>)"
      using assms by (intro run_step.quit) simp_all
    ultimately have "(run_step hmac A cfg fee ^^ 2) s (?s\<lparr> ruPoller := Stopped \<rparr>)"
      by (auto simp: numeral_2_eq_2 intro!: relcomppI)
    then show ?thesis using assms
      by (intro exI [of _ "?s\<lparr> ruPoller := Stopped \<rparr>"] exI [of _ 2]) simp
  next
    case (Cons w ws')
    with Handing have h: "ruPoller s = Handing (w # ws')" by simp
    show ?thesis
      by (rule exI, rule exI [of _ "Suc 0"], intro conjI, simp, unfold relpowp_1 [unfolded One_nat_def],
          rule run_step.abort [OF h assms]) (use assms in simp_all)
  qed
qed (use assms in \<open>auto intro!: exI [of _ s] exI [of _ 0]\<close>)

text \<open>
  C29. A shutdown comes to its end. Once the context has ended, in whatever state the dispatcher
  is then, the poller and the workers alone, without any other session, can bring \<open>Run\<close> to a
  clean return within two steps of the poller and two of each worker, and every delivery that a
  worker held is attempted on the way.
\<close>

theorem shutdown_drains:
  assumes "gw_inv fee d" and "distinct_webhooks d" and "0 \<le> wcWorkers cfg"
    and "(run_step hmac A cfg fee)\<^sup>*\<^sup>* (run_start cfg d) s" and "ruDone s"
  shows "\<exists>s' n. (run_step hmac A cfg fee ^^ n) s s' \<and> n \<le> 2 + 2 * nat (wcWorkers cfg)
    \<and> Dispatcher_Run False s' = Some None \<and> ruAttempted s' = ruAttempted s + in_work (ruWorkers s)"
proof -
  have len: "length (ruWorkers s) = nat (wcWorkers cfg)"
    using dispatcher_runs.reachable_inv [OF _ assms(4)] assms(1-3) by (auto simp: run_ready_def run_ok_def run_inv_def)
  obtain s1 n1 where s1: "n1 \<le> 2" "(run_step hmac A cfg fee ^^ n1) s s1" "ruPoller s1 = Stopped" "ruDone s1"
    "ruWorkers s1 = ruWorkers s" "ruAttempted s1 = ruAttempted s"
    using poller_stops [OF assms(5)] by metis
  obtain s2 where s2: "(run_step hmac A cfg fee ^^ sum_list (map weight (ruWorkers s1))) s1 s2"
    "ruPoller s2 = Stopped" "ruDone s2 = ruDone s1" "list_all (\<lambda>k. k = Exited) (ruWorkers s2)"
    "ruAttempted s2 = ruAttempted s1 + in_work (ruWorkers s1)"
    using workers_drain [OF s1(3) HOL.refl] by blast
  have "sum_list (map weight ks) \<le> 2 * length ks" for ks
    by (induction ks) (auto simp: weight_def split: slot.splits)
  then have "n1 + sum_list (map weight (ruWorkers s1)) \<le> 2 + 2 * nat (wcWorkers cfg)"
    using s1(1,5) len by (metis add_mono)
  moreover have "(run_step hmac A cfg fee ^^ (n1 + sum_list (map weight (ruWorkers s1)))) s s2"
    using s1(2) s2(1) by (auto simp: relpowp_add)
  ultimately show ?thesis using s1 s2 by (auto simp: Dispatcher_Run_def)
qed

section \<open>A concrete run\<close>

text \<open>
  Two deliveries are due when the context ends, and the ticker fires once more: the first is put
  back, the second is cut off, and the worker leaves.
\<close>

definition demo_run_db :: db where
  "demo_run_db = empty_db\<lparr> dbWebhooks := [demo_delivery ''w1'' ''m'', demo_delivery ''w2'' ''m''] \<rparr>"

lemma demo_run_start: "gw_inv 200 demo_run_db" "distinct_webhooks demo_run_db" "0 \<le> wcWorkers demo_wcfg"
    "length (ruWorkers (run_start demo_wcfg demo_run_db)) = 1"
proof -
  show "gw_inv 200 demo_run_db"
    by (rule gw_start_inv) (simp add: gw_start_def demo_run_db_def empty_db_def)
qed (simp_all add: distinct_webhooks_def demo_run_db_def demo_delivery_def NewWebhookDelivery_def demo_wcfg_def run_start_def)

definition demo_cancelled :: run_state where
  "demo_cancelled = (run_start demo_wcfg demo_run_db)\<lparr> ruDone := True \<rparr>"

lemma demo_cancelled_run: "(run_step demo_hmac demo_aead demo_wcfg 200)\<^sup>*\<^sup>* (run_start demo_wcfg demo_run_db) demo_cancelled"
  unfolding demo_cancelled_def by (rule r_into_rtranclp, rule run_step.cancel)

lemma demo_batch: "map dID (fst (poll_claim demo_wcfg demo_poll demo_run_db)) = [''w1'', ''w2'']"
  by code_simp

lemma demo_aborted:
  obtains s w1 w2 where "(run_step demo_hmac demo_aead demo_wcfg 200)\<^sup>*\<^sup>* (run_start demo_wcfg demo_run_db) s"
    and "ruPoller s = Stopped" "ruDone s" "ruWorkers s = [Idle]"
    and "ruReleased s = {#w1#}" "ruStranded s = {#w2#}" "ruAttempted s = {#}"
    and "dID w1 = ''w1''" "dID w2 = ''w2''"
proof -
  let ?step = "run_step demo_hmac demo_aead demo_wcfg 200"
  obtain w1 w2 d where c: "poll_claim demo_wcfg demo_poll demo_run_db = ([w1, w2], d)"
    and ids: "dID w1 = ''w1''" "dID w2 = ''w2''"
    using demo_batch by (cases "poll_claim demo_wcfg demo_poll demo_run_db") (auto simp: map_eq_Cons_conv)
  define s1 where "s1 = demo_cancelled\<lparr> ruPoller := Handing [w1, w2], ruDB := d,
     ruClaimed := ruClaimed demo_cancelled + mset [w1, w2] \<rparr>"
  have "?step demo_cancelled s1"
    unfolding s1_def by (rule run_step.poll [where e = demo_poll])
      (use c in \<open>simp_all add: demo_cancelled_def run_start_def demo_poll_def\<close>)
  moreover have h: "ruPoller s1 = Handing (w1 # [w2])" "ruDone s1" by (simp_all add: s1_def demo_cancelled_def)
  ultimately show thesis
    using that [OF rtranclp.rtrancl_into_rtrancl [OF rtranclp.rtrancl_into_rtrancl [OF demo_cancelled_run]
        run_step.abort [OF h, where f = None and dbnow = 0 and now = 0]]] ids
    by (auto simp: s1_def demo_cancelled_def run_start_def demo_wcfg_def)
qed


theorem shutdown_drains_witness:
  "\<exists>s' n. (run_step demo_hmac demo_aead demo_wcfg 200 ^^ n) demo_cancelled s' \<and> n \<le> 4
     \<and> Dispatcher_Run False s' = Some None"
proof -
  have "ruDone demo_cancelled" by (simp add: demo_cancelled_def)
  from shutdown_drains [OF demo_run_start(1-3) demo_cancelled_run this]
  have "\<exists>s' n. (run_step demo_hmac demo_aead demo_wcfg 200 ^^ n) demo_cancelled s' \<and> n \<le> 2 + 2 * nat (wcWorkers demo_wcfg)
    \<and> Dispatcher_Run False s' = Some None" by blast
  then show ?thesis by (simp add: demo_wcfg_def)
qed

end
