(* ===== verification/Processes.thy ===== *)
theory Processes
  imports Api Config Settlement Dispatch_Run
begin

text \<open>
  The processes and how they are put together: \<open>internal/app/app.go\<close>,
  \<open>internal/cache/redis.go\<close>, the start of \<open>cmd/api\<close>, the jobs of \<open>cmd/worker\<close> and the
  run of \<open>cmd/seed\<close>, and the gateway as the system of all of them.
\<close>

section \<open>Connections and wiring\<close>

text \<open>The drivers' own steps are parameters: parsing the URL, opening the pool and the ping.\<close>

definition postgres_Connect ::
  "(string \<Rightarrow> 'c result) \<Rightarrow> ('c \<Rightarrow> 'p result) \<Rightarrow> ('p \<Rightarrow> fault) \<Rightarrow> string \<Rightarrow> 'p result" where
  "postgres_Connect parse newPool ping url =
     (case parse url of
        Inl err \<Rightarrow> Inl (wrapf ''parse database url'' err)
      | Inr cfg \<Rightarrow>
          (case newPool cfg of
             Inl err \<Rightarrow> Inl (wrapf ''create pool'' err)
           | Inr pool \<Rightarrow>
               (case ping pool of Some err \<Rightarrow> Inl (wrapf ''ping database'' err) | None \<Rightarrow> Inr pool)))"

definition cache_Connect :: "(string \<Rightarrow> 'o result) \<Rightarrow> ('o \<Rightarrow> 'c) \<Rightarrow> ('c \<Rightarrow> fault) \<Rightarrow> string \<Rightarrow> 'c result" where
  "cache_Connect parseURL newClient ping url =
     (case parseURL url of
        Inl err \<Rightarrow> Inl (wrapf ''parse redis url'' err)
      | Inr opt \<Rightarrow>
          (let client = newClient opt
           in case ping client of Some err \<Rightarrow> Inl (wrapf ''ping redis'' err) | None \<Rightarrow> Inr client))"

text \<open>
  What the drivers offer to \<open>New\<close>: the two connections, by URL, and the constructors of the
  cipher.
\<close>

record ('s, 'b) drivers =
  drPostgres :: "string \<Rightarrow> unit result"
  drRedis :: "string \<Rightarrow> 's redis result"
  drAES :: "string \<Rightarrow> 'b result"
  drGCM :: "'b \<Rightarrow> aead result"

record 's App =
  apCfg :: Config
  apCipher :: aead
  apClockSkew :: duration
  apFeeBPS :: int
  apAcquirer :: AcquirerConfig
  apIdempotency :: "'s idem_store"
  apLimiter :: "'s limiter"

definition app_New :: "('s, 'b) drivers \<Rightarrow> rec_codec \<Rightarrow> Config \<Rightarrow> 's App result" where
  "app_New dr rc cfg =
     (case drPostgres dr (cfDatabaseURL cfg) of
        Inl err \<Rightarrow> Inl (wrapf ''connect postgres'' err)
      | Inr db \<Rightarrow>
          (case drRedis dr (cfRedisURL cfg) of
             Inl err \<Rightarrow> Inl (wrapf ''connect redis'' err)
           | Inr rdb \<Rightarrow>
               andThen (NewCipher (drAES dr) (drGCM dr) (cfSecretEncKey cfg)) (\<lambda>cipher.
               Inr \<lparr> apCfg = cfg, apCipher = cipher, apClockSkew = lcAuthMaxClockSkew (cfLimits cfg),
                     apFeeBPS = cfPlatformFeeBPS cfg, apAcquirer = cfAcquirer cfg,
                     apIdempotency = NewStore rdb rc (lcIdempotencyTTL (cfLimits cfg)),
                     apLimiter = NewLimiter rdb (lcRateLimitRPM (cfLimits cfg)) (60 * Second) \<rparr>)))"

section \<open>The migrations\<close>

text \<open>The migration library on the embedded files is a parameter: one fault per command.\<close>

record goose =
  gsDialect :: fault
  gsUp :: fault
  gsDown :: fault
  gsReset :: fault
  gsStatus :: fault
  gsVersion :: fault

definition runGoose :: "goose \<Rightarrow> string \<Rightarrow> fault" where
  "runGoose g command =
     (if command = ''up'' \<or> command = [] then gsUp g
      else if command = ''down'' then gsDown g
      else if command = ''reset'' then gsReset g
      else if command = ''status'' then gsStatus g
      else if command = ''version'' then gsVersion g
      else Some (Opaque ''unknown migration command (use up, down, reset, status, version)''))"

definition Migrate :: "goose \<Rightarrow> string \<Rightarrow> fault" where
  "Migrate g command =
     (case gsDialect g of Some err \<Rightarrow> Some (wrapf ''set goose dialect'' err) | None \<Rightarrow> runGoose g command)"

text \<open>The exit code of the command with its arguments.\<close>

definition migrate_main :: "parsers \<Rightarrow> environ \<Rightarrow> ('s, 'b) drivers \<Rightarrow> rec_codec \<Rightarrow> goose \<Rightarrow> string list \<Rightarrow> int" where
  "migrate_main ps e dr rc g args =
     (let command = (case args of arg0 # arg1 # rest \<Rightarrow> arg1 | _ \<Rightarrow> ''up'')
      in case andThen (Load ps e) (app_New dr rc) of
           Inl err \<Rightarrow> 1
         | Inr application \<Rightarrow> (case Migrate g command of Some err \<Rightarrow> 1 | None \<Rightarrow> 0))"

section \<open>The API\<close>

text \<open>The start of the API process, up to the router that serves the requests.\<close>

record 'f api_parts =
  paCodecs :: codecs
  paHmac :: keyed_hash
  paAcquirer :: acquirer_port
  paSha :: "string \<Rightarrow> string"
  paJson :: "'f json_codec"

definition api_start ::
  "parsers \<Rightarrow> environ \<Rightarrow> ('s, 'b) drivers \<Rightarrow> rec_codec \<Rightarrow> goose \<Rightarrow> 'f api_parts
     \<Rightarrow> ('s handler \<Rightarrow> 's handler) \<Rightarrow> ('s, 'f) deps result" where
  "api_start ps e dr rc g pa chi =
     andThen (Load ps e) (\<lambda>cfg.
     andThen (RequireAdminToken cfg) (\<lambda>_.
     andThen (app_New dr rc cfg) (\<lambda>application.
     case (if cfRunMigrations cfg then Migrate g ''up'' else None) of
       Some err \<Rightarrow> Inl err
     | None \<Rightarrow>
         Inr \<lparr> dpCodecs = paCodecs pa, dpHmac = paHmac pa, dpCipher = apCipher application,
               dpSkew = apClockSkew application, dpAdminToken = cfAdminToken cfg,
               dpFeeBPS = apFeeBPS application, dpAcquirer = paAcquirer pa,
               dpLimiter = apLimiter application, dpStore = apIdempotency application,
               dpSha = paSha pa, dpJson = paJson pa, dpChi = chi \<rparr>)))"

section \<open>The worker\<close>

text \<open>The exit code and the error of a job; \<open>main\<close> turns an error into exit code 1.\<close>

definition exit_code :: "int \<times> error option \<Rightarrow> int" where
  "exit_code r = (case snd r of Some err \<Rightarrow> 1 | None \<Rightarrow> fst r)"

definition reconcile_job :: "int \<Rightarrow> run_env \<Rightarrow> time \<Rightarrow> db \<Rightarrow> (int \<times> error option) \<times> db" where
  "reconcile_job feeBPS e day d =
     (case Run feeBPS e day d of
        ((report, Some err), d) \<Rightarrow> ((1, Some err), d)
      | ((Some report, None), d) \<Rightarrow> ((if \<not> Report_OK report then 2 else 0, None), d)
      | ((None, None), d) \<Rightarrow> ((1, Some (Opaque ''invalid memory address or nil pointer dereference'')), d))"

text \<open>
  What the process sets out to do: the long-running dispatcher with its configuration and
  cipher, or the job of one day with the fee rate; an error ends it before it has done anything.
\<close>

datatype task = Deliveries WebhookConfig aead int | Reconcile int time

definition worker_start ::
  "parsers \<Rightarrow> environ \<Rightarrow> ('s, 'b) drivers \<Rightarrow> rec_codec \<Rightarrow> (string \<Rightarrow> time result) \<Rightarrow> time \<Rightarrow> string \<Rightarrow> string
     \<Rightarrow> task result" where
  "worker_start ps e dr rc parseDay now job date =
     andThen (Load ps e) (\<lambda>cfg.
     andThen (app_New dr rc cfg) (\<lambda>application.
     if job = ''webhook'' \<or> job = [] then
       Inr (Deliveries (cfWebhook cfg) (apCipher application) (apFeeBPS application))
     else if job = ''reconcile'' then
       andThen (if date \<noteq> [] then parseDay date else Inr now) (\<lambda>day. Inr (Reconcile (apFeeBPS application) day))
     else Inl (Opaque (''unknown job: '' @ job))))"

text \<open>
  The dispatcher runs concurrently with the other sessions until it returns, so the process is a
  relation between the database at its start and its result with the database at its end.
\<close>

inductive worker_run :: "keyed_hash \<Rightarrow> run_env \<Rightarrow> task result \<Rightarrow> db \<Rightarrow> int \<times> error option \<Rightarrow> db \<Rightarrow> bool"
  for hmac re where
  refused: "worker_run hmac re (Inl err) d (1, Some err) d"
| reconciled: "reconcile_job fee re day d = (r, d') \<Longrightarrow> worker_run hmac re (Inr (Reconcile fee day)) d r d'"
| delivered: "(run_step hmac A wcfg fee)\<^sup>*\<^sup>* (run_start wcfg d) s \<Longrightarrow> Dispatcher_Run timeout s = Some ret \<Longrightarrow>
    worker_run hmac re (Inr (Deliveries wcfg A fee)) d
      (case ret of Some err \<Rightarrow> (1, Some err) | None \<Rightarrow> (0, None)) (ruDB s)"

inductive_cases worker_reconcileE: "worker_run hmac re (Inr (Reconcile fee day)) d r d'"

section \<open>The seed\<close>

definition seed_reference :: "int \<Rightarrow> string" where
  "seed_reference i = (let s = show_int i in ''ORDER-SEED-'' @ replicate (5 - length s) CHR ''0'' @ s)"

definition seed_amount :: "int \<Rightarrow> Amount" where
  "seed_amount i = 50000 + (i mod 20) * 10000"

definition seed_input :: "uuid \<Rightarrow> int \<Rightarrow> AuthorizeInput" where
  "seed_input m i =
     \<lparr> aiMerchantID = m, aiReference = seed_reference i, aiAmount = seed_amount i, aiCurrency = VND,
       aiCard = \<lparr> cNumber = ''4242424242424242'', cExpMonth = 12, cExpYear = 2030, cCVV = ''123'' \<rparr>,
       aiCapture = False, aiMetadata = Some [(''seed'', ''true''), (''batch'', ''demo'')] \<rparr>"

record seed_stats =
  ssAuthorized :: int
  ssCaptured :: int
  ssRefunded :: int
  ssVoided :: int

record seed_env =
  seAuth :: auth_env
  seTxAuth :: tx_env
  sePre :: pre_env
  seTx :: tx_env
  sePreRefund :: pre_env
  seTxRefund :: tx_env

text \<open>One sample payment: authorized, then voided, captured, or captured and half refunded.\<close>

definition seed_one ::
  "int \<Rightarrow> acquirer_port \<Rightarrow> uuid \<Rightarrow> seed_env \<Rightarrow> int \<Rightarrow> seed_stats \<Rightarrow> db \<Rightarrow> seed_stats \<times> db" where
  "seed_one fee acq m e i st d =
     (case Payment_Authorize fee acq (seAuth e) (seTxAuth e) (sePre e) (seTx e) (seed_input m i) d of
        ((Some txn, None), d) \<Rightarrow>
          (let st = st\<lparr> ssAuthorized := ssAuthorized st + 1 \<rparr>
           in if i mod 10 = 0 then
                (case Payment_Void acq (sePre e) (seTx e) m (tID txn) d of
                   (Inl err, d) \<Rightarrow> (st, d)
                 | (Inr _, d) \<Rightarrow> (st\<lparr> ssVoided := ssVoided st + 1 \<rparr>, d))
              else
                (case Payment_Capture fee acq (sePre e) (seTx e) m (tID txn) 0 d of
                   (Inl err, d) \<Rightarrow> (st, d)
                 | (Inr _, d) \<Rightarrow>
                     (let st = st\<lparr> ssCaptured := ssCaptured st + 1 \<rparr>
                      in if i mod 10 = 7 then
                           (case Payment_Refund acq (sePreRefund e) (seTxRefund e) m (tID txn) (seed_amount i sdiv 2) d of
                              (Inl err, d) \<Rightarrow> (st, d)
                            | (Inr _, d) \<Rightarrow> (st\<lparr> ssRefunded := ssRefunded st + 1 \<rparr>, d))
                         else (st, d))))
      | (_, d) \<Rightarrow> (st, d))"

fun seed_loop ::
  "int \<Rightarrow> acquirer_port \<Rightarrow> uuid \<Rightarrow> (int \<Rightarrow> seed_env) \<Rightarrow> int list \<Rightarrow> seed_stats \<Rightarrow> db \<Rightarrow> seed_stats \<times> db" where
  "seed_loop fee acq m es [] st d = (st, d)"
| "seed_loop fee acq m es (i # is) st d =
     (case seed_one fee acq m (es i) i st d of (st, d) \<Rightarrow> seed_loop fee acq m es is st d)"

definition seed_run ::
  "aead \<Rightarrow> int \<Rightarrow> acquirer_port \<Rightarrow> environ \<Rightarrow> time \<Rightarrow> create_env \<Rightarrow> (int \<Rightarrow> seed_env) \<Rightarrow> fault \<Rightarrow> fault
     \<Rightarrow> db \<Rightarrow> (CreatedMerchant \<times> seed_stats \<times> Balance) result \<times> db" where
  "seed_run A fee acq e now c es fb fc d =
     (case ParseInt (env e ''SEED_TRANSACTIONS'' ''50'') of
        None \<Rightarrow> (Inl (Opaque ''SEED_TRANSACTIONS must be a non-negative integer''), d)
      | Some n \<Rightarrow>
          if n < 0 then (Inl (Opaque ''SEED_TRANSACTIONS must be a non-negative integer''), d)
          else (case MerchantService_Create A c
                   \<lparr> ciName = ''Demo Store'', ciEmail = ''demo+'' @ show_int (now div Second) @ ''@example.com'',
                     ciWebhookURL = env e ''SEED_WEBHOOK_URL'' ''http://api:8080/internal/webhook-receiver'' \<rparr> d of
             Inl err \<Rightarrow> (Inl (wrapf ''create demo merchant'' err), d)
           | Inr (created, d) \<Rightarrow>
               (let m = mID (cmMerchant created)
                in case seed_loop fee acq m es [1..n]
                          \<lparr> ssAuthorized = 0, ssCaptured = 0, ssRefunded = 0, ssVoided = 0 \<rparr> d of
                     (stats, d) \<Rightarrow>
                       (andThen (LedgerService_Balance fb m VND d) (\<lambda>balance.
                        andThen (CheckInvariant fc d) (\<lambda>unbalanced.
                        if unbalanced \<noteq> [] then Inl (Opaque ''seed produced unbalanced ledger entry groups'')
                        else Inr (created, stats, balance))), d))))"

definition fast_acquirer :: "Config \<Rightarrow> AcquirerConfig" where
  "fast_acquirer cfg =
     (cfAcquirer cfg)\<lparr> acDeclineRate := 0, acTimeoutRate := 0, acMinLatency := 0, acMaxLatency := 0 \<rparr>"

section \<open>Every process does gateway steps\<close>

definition seed_gaps_ok :: "int \<Rightarrow> (int \<Rightarrow> seed_env) \<Rightarrow> bool" where
  "seed_gaps_ok fee es \<longleftrightarrow> (\<forall>i. auth_gaps_ok fee (seAuth (es i)) (sePre (es i)) \<and> gap_ok fee (pGap (sePreRefund (es i))))"

lemma seed_one_steps:
  assumes "auth_gaps_ok fee (seAuth e) (sePre e)" "gap_ok fee (pGap (sePreRefund e))"
  shows "(gw_step fee)\<^sup>*\<^sup>* d (snd (seed_one fee acq m e i st d))"
proof -
  have "0 \<le> i mod 20" "i mod 20 < 20" by simp_all
  then have amount: "in64 (aiAmount (seed_input m i))" by (simp add: seed_input_def seed_amount_def in64_def)
  note pre = assms(1) [unfolded auth_gaps_ok_def, THEN conjunct2, THEN conjunct2, THEN conjunct2]
  obtain r d1 where a: "Payment_Authorize fee acq (seAuth e) (seTxAuth e) (sePre e) (seTx e) (seed_input m i) d = (r, d1)"
    by fastforce
  have d1: "(gw_step fee)\<^sup>*\<^sup>* d d1" using Payment_Authorize_run [OF assms(1) amount, of d acq "seTxAuth e" "seTx e"] a by simp
  have void: "(gw_step fee)\<^sup>*\<^sup>* d d2" if "Payment_Void acq (sePre e) (seTx e) m t d1 = (r', d2)" for t r' d2
    using rtranclp_trans [OF d1 Payment_Void_run [OF pre]] that by (metis snd_conv)
  have capture: "(gw_step fee)\<^sup>*\<^sup>* d d2" if "Payment_Capture fee acq (sePre e) (seTx e) m t 0 d1 = (r', d2)" for t r' d2
    using rtranclp_trans [OF d1 Payment_Capture_run [OF pre]] that by (metis snd_conv)
  have refund: "(gw_step fee)\<^sup>*\<^sup>* d d3"
    if "Payment_Capture fee acq (sePre e) (seTx e) m t 0 d1 = (r', d2)"
      "Payment_Refund acq (sePreRefund e) (seTxRefund e) m t n d2 = (r'', d3)" for t n r' r'' d2 d3
    using rtranclp_trans [OF capture [OF that(1)] Payment_Refund_run [OF assms(2)]] that(2) by (metis snd_conv)
  show ?thesis
    using d1 by (auto simp: seed_one_def a Let_def split: prod.splits option.splits sum.splits)
      (blast intro: void capture refund)+
qed

lemma seed_loop_steps:
  assumes "seed_gaps_ok fee es"
  shows "(gw_step fee)\<^sup>*\<^sup>* d (snd (seed_loop fee acq m es is st d))"
proof (induction "is" arbitrary: st d)
  case (Cons i "is")
  obtain st1 d1 where s: "seed_one fee acq m (es i) i st d = (st1, d1)" by fastforce
  then have "(gw_step fee)\<^sup>*\<^sup>* d d1"
    using seed_one_steps [of fee "es i" d acq m i st] assms by (simp add: seed_gaps_ok_def)
  then show ?case using rtranclp_trans [OF _ Cons.IH] s by simp
qed simp

lemma seed_run_steps:
  assumes "seed_gaps_ok fee es"
  shows "(gw_step fee)\<^sup>*\<^sup>* d (snd (seed_run A fee acq e now c es fb fc d))"
proof -
  have "(gw_step fee)\<^sup>*\<^sup>* d (snd (seed_loop fee acq m es is st d1))"
    if "MerchantService_Create A c inp d = Inr (created, d1)" for inp created d1 m "is" st
    using converse_rtranclp_into_rtranclp [OF gw_step.merchant [OF Create_Inr(5) [OF that]] seed_loop_steps [OF assms]] .
  then show ?thesis
    by (auto simp: seed_run_def Let_def case_prod_beta split: option.splits sum.splits)
qed

lemma reconcile_job_steps:
  assumes "run_gaps_ok fee e"
  shows "(gw_step fee)\<^sup>*\<^sup>* d (snd (reconcile_job fee e day d))"
proof -
  have "snd (reconcile_job fee e day d) = snd (Run fee e day d)"
    by (auto simp: reconcile_job_def split: prod.splits option.splits)
  then show ?thesis using Run_run [OF assms] by simp
qed

text \<open>The fee rate of a task is that of the configuration it was started with.\<close>

definition task_fee :: "task \<Rightarrow> int" where
  "task_fee t = (case t of Deliveries wcfg A fee \<Rightarrow> fee | Reconcile fee day \<Rightarrow> fee)"

lemma worker_run_steps:
  assumes "worker_run hmac re (Inr t) d r d'" and "run_gaps_ok (task_fee t) re"
  shows "(gw_step (task_fee t))\<^sup>*\<^sup>* d d'"
  using assms
proof cases
  case (reconciled fee day)
  then show ?thesis using reconcile_job_steps [of fee re d day] assms(2) by (simp add: task_fee_def)
next
  case (delivered A wcfg fee s timeout ret)
  then show ?thesis using run_refines [OF delivered(4)] by (simp add: task_fee_def run_start_def)
qed

text \<open>
  The system: the API serving requests, the goroutines of the dispatchers, the jobs and the
  seed, in any order and any number of processes; a dispatcher takes its step in the database as
  it is then. Redis may change at any time, since keys expire and other clients use it.
\<close>

inductive sys_step :: "('s, 'f) deps \<Rightarrow> 's world \<Rightarrow> 's world \<Rightarrow> bool" for dp where
  request: "request_ok dp q \<Longrightarrow> sys_step dp w (snd (NewRouter dp q r h w))"
| dispatcher: "ruDB s = wDB w \<Longrightarrow> run_step (dpHmac dp) (dpCipher dp) wcfg (dpFeeBPS dp) s s' \<Longrightarrow>
    sys_step dp w (w\<lparr> wDB := ruDB s' \<rparr>)"
| reconcile: "run_gaps_ok (dpFeeBPS dp) e \<Longrightarrow>
    sys_step dp w (w\<lparr> wDB := snd (reconcile_job (dpFeeBPS dp) e day (wDB w)) \<rparr>)"
| seed: "seed_gaps_ok (dpFeeBPS dp) es \<Longrightarrow>
    sys_step dp w (w\<lparr> wDB := snd (seed_run (dpCipher dp) (dpFeeBPS dp) acq e now c es fb fc (wDB w)) \<rparr>)"
| redis: "sys_step dp w (w\<lparr> wRedis := s \<rparr>)"

lemma sys_step_refines:
  assumes "transparent (dpChi dp)" and "sys_step dp w w'"
  shows "(gw_step (dpFeeBPS dp))\<^sup>*\<^sup>* (wDB w) (wDB w')"
  using assms(2)
proof cases
  case (request q r h)
  then show ?thesis using api_steps [OF assms(1)] by blast
next
  case (dispatcher s wcfg s')
  then show ?thesis using run_step_refines [OF dispatcher(3)] by simp
next
  case (reconcile e day)
  then show ?thesis using reconcile_job_steps by simp
next
  case (seed es acq e now c fb fc)
  then show ?thesis using seed_run_steps by simp
qed simp

lemma sys_run_refines:
  assumes "transparent (dpChi dp)" and "(sys_step dp)\<^sup>*\<^sup>* w w'"
  shows "(gw_step (dpFeeBPS dp))\<^sup>*\<^sup>* (wDB w) (wDB w')"
  using assms(2) by induction (auto intro: rtranclp_trans sys_step_refines [OF assms(1)])

section \<open>What a clean exit of the settlement job means\<close>

definition paid_status :: "Status \<Rightarrow> bool" where
  "paid_status s \<longleftrightarrow> s = StatusSettled \<or> s = StatusRefunded"

lemma paid_stays: "status_reach s s' \<Longrightarrow> paid_status s \<Longrightarrow> paid_status s'"
  unfolding status_reach_def paid_status_def by (induction rule: rtranclp_induct) (auto simp: transitions_of_def)

lemma captured_reach: "status_reach StatusCaptured s \<Longrightarrow> s = StatusCaptured \<or> paid_status s"
  unfolding status_reach_def paid_status_def by (induction rule: rtranclp_induct) (auto simp: transitions_of_def)

lemma settle_body_settles:
  assumes inv: "gw_inv fee d" and b: "settle_body fee x i d = Inr (v, d')"
    and r: "row_of i d = Some r" "status_reach StatusCaptured (tStatus r)"
  shows "\<exists>r'. row_of i d' = Some r' \<and> paid_status (tStatus r')"
proof (cases "tStatus r = StatusCaptured")
  case True
  from settle_commit_captured [OF gw_invD(1) [OF inv] b r(1) True] obtain t' where
    rc: "row_commit i (Transaction_Settle (xNow x)) (payout_entries fee (xGroupID x) t' (xNow x)) EventPaymentSettled t' d d'"
    by blast
  then obtain u now where u: "Transaction_Settle (xNow x) r = Inr u" "t' = u\<lparr> tVersion := tVersion u + 1, tUpdatedAt := now \<rparr>"
    and rows: "dbTransactions d' = dbTransactions (set_row t' d)" using r(1) by (auto simp: row_commit_def)
  have "tID t' = i" using u settle_op.oper_identity [OF u(1)] row_of_key [OF r(1)] by (simp add: same_identity_def)
  then have "row_of i d' = Some t'" using rows r(1) row_of_set_row [of i t' d] by (simp add: row_of_def)
  moreover have "tStatus t' = StatusSettled" using u by (auto simp: Settle_Inr)
  ultimately show ?thesis by (simp add: paid_status_def)
next
  case False
  then have "d' = d" using b r by (auto simp: settle_body_def andThen_Inr GetForUpdate_Inr split: if_splits)
  then show ?thesis using captured_reach [OF r(2)] False r(1) by auto
qed

lemma settle_loop_settles:
  assumes gaps: "\<And>k. gap_ok fee (gap k)"
  shows "gw_inv fee d \<Longrightarrow> settle_loop fee xs gap k n ts d = ((m, None), d') \<Longrightarrow> t \<in> set ts
    \<Longrightarrow> tStatus t = StatusCaptured \<Longrightarrow> row_of (tID t) d = Some r \<Longrightarrow> status_reach StatusCaptured (tStatus r)
    \<Longrightarrow> \<exists>r'. row_of (tID t) d' = Some r' \<and> paid_status (tStatus r')"
proof (induction ts arbitrary: k n d r)
  case (Cons u ts)
  show ?case
  proof (cases "tStatus u = StatusCaptured")
    case False
    then show ?thesis using Cons by (auto split: if_splits)
  next
    case True
    with Cons.prems(2) obtain v d2 where w: "WithTx (xTx (xs k)) (settle_body fee (xs k) (tID u)) (gap k d) = (Inr v, d2)"
      and rest: "settle_loop fee xs gap (Suc k) (n + 1) ts d2 = ((m, None), d')"
      by (auto split: sum.splits prod.splits)
    from w have b: "settle_body fee (xs k) (tID u) (gap k d) = Inr (v, d2)"
      by (cases rule: WithTx_cases [of "xTx (xs k)" "settle_body fee (xs k) (tID u)" "gap k d"]) auto
    have "(gw_step fee)\<^sup>*\<^sup>* d (gap k d)" using gaps by (simp add: gap_ok_def)
    from gw_run_progress [OF this Cons.prems(1,5)] obtain r1 where
      r1: "gw_inv fee (gap k d)" "row_of (tID t) (gap k d) = Some r1" "progress r r1" by blast
    then have reach1: "status_reach StatusCaptured (tStatus r1)"
      using Cons.prems(6) by (auto simp: progress_def intro: status_reach_trans)
    have "(gw_step fee)\<^sup>*\<^sup>* (gap k d) d2" using gw_step.settle [OF b] by (rule r_into_rtranclp)
    from gw_run_progress [OF this r1(1,2)] obtain r2 where
      r2: "gw_inv fee d2" "row_of (tID t) d2 = Some r2" "progress r1 r2" by blast
    show ?thesis
    proof (cases "t = u")
      case True
      then have "paid_status (tStatus r2)" using settle_body_settles [OF r1(1) b] r1(2) reach1 r2(2) by auto
      moreover have "(gw_step fee)\<^sup>*\<^sup>* d2 d'"
        using settle_loop_run [where ?d0.0 = d2 and d = d2 and gap = gap and fee = fee and xs = xs
            and k = "Suc k" and n = "n + 1" and ts = ts] gaps rest by simp
      ultimately show ?thesis
        using gw_run_progress [OF _ r2(1,2)] paid_stays by (fastforce simp: progress_def)
    next
      case False
      then show ?thesis
        using Cons.IH [OF r2(1) rest _ Cons.prems(4) r2(2)] Cons.prems(3) reach1 r2(3)
        by (auto simp: progress_def intro: status_reach_trans)
    qed
  qed
qed simp

lemma reconcile_job_settles:
  assumes start: "gw_start d0" "(gw_step fee)\<^sup>*\<^sup>* d0 d" and gaps: "run_gaps_ok fee e"
    and exit: "exit_code (fst (reconcile_job fee e day d)) = 0"
    and r: "row_of i d = Some r" "captured_between (day_from day) (day_to day) r" "tStatus r = StatusCaptured"
  shows "\<exists>r'. row_of i (snd (reconcile_job fee e day d)) = Some r' \<and> paid_status (tStatus r')"
proof -
  let ?d2 = "rGap2 e (rGap1 e d)"
  have inv: "gw_inv fee d" by (rule gateway.reachable_inv [OF start])
  from exit obtain report d' where run: "Run fee e day d = ((Some report, None), d')" "Report_OK report"
    by (auto simp: exit_code_def reconcile_job_def split: prod.splits option.splits if_splits)
  then obtain txns m where txns: "ListCapturedBetween (rList e) (day_from day) (day_to day) d = Inr txns"
    and settled: "settle fee (rSettle e) (rSettleGap e) txns ?d2 = ((m, None), d')"
    by (auto simp: Run_def Let_def write_result_def Report_OK_def
        split: sum.splits prod.splits option.splits if_splits)
  have t: "r \<in> set txns" "tID r = i"
    using txns r row_of_Some [OF r(1)] by (auto simp: ListCapturedBetween_def split: option.splits)
  have "(gw_step fee)\<^sup>*\<^sup>* d ?d2"
    using gaps gap_run by (auto simp: run_gaps_ok_def)
  from gw_run_progress [OF this inv r(1)] obtain r2 where
    r2: "gw_inv fee ?d2" "row_of i ?d2 = Some r2" "progress r r2" by blast
  have "\<exists>r'. row_of (tID r) d' = Some r' \<and> paid_status (tStatus r')"
    by (rule settle_loop_settles [OF _ r2(1) settled [unfolded settle_def] t(1) r(3)])
      (use gaps r2 t r(3) in \<open>auto simp: run_gaps_ok_def progress_def\<close>)
  moreover have "snd (reconcile_job fee e day d) = d'" using run by (simp add: reconcile_job_def)
  ultimately show ?thesis using t(2) by simp
qed

text \<open>
  C16. When the settlement job exits with code 0, the day is settled: every transaction captured
  on that day, as the database was when the job started, is settled or refunded when the process
  ends, whatever other sessions did meanwhile. Any other outcome is a non-zero exit.
\<close>

theorem clean_exit_settles:
  assumes task: "worker_start ps env0 dr rc parseDay now ''reconcile'' date = Inr (Reconcile fee day)"
    and start: "gw_start d0" "(gw_step fee)\<^sup>*\<^sup>* d0 d" and gaps: "run_gaps_ok fee e"
    and exit: "worker_run hmac e (worker_start ps env0 dr rc parseDay now ''reconcile'' date) d r d'" "exit_code r = 0"
    and row: "row_of i d = Some t" "captured_between (day_from day) (day_to day) t" "tStatus t = StatusCaptured"
  shows "\<exists>t'. row_of i d' = Some t' \<and> (tStatus t' = StatusSettled \<or> tStatus t' = StatusRefunded)"
proof -
  from exit(1) have "reconcile_job fee e day d = (r, d')"
    unfolding task by (rule worker_reconcileE)
  with reconcile_job_settles [OF start gaps _ row] exit(2) show ?thesis by (simp add: paid_status_def)
qed

lemma demo_clean_exit: "exit_code (fst (reconcile_job 200 demo_run 0 demo_captured)) = 0"
proof -
  have "map_option Report_OK (day_report 200 demo_run 0 demo_captured) = Some True" by code_simp
  then obtain r where r: "day_report 200 demo_run 0 demo_captured = Some r" "Report_OK r" by auto
  have q: "quiet demo_run" "rWrite demo_run = demo_write" by (simp_all add: quiet_def demo_run_def)
  have "case ListCapturedBetween None (day_from 0) (day_to 0) demo_captured of
      Inr ts \<Rightarrow> ts = dbTransactions demo_captured | _ \<Rightarrow> False" by code_simp
  then have "ListCapturedBetween None (day_from 0) (day_to 0) demo_captured = Inr (dbTransactions demo_captured)"
    by (auto split: sum.splits)
  moreover have "snd (fst (settle 200 (rSettle demo_run) (rSettleGap demo_run) (dbTransactions demo_captured) demo_captured)) = None"
    by code_simp
  then obtain n d' where "settle 200 (rSettle demo_run) (rSettleGap demo_run) (dbTransactions demo_captured) demo_captured
      = ((n, None), d')" by (metis prod.collapse)
  ultimately show ?thesis using Run_quiet [OF q(1) r(1)] r(2) q(2) demo_write_ok
    by (auto simp: reconcile_job_def exit_code_def write_result_def Report_OK_def)
qed

definition demo_drivers :: "(server, unit) drivers" where
  "demo_drivers = \<lparr> drPostgres = (\<lambda>url. Inr ()), drRedis = (\<lambda>url. Inr keyspace_redis),
     drAES = (\<lambda>key. Inr ()), drGCM = (\<lambda>block. Inr demo_aead) \<rparr>"

lemma demo_task:
  "worker_start demo_parsers demo_environ demo_drivers demo_codec (\<lambda>_. Inr 0) 0 ''reconcile'' []
     = Inr (Reconcile 200 0)"
proof -
  obtain cfg where cfg: "Load demo_parsers demo_environ = Inr cfg" "length (cfSecretEncKey cfg) = 32"
    "cfPlatformFeeBPS cfg = 200" using demo_cfg by metis
  then show ?thesis by (simp add: worker_start_def app_New_def demo_drivers_def NewCipher_def)
qed

theorem clean_exit_settles_witness:
  "\<exists>r'. row_of ''t1'' (snd (reconcile_job 200 demo_run 0 demo_captured)) = Some r'
     \<and> (tStatus r' = StatusSettled \<or> tStatus r' = StatusRefunded)"
proof -
  have "map_option (\<lambda>r. captured_between (day_from 0) (day_to 0) r \<and> tStatus r = StatusCaptured)
      (row_of ''t1'' demo_captured) = Some True" by code_simp
  then obtain r where r: "row_of ''t1'' demo_captured = Some r" "captured_between (day_from 0) (day_to 0) r"
    "tStatus r = StatusCaptured" by auto
  have gaps: "run_gaps_ok 200 demo_run" by (simp add: run_gaps_ok_def demo_run_def)
  have run: "worker_run demo_hmac demo_run (worker_start demo_parsers demo_environ demo_drivers demo_codec (\<lambda>_. Inr 0) 0
      ''reconcile'' []) demo_captured (fst (reconcile_job 200 demo_run 0 demo_captured))
      (snd (reconcile_job 200 demo_run 0 demo_captured))"
    unfolding demo_task by (rule worker_run.reconciled) simp
  from clean_exit_settles [OF demo_task demo_start_ok rtranclp_trans [OF demo_authorized_run demo_captured_run]
      gaps run demo_clean_exit r] show ?thesis .
qed

end
