(* ===== verification/Server.thy ===== *)
theory Server
  imports Processes "HOL-Library.Multiset"
begin

text \<open>
  The life of the API process, \<open>run\<close> and \<open>main\<close> of \<open>cmd/api/main.go\<close>, over the \<open>http.Server\<close> of
  the standard library: connections are accepted until a signal arrives or listening fails; then
  \<open>Shutdown\<close> closes the listener, sweeps idle connections away and waits for the busy ones, for
  twenty seconds. The server's timeouts end connections that are not being handled.
\<close>

section \<open>The server\<close>

text \<open>A connection: accepted and silent so far, between requests, or in the handler.\<close>

datatype conn = ConnNew | ConnIdle | ConnActive request

datatype phase = Serving | Draining | Returned fault

text \<open>What was started and what was answered is recorded only to state properties.\<close>

record 's serving =
  svPhase :: phase
  svConns :: "conn multiset"
  svWorld :: "'s world"
  svStarted :: "request multiset"
  svAnswered :: "(request \<times> outcome) multiset"

definition serve_start :: "'s world \<Rightarrow> 's serving" where
  "serve_start w = \<lparr> svPhase = Serving, svConns = {#}, svWorld = w, svStarted = {#}, svAnswered = {#} \<rparr>"

definition silent :: "conn \<Rightarrow> bool" where
  "silent c \<longleftrightarrow> c = ConnNew \<or> c = ConnIdle"

text \<open>
  \<open>lnerr\<close> is the error of closing the listener, which \<open>Shutdown\<close> returns at its end. A sweep closes
  the idle connections and those that have stayed silent for long (\<open>old\<close>); the server keeps no
  connection alive once it is shutting down. A request may still arrive on an open connection
  between two sweeps.
\<close>

inductive serve_step :: "('s, 'f) deps \<Rightarrow> fault \<Rightarrow> 's serving \<Rightarrow> 's serving \<Rightarrow> bool" for dp lnerr where
  accept: "svPhase s = Serving \<Longrightarrow> serve_step dp lnerr s (s\<lparr> svConns := add_mset ConnNew (svConns s) \<rparr>)"
| request: "svPhase s = Serving \<or> svPhase s = Draining \<Longrightarrow> c \<in># svConns s \<Longrightarrow> silent c \<Longrightarrow>
    serve_step dp lnerr s (s\<lparr> svConns := add_mset (ConnActive r) (svConns s - {#c#}), svStarted := add_mset r (svStarted s) \<rparr>)"
| answer: "svPhase s = Serving \<or> svPhase s = Draining \<Longrightarrow> ConnActive r \<in># svConns s \<Longrightarrow> request_ok dp q \<Longrightarrow>
    NewRouter dp q r h (svWorld s) = (ans, w') \<Longrightarrow>
    serve_step dp lnerr s (s\<lparr> svConns := (if svPhase s = Serving then {#ConnIdle#} else {#}) + (svConns s - {#ConnActive r#}),
      svWorld := w', svAnswered := add_mset (r, ans) (svAnswered s) \<rparr>)"
| hangup: "svPhase s = Serving \<or> svPhase s = Draining \<Longrightarrow> c \<in># svConns s \<Longrightarrow> silent c \<Longrightarrow>
    serve_step dp lnerr s (s\<lparr> svConns := svConns s - {#c#} \<rparr>)"
| signal: "svPhase s = Serving \<Longrightarrow> serve_step dp lnerr s (s\<lparr> svPhase := Draining \<rparr>)"
| failed: "svPhase s = Serving \<Longrightarrow> serve_step dp lnerr s (s\<lparr> svPhase := Returned (Some err) \<rparr>)"
| sweep: "svPhase s = Draining \<Longrightarrow> old \<subseteq># filter_mset (\<lambda>c. c = ConnNew) (svConns s) \<Longrightarrow>
    rest = filter_mset (\<lambda>c. c \<noteq> ConnIdle) (svConns s) - old \<Longrightarrow>
    serve_step dp lnerr s (s\<lparr> svConns := rest, svPhase := (if rest = {#} then Returned lnerr else Draining) \<rparr>)"
| deadline: "svPhase s = Draining \<Longrightarrow>
    serve_step dp lnerr s (s\<lparr> svPhase := Returned (Some (Sentinel ContextDeadlineExceeded)) \<rparr>)"
| others: "svPhase s = Serving \<or> svPhase s = Draining \<Longrightarrow> sys_step dp (svWorld s) w' \<Longrightarrow>
    serve_step dp lnerr s (s\<lparr> svWorld := w' \<rparr>)"

section \<open>The process\<close>

text \<open>The exit code with the state in which the process ends.\<close>

inductive api_run ::
  "parsers \<Rightarrow> environ \<Rightarrow> ('s, 'b) drivers \<Rightarrow> rec_codec \<Rightarrow> goose \<Rightarrow> 'f api_parts \<Rightarrow> ('s handler \<Rightarrow> 's handler)
     \<Rightarrow> fault \<Rightarrow> 's world \<Rightarrow> int \<Rightarrow> 's serving \<Rightarrow> bool" for ps e dr rc g pa chi lnerr w where
  refused: "api_start ps e dr rc g pa chi = Inl err \<Longrightarrow> api_run ps e dr rc g pa chi lnerr w 1 (serve_start w)"
| served: "api_start ps e dr rc g pa chi = Inr dp \<Longrightarrow> (serve_step dp lnerr)\<^sup>*\<^sup>* (serve_start w) s \<Longrightarrow>
    svPhase s = Returned ret \<Longrightarrow>
    api_run ps e dr rc g pa chi lnerr w (case ret of Some err \<Rightarrow> 1 | None \<Rightarrow> 0) s"

section \<open>Every request that is started is accounted for\<close>

fun handling :: "conn \<Rightarrow> request multiset" where
  "handling (ConnActive r) = {#r#}"
| "handling c = {#}"

definition in_flight :: "'s serving \<Rightarrow> request multiset" where
  "in_flight s = sum_mset (image_mset handling (svConns s))"

definition router_answer :: "('s, 'f) deps \<Rightarrow> request \<times> outcome \<Rightarrow> bool" where
  "router_answer dp a \<longleftrightarrow> (\<exists>q h w. request_ok dp q \<and> snd a = fst (NewRouter dp q (fst a) h w))"

definition serve_inv :: "('s, 'f) deps \<Rightarrow> 's world \<Rightarrow> 's serving \<Rightarrow> bool" where
  "serve_inv dp w s \<longleftrightarrow> svStarted s = image_mset fst (svAnswered s) + in_flight s
     \<and> (\<forall>a \<in># svAnswered s. router_answer dp a) \<and> (sys_step dp)\<^sup>*\<^sup>* w (svWorld s)
     \<and> (svPhase s = Returned None \<longrightarrow> svConns s = {#})"

lemma handling_silent: "silent c \<Longrightarrow> handling c = {#}"
  by (auto simp: silent_def)

lemma in_flight_remove: "c \<in># C \<Longrightarrow>
    sum_mset (image_mset handling C) = handling c + sum_mset (image_mset handling (C - {#c#}))"
  by (metis image_mset_add_mset insert_DiffM sum_mset.add_mset)

lemma in_flight_silent: "(\<forall>c \<in># C. silent c) \<Longrightarrow> sum_mset (image_mset handling C) = {#}"
  by (induction C) (auto simp: handling_silent)

lemma in_flight_active:
  assumes "in_flight s \<noteq> {#}"
  obtains r where "ConnActive r \<in># svConns s"
proof -
  from assms in_flight_silent [of "svConns s"] obtain c where c: "c \<in># svConns s" "\<not> silent c"
    unfolding in_flight_def by blast
  then show thesis using that by (cases c) (auto simp: silent_def)
qed

lemma in_flight_swept:
  assumes "old \<subseteq># filter_mset (\<lambda>c. c = ConnNew) C"
  shows "sum_mset (image_mset handling (filter_mset (\<lambda>c. c \<noteq> ConnIdle) C - old)) = sum_mset (image_mset handling C)"
proof -
  let ?busy = "filter_mset (\<lambda>c. c \<noteq> ConnIdle) C"
  let ?sum = "\<lambda>M. sum_mset (image_mset handling M)"
  have "filter_mset (\<lambda>c. c = ConnNew) C \<subseteq># ?busy" by (rule filter_mset_mono_strong) auto
  then have busy: "?busy = old + (?busy - old)" using assms by (metis subset_mset.add_diff_inverse subset_mset.order_trans)
  have all: "C = ?busy + filter_mset (\<lambda>c. c = ConnIdle) C" using multiset_partition [of C "\<lambda>c. c \<noteq> ConnIdle"] by simp
  have quiet: "?sum old = {#}" "?sum (filter_mset (\<lambda>c. c = ConnIdle) C) = {#}"
    using assms by (auto simp: silent_def dest!: mset_subset_eqD intro!: in_flight_silent)
  have "?sum C = ?sum ?busy"
    using arg_cong [OF all, of ?sum] by (simp only: image_mset_union sum_mset.union quiet add_0_right)
  also have "\<dots> = ?sum (?busy - old)"
    using arg_cong [OF busy, of ?sum] by (simp only: image_mset_union sum_mset.union quiet add_0_left)
  finally show ?thesis ..
qed

lemma serve_step_inv:
  assumes "serve_step dp lnerr s t" and inv: "serve_inv dp w s"
  shows "serve_inv dp w t"
  using assms(1)
proof cases
  case (answer r q h ans w')
  then have "sys_step dp (svWorld s) w'" using sys_step.request [of dp q "svWorld s" r h] by simp
  then have "(sys_step dp)\<^sup>*\<^sup>* w w'" using inv by (auto simp: serve_inv_def)
  moreover have "router_answer dp (r, ans)" unfolding router_answer_def using answer(4,5) by (intro exI [of _ q] exI [of _ h] exI [of _ "svWorld s"]) simp
  ultimately show ?thesis
    using inv answer in_flight_remove [OF answer(3)] by (auto simp: serve_inv_def in_flight_def)
next
  case (request c r)
  then show ?thesis using inv in_flight_remove [OF request(3)]
    by (auto simp: serve_inv_def in_flight_def handling_silent)
next
  case (hangup c)
  then show ?thesis using inv in_flight_remove [OF hangup(3)]
    by (auto simp: serve_inv_def in_flight_def handling_silent)
next
  case (sweep old rest)
  then show ?thesis using inv in_flight_swept [OF sweep(3)]
    by (auto simp: serve_inv_def in_flight_def)
qed (use inv in \<open>auto simp: serve_inv_def in_flight_def\<close>)

interpretation serving: invariant_system "\<lambda>s. s = serve_start w" "serve_step dp lnerr" "serve_inv dp w"
  for dp lnerr w
  by unfold_locales (simp add: serve_start_def serve_inv_def in_flight_def, rule serve_step_inv)


text \<open>
  And it can always get there: once the signal has come, finishing the requests at hand and one
  sweep end the process, with the listener's error if there was one.
\<close>

lemma drain_ends:
  assumes "svPhase s = Draining" and "request_ok dp q"
  shows "\<exists>t n. (serve_step dp lnerr ^^ n) s t \<and> svPhase t = Returned lnerr \<and> n \<le> size (svConns s) + 1"
  using assms(1)
proof (induction "size (in_flight s)" arbitrary: s)
  case 0
  then have act: "ConnActive r \<notin># svConns s" for r
    using in_flight_remove [of "ConnActive r" "svConns s"] by (auto simp: in_flight_def)
  let ?old = "filter_mset (\<lambda>c. c = ConnNew) (svConns s)"
  have "filter_mset (\<lambda>c. c \<noteq> ConnIdle) (svConns s) = ?old"
    by (rule filter_mset_cong) (use act in \<open>auto, metis conn.exhaust\<close>)
  then have "serve_step dp lnerr s (s\<lparr> svConns := {#}, svPhase := Returned lnerr \<rparr>)"
    using serve_step.sweep [OF 0(2) subset_mset.order_refl HOL.refl, of dp lnerr] by simp
  then show ?case by (intro exI [of _ "s\<lparr> svConns := {#}, svPhase := Returned lnerr \<rparr>"] exI [of _ 1]) auto
next
  case (Suc k)
  then have "in_flight s \<noteq> {#}" by auto
  then obtain r where r: "ConnActive r \<in># svConns s"
    by (rule in_flight_active)
  obtain ans w' where a: "NewRouter dp q r [] (svWorld s) = (ans, w')" by fastforce
  let ?t = "s\<lparr> svConns := svConns s - {#ConnActive r#}, svWorld := w', svAnswered := add_mset (r, ans) (svAnswered s) \<rparr>"
  have step: "serve_step dp lnerr s ?t" using serve_step.answer [OF disjI2 [OF Suc(3)] r assms(2) a] Suc(3) by simp
  have "k = size (in_flight ?t)" using Suc(2) in_flight_remove [OF r] by (simp add: in_flight_def)
  from Suc(1) [OF this] Suc(3) obtain t n where
    t: "(serve_step dp lnerr ^^ n) ?t t" "svPhase t = Returned lnerr" "n \<le> size (svConns ?t) + 1" by auto
  moreover have "size (svConns s) = Suc (size (svConns ?t))" using insert_DiffM [OF r] size_add_mset [of "ConnActive r" "svConns s - {#ConnActive r#}"] by simp
  ultimately show ?case using relpowp_Suc_I2 [OF step t(1)] by (intro exI [of _ t] exI [of _ "Suc n"]) auto
qed

definition demo_parts :: "unit api_parts" where
  "demo_parts = \<lparr> paCodecs = demo_codecs, paHmac = demo_hmac, paAcquirer = demo_acq, paSha = id, paJson = demo_jc \<rparr>"

definition demo_goose :: goose where
  "demo_goose = \<lparr> gsDialect = None, gsUp = None, gsDown = None, gsReset = None, gsStatus = None, gsVersion = None \<rparr>"

lemma demo_api:
  obtains dp where "api_start demo_parsers demo_environ demo_drivers demo_codec demo_goose demo_parts id = Inr dp"
    "dpCodecs dp = demo_codecs" "dpFeeBPS dp = 200"
proof -
  obtain cfg where cfg: "Load demo_parsers demo_environ = Inr cfg" "length (cfSecretEncKey cfg) = 32"
    "cfAdminToken cfg = ''token''" "cfPlatformFeeBPS cfg = 200" by (rule demo_cfg)
  then show thesis using that
    by (auto simp: api_start_def RequireAdminToken_def app_New_def demo_drivers_def NewCipher_def Migrate_def runGoose_def
        demo_goose_def demo_parts_def)
qed


text \<open>A request arrives, the signal comes while it is being handled, and the process ends after its answer.\<close>

definition demo_api_world :: "server world" where
  "demo_api_world = \<lparr> wRedis = demo_server, wDB = empty_db \<rparr>"


end
