(* ===== verification/Seed.thy ===== *)
theory Seed
  imports Processes
begin

text \<open>
  The end of \<open>cmd/seed/main.go\<close>: the summary with the credentials and a request signed with them,
  and the command as a whole. The request printed is one that the API accepts, for as long as its
  clock allows, whatever other processes have done meanwhile.
\<close>

section \<open>Durations as text\<close>

text \<open>\<open>Duration.Round\<close>: to the nearest multiple, halves away from zero, saturating.\<close>

definition duration_Round :: "duration \<Rightarrow> duration \<Rightarrow> duration" where
  "duration_Round d m =
     (if m \<le> 0 then d
      else let r = \<bar>d\<bar> mod m
           in if d < 0 then (if r + r < m then d + r else max minDuration (d - m + r))
              else (if r + r < m then d - r else min maxDuration (d + m - r)))"

text \<open>A fraction of so many digits, without the zeros at its end.\<close>

definition fraction_text :: "nat \<Rightarrow> nat \<Rightarrow> string" where
  "fraction_text v digits =
     (let ds = show_nat (v mod 10 ^ digits);
          f = rev (dropWhile (\<lambda>c. c = CHR ''0'') (rev (replicate (digits - length ds) (CHR ''0'') @ ds)))
      in if digits = 0 \<or> f = [] then [] else CHR ''.'' # f)"

definition duration_String :: "duration \<Rightarrow> string" where
  "duration_String d =
     (let u = nat \<bar>d\<bar>; sg = (if d < 0 then ''-'' else [])
      in if u = 0 then ''0s''
         else if u < 1000 then sg @ show_nat u @ ''ns''
         else if u < 1000000 then sg @ show_nat (u div 1000) @ fraction_text u 3 @ [char_of (0xC2 :: nat), char_of (0xB5 :: nat), CHR ''s'']
         else if u < 1000000000 then sg @ show_nat (u div 1000000) @ fraction_text u 6 @ ''ms''
         else (let s = u div 1000000000; m = s div 60; h = m div 60
               in sg @ (if h = 0 then [] else show_nat h @ ''h'') @ (if m = 0 then [] else show_nat (m mod 60) @ ''m'')
                  @ show_nat (s mod 60) @ fraction_text u 9 @ ''s''))"

lemma duration_String_examples:
  "duration_String (duration_Round 1234567890 Millisecond) = ''1.235s''"
  "duration_String (duration_Round 3723000400000 Millisecond) = ''1h2m3s''"
  "duration_String 15000000 = ''15ms''" "duration_String 0 = ''0s''"
  by (simp_all add: duration_String_def duration_Round_def fraction_text_def show_nat.simps Let_def
      char_of_def bit_0 maxDuration_def)

section \<open>The summary\<close>

definition nl :: string where "nl = [char_of (10 :: nat)]"
definition quote :: string where "quote = [char_of (34 :: nat)]"
definition backslash :: string where "backslash = [char_of (92 :: nat)]"

text \<open>The request of the example: its signature is made when the summary is printed.\<close>

definition summary_request :: "keyed_hash \<Rightarrow> CreatedMerchant \<Rightarrow> time \<Rightarrow> SignedRequest" where
  "summary_request hmac created now =
     sign_request hmac (mAPIKey (cmMerchant created)) (cmAPISecret created) (show_int (unix_seconds now))
       ''GET'' ''/api/v1/merchants/me'' []"

definition curl_header :: "string \<Rightarrow> string \<Rightarrow> string" where
  "curl_header name v = ''      -H '' @ quote @ name @ '': '' @ v @ quote"

definition curl_command :: "SignedRequest \<Rightarrow> string" where
  "curl_command req =
     ''    curl -s http://localhost:8080'' @ rqPath req @ '' '' @ backslash @ nl
     @ curl_header ''X-Api-Key'' (rqAPIKey req) @ '' '' @ backslash @ nl
     @ curl_header ''X-Timestamp'' (rqTimestamp req) @ '' '' @ backslash @ nl
     @ curl_header ''X-Signature'' (rqSignature req) @ nl"

definition printSummary ::
  "keyed_hash \<Rightarrow> CreatedMerchant \<Rightarrow> time \<Rightarrow> seed_stats \<Rightarrow> Balance \<Rightarrow> duration \<Rightarrow> string" where
  "printSummary hmac created now stats balance elapsed =
     (let merchant = cmMerchant created; req = summary_request hmac created now
      in nl @ ''================= seed complete ('' @ duration_String (duration_Round elapsed Millisecond)
           @ '') ================='' @ nl @ nl
         @ ''  merchant_id     '' @ mID merchant @ nl
         @ ''  api_key         '' @ mAPIKey merchant @ nl
         @ ''  api_secret      '' @ cmAPISecret created @ nl
         @ ''  webhook_secret  '' @ cmWebhookSecret created @ nl
         @ ''  webhook_url     '' @ mWebhookURL merchant @ nl @ nl
         @ ''  authorized '' @ show_int (ssAuthorized stats) @ ''   captured '' @ show_int (ssCaptured stats)
           @ ''   refunded '' @ show_int (ssRefunded stats) @ ''   voided '' @ show_int (ssVoided stats) @ nl
         @ ''  merchant_payable balance: '' @ Format (Balance_Available balance) (bCurrency balance) @ nl @ nl
         @ ''  The secrets above are shown once. Export them:'' @ nl @ nl
         @ ''    export API_KEY='' @ mAPIKey merchant @ nl
         @ ''    export API_SECRET='' @ cmAPISecret created @ nl @ nl
         @ ''  Try a signed request (the signature below expires in 5 minutes):'' @ nl @ nl
         @ curl_command req @ nl
         @ ''  Or use the helper, which signs for you:'' @ nl @ nl
         @ ''    ./scripts/sign.sh GET '' @ rqPath req @ nl @ nl
         @ ''======================================================'' @ nl @ nl)"

section \<open>The command\<close>

text \<open>What the command prints, or the error it fails with, and its exit code.\<close>

definition seed_command ::
  "parsers \<Rightarrow> environ \<Rightarrow> ('s, 'b) drivers \<Rightarrow> rec_codec \<Rightarrow> keyed_hash \<Rightarrow> (Config \<Rightarrow> acquirer_port) \<Rightarrow> time \<Rightarrow> create_env
     \<Rightarrow> (int \<Rightarrow> seed_env) \<Rightarrow> fault \<Rightarrow> fault \<Rightarrow> time \<Rightarrow> duration \<Rightarrow> db \<Rightarrow> string result \<times> db" where
  "seed_command ps e dr rc hmac fast now c es fb fc printed elapsed d =
     (case andThen (Load ps e) (\<lambda>cfg. andThen (app_New dr rc cfg) (\<lambda>application. Inr (cfg, application))) of
        Inl err \<Rightarrow> (Inl err, d)
      | Inr (cfg, application) \<Rightarrow>
          (case seed_run (apCipher application) (apFeeBPS application) (fast cfg) e now c es fb fc d of
             (Inl err, d) \<Rightarrow> (Inl err, d)
           | (Inr (created, stats, balance), d) \<Rightarrow>
               (Inr (printSummary hmac created printed stats balance elapsed), d)))"

definition seed_exit :: "string result \<times> db \<Rightarrow> int" where
  "seed_exit r = (case fst r of Inl err \<Rightarrow> 1 | Inr text \<Rightarrow> 0)"

section \<open>Credentials last\<close>

definition same_credentials :: "merchant \<Rightarrow> merchant \<Rightarrow> bool" where
  "same_credentials m m' \<longleftrightarrow> mID m' = mID m \<and> mAPIKey m' = mAPIKey m \<and> mAPISecretEnc m' = mAPISecretEnc m
     \<and> mStatus m' = mStatus m"

definition registered :: "merchant \<Rightarrow> db \<Rightarrow> bool" where
  "registered m d \<longleftrightarrow> (\<exists>m'. GetByAPIKey None (mAPIKey m) d = Inr m' \<and> same_credentials m m')"

lemma registered_same: "dbMerchants d' = dbMerchants d \<Longrightarrow> registered m d \<Longrightarrow> registered m d'"
  by (simp add: registered_def GetByAPIKey_def)

lemma registered_created:
  assumes "MerchantRepo_Create f n d = Inr d'" and "registered m d"
  shows "registered m d'"
proof -
  have "find P xs = Some x \<Longrightarrow> find P (xs @ ys) = Some x" for P xs ys and x :: merchant
    by (induction xs) auto
  then show ?thesis using assms
    by (auto simp: registered_def GetByAPIKey_def scanMerchant_def MerchantRepo_Create_Inr split: option.splits)
qed

lemma registered_callback:
  assumes "UpdateWebhook f now i url d = Inr d'" and "registered m d"
  shows "registered m d'"
proof -
  let ?g = "\<lambda>m. if mID m = i then m\<lparr> mWebhookURL := url, mUpdatedAt := now \<rparr> else m"
  have found: "find (\<lambda>x. mAPIKey x = k) (map ?g xs) = map_option ?g (find (\<lambda>x. mAPIKey x = k) xs)" for k xs
    by (induction xs) auto
  from assms(2) obtain m' where "find (\<lambda>x. mAPIKey x = mAPIKey m) (dbMerchants d) = Some m'" "same_credentials m m'"
    by (auto simp: registered_def GetByAPIKey_def scanMerchant_def split: option.splits)
  moreover from assms(1) have "dbMerchants d' = map ?g (dbMerchants d)"
    by (auto simp: UpdateWebhook_def split: option.splits if_splits)
  ultimately have "find (\<lambda>x. mAPIKey x = mAPIKey m) (dbMerchants d') = Some (?g m')" "same_credentials m (?g m')"
    using found [of "mAPIKey m" "dbMerchants d"] by (auto simp: same_credentials_def)
  then show ?thesis by (auto simp: registered_def GetByAPIKey_def scanMerchant_def)
qed

lemma gw_step_merchants:
  assumes "gw_step fee d d'" and inv: "gw_inv fee d" and "registered m d"
  shows "registered m d'"
  using assms(1)
proof cases
  case (merchant f n)
  then show ?thesis using registered_created assms(3) by blast
next
  case (callback f now i url)
  then show ?thesis using registered_callback assms(3) by blast
next
  case (create i m r a c md now t f)
  then have "dbMerchants d' = dbMerchants d"
    by (auto simp: TransactionRepo_Create_def split: option.splits if_splits)
  then show ?thesis using registered_same assms(3) by blast
next
  case (authorize x i res t')
  from authorize_commit [OF gw_invD(1) [OF inv] authorize] show ?thesis
    using registered_same assms(3) by (auto simp: row_commit_def)
next
  case (failed x i code v)
  from fail_commit [OF gw_invD(1) [OF inv] failed] show ?thesis
    using registered_same assms(3) by (auto simp: row_commit_def)
next
  case (capture x m i amount t')
  from capture_commit [OF gw_invD(1) [OF inv] capture] show ?thesis
    using registered_same assms(3) by (auto simp: row_commit_def)
next
  case (refund x m i amount t')
  from refund_commit [OF gw_invD(1) [OF inv] refund] show ?thesis
    using registered_same assms(3) by (auto simp: row_commit_def)
next
  case (void x m i t')
  from void_commit [OF gw_invD(1) [OF inv] void] show ?thesis
    using registered_same assms(3) by (auto simp: row_commit_def)
next
  case (settle x i v)
  from settle_commit [OF gw_invD(1) [OF inv] settle] show ?thesis
    using registered_same assms(3) by (auto simp: row_commit_def)
next
  case (claim f dbnow locked limit now ws)
  then have "dbMerchants d' = dbMerchants d" by (auto simp: ClaimDue_def Let_def split: option.splits if_splits)
  then show ?thesis using registered_same assms(3) by blast
next
  case (attempt f dbnow w)
  then have "dbMerchants d' = dbMerchants d" by (auto simp: UpdateAttempt_def split: option.splits if_splits)
  then show ?thesis using registered_same assms(3) by blast
next
  case (release f dbnow age now n)
  then have "dbMerchants d' = dbMerchants d" by (auto simp: ReleaseStale_def split: option.splits)
  then show ?thesis using registered_same assms(3) by blast
qed

lemma gw_run_merchants:
  assumes "(gw_step fee)\<^sup>*\<^sup>* d d'" and "gw_inv fee d" and "registered m d"
  shows "registered m d'"
proof -
  have "gw_inv fee d' \<and> registered m d'"
    using assms(1)
  proof (induction rule: rtranclp_induct)
    case (step y z)
    then show ?case using gw_step_inv gw_step_merchants by blast
  qed (use assms in simp)
  then show ?thesis ..
qed

section \<open>The printed request\<close>

lemma parse_printed_time:
  assumes "0 \<le> t" and "unix_seconds t < 2 ^ 62"
  shows "parseUnixSeconds (show_int (unix_seconds t)) = Some (unix_seconds t * Second)"
proof -
  have "0 \<le> unix_seconds t" using assms(1) by (simp add: unix_seconds_def Second_def)
  then show ?thesis using assms(2)
    by (simp add: parseUnixSeconds_def ParseInt_show_int in64_def time_Unix_def wrap64_def unixToInternal_def)
qed

lemma seed_run_registers:
  assumes "seed_run A fee acq e now c es fb fc d = (Inr (created, stats, balance), d')"
    and "gw_inv fee d" and "seed_gaps_ok fee es"
  shows "registered (cmMerchant created) d' \<and> (\<exists>inp d1. MerchantService_Create A c inp d = Inr (created, d1))"
proof -
  from assms(1) obtain inp d1 "is" st where cr: "MerchantService_Create A c inp d = Inr (created, d1)"
    and d': "d' = snd (seed_loop fee acq (mID (cmMerchant created)) es is st d1)"
    by (auto simp: seed_run_def Let_def andThen_Inr case_prod_beta split: option.splits if_splits sum.splits)
  have "gw_inv fee d1" using gw_step_inv [OF gw_step.merchant [OF Create_Inr(5) [OF cr]] assms(2)] .
  moreover have "registered (cmMerchant created) d1"
    using found_after_create(1) [OF Create_Inr(5) [OF cr]] by (auto simp: registered_def same_credentials_def)
  ultimately show ?thesis using gw_run_merchants [OF seed_loop_steps [OF assms(3)]] cr d' by blast
qed

lemma sublist_later: "sublist xs zs \<Longrightarrow> sublist xs (ys @ zs)"
  by (simp add: sublist_append)

lemma summary_shows:
  "sublist (''  merchant_id     '' @ mID (cmMerchant created) @ nl) (printSummary hmac created now st b el)"
  "sublist (curl_command (summary_request hmac created now)) (printSummary hmac created now st b el)"
proof -
  have here: "sublist (xs @ ys @ zs) (xs @ ys @ zs @ r)" for xs ys zs r :: string
    by (metis append_assoc sublist_append_rightI)
  show "sublist (''  merchant_id     '' @ mID (cmMerchant created) @ nl) (printSummary hmac created now st b el)"
    unfolding printSummary_def Let_def by (rule here | rule sublist_later)+
  show "sublist (curl_command (summary_request hmac created now)) (printSummary hmac created now st b el)"
    unfolding printSummary_def Let_def by (rule sublist_append_rightI | rule sublist_later)+
qed

text \<open>
  C25. The example the seed prints works. When the command succeeds on a database the gateway has
  reached, it prints the identifier of a merchant and a \<open>curl\<close> command with three headers, and the
  request of that command is accepted by the API, as a request of this merchant, exactly while the
  server's clock is within the allowed skew of the time of printing, or centuries before it, and
  whatever payments, jobs and registrations have happened since.
\<close>

theorem seed_example_authenticates:
  assumes conf: "Load ps e = Inr cfg" "app_New dr rc cfg = Inr application"
    and crypto: "aead_correct (apCipher application)" "fills (ceNonce1 c)" "hash_size hmac"
    and reach: "gw_start d0" "(gw_step (apFeeBPS application))\<^sup>*\<^sup>* d0 d" "seed_gaps_ok (apFeeBPS application) es"
    and cmd: "seed_command ps e dr rc hmac fast now c es fb fc printed elapsed d = (Inr out, d')"
    and later: "(gw_step (apFeeBPS application))\<^sup>*\<^sup>* d' d2"
    and clock: "0 \<le> printed" "unix_seconds printed < 2 ^ 62" "0 \<le> skew" "skew < maxDuration"
  shows "\<exists>m req. sublist (''  merchant_id     '' @ mID m @ nl) out \<and> sublist (curl_command req) out
     \<and> rqMethod req = ''GET'' \<and> rqPath req = ''/api/v1/merchants/me'' \<and> rqBody req = []
     \<and> (\<forall>now'. Authenticate hmac (apCipher application) skew None now' req d2 = Inr m \<longleftrightarrow>
          \<bar>now' - unix_seconds printed * Second\<bar> \<le> skew \<or> 2 ^ 63 \<le> unix_seconds printed * Second - now')"
proof -
  let ?A = "apCipher application"
  have inv: "gw_inv (apFeeBPS application) d" by (rule gateway.reachable_inv [OF reach(1,2)])
  from cmd obtain created stats balance where
    run: "seed_run ?A (apFeeBPS application) (fast cfg) e now c es fb fc d = (Inr (created, stats, balance), d')"
    and out: "out = printSummary hmac created printed stats balance elapsed"
    by (auto simp: seed_command_def conf split: prod.splits sum.splits)
  from seed_run_registers [OF run inv reach(3)] obtain inp d1 where
    reg: "registered (cmMerchant created) d'" and cr: "MerchantService_Create ?A c inp d = Inr (created, d1)" by blast
  have "gw_inv (apFeeBPS application) d'"
    using gateway.reachable_inv [OF reach(1) rtranclp_trans [OF reach(2) seed_run_steps [OF reach(3)]]] run by (metis snd_conv)
  from gw_run_merchants [OF later this reg] obtain m where
    m: "GetByAPIKey None (mAPIKey (cmMerchant created)) d2 = Inr m" "same_credentials (cmMerchant created) m"
    by (auto simp: registered_def)
  note c = Create_Inr [OF cr]
  have dec: "Decrypt ?A (mAPISecretEnc m) = Inr (cmAPISecret created)"
    using Decrypt_Encrypt [OF crypto(1,2) c(2)] m(2) by (simp add: same_credentials_def)
  have active: "IsActive m" using c(4) m(2) by (simp add: same_credentials_def IsActive_def)
  have ts: "parseUnixSeconds (show_int (unix_seconds printed)) = Some (unix_seconds printed * Second)"
    by (rule parse_printed_time [OF clock(1,2)])
  then have "show_int (unix_seconds printed) \<noteq> []" by (auto simp: parseUnixSeconds_def ParseInt_def parse_nat_def)
  then have "Authenticate hmac ?A skew None now' (summary_request hmac created printed) d2 = Inr m \<longleftrightarrow>
      \<bar>now' - unix_seconds printed * Second\<bar> \<le> skew \<or> 2 ^ 63 \<le> unix_seconds printed * Second - now'" for now'
    using APIKey_nonempty [OF c(1)] m(1) active dec ts signature_nonempty [OF crypto(3)] abs_drift_le_iff [OF clock(3,4)]
    by (simp add: Authenticate_Inr summary_request_def)
  moreover have "rqMethod (summary_request hmac created printed) = ''GET''"
    "rqPath (summary_request hmac created printed) = ''/api/v1/merchants/me''"
    "rqBody (summary_request hmac created printed) = []" by (simp_all add: summary_request_def)
  moreover have "mID (cmMerchant created) = mID m" using m(2) by (simp add: same_credentials_def)
  ultimately show ?thesis
    unfolding out using summary_shows(1) [of created hmac printed stats balance elapsed] summary_shows(2) [of hmac created printed stats balance elapsed]
    by (intro exI [of _ m] exI [of _ "summary_request hmac created printed"]) simp
qed

definition demo_seed_env :: "int \<Rightarrow> seed_env" where
  "demo_seed_env i = \<lparr> seAuth = demo_auth, seTxAuth = demo_tx ''1'' 10, sePre = demo_pre 11,
     seTx = demo_tx ''2'' 12, sePreRefund = demo_pre 13, seTxRefund = demo_tx ''3'' 14 \<rparr>"

lemma demo_gaps: "seed_gaps_ok 200 demo_seed_env"
  by (simp add: seed_gaps_ok_def demo_seed_env_def auth_gaps_ok_def demo_auth_def demo_pre_def)

lemma demo_seed_balance:
  assumes "dbMerchants d = [m]" and "mID m = ''m9''" and "d = empty_db\<lparr> dbMerchants := [m] \<rparr>"
  shows "\<exists>b. LedgerService_Balance None ''m9'' VND (snd (seed_loop 200 demo_acq ''m9'' demo_seed_env [1..1] st d)) = Inr b"
    and "CheckInvariant None (snd (seed_loop 200 demo_acq ''m9'' demo_seed_env [1..1] st d)) = Inr []"
proof -
  have "case LedgerService_Balance None ''m9'' VND (snd (seed_loop 200 demo_acq ''m9'' demo_seed_env [1..1] st
      (empty_db\<lparr> dbMerchants := [\<lparr> mID = ''m9'', mName = a1, mEmail = a2, mAPIKey = a3, mAPISecretEnc = a4,
        mWebhookURL = a5, mWebhookSecretEnc = a6, mStatus = a7, mCreatedAt = a8, mUpdatedAt = a9 \<rparr>] \<rparr>))) of
      Inr b \<Rightarrow> True | Inl err \<Rightarrow> False"
    for a1 a2 a3 a4 a5 a6 a7 a8 a9 by code_simp
  then show "\<exists>b. LedgerService_Balance None ''m9'' VND (snd (seed_loop 200 demo_acq ''m9'' demo_seed_env [1..1] st d)) = Inr b"
    using assms(2,3) by (cases m) (fastforce split: sum.splits)
next
  have "gw_start empty_db" by (simp add: gw_start_def empty_db_def)
  moreover have "gw_step 200 empty_db d"
    using gw_step.merchant [of None m empty_db d 200] assms(3) by (simp add: MerchantRepo_Create_Inr empty_db_def)
  ultimately have "gw_inv 200 (snd (seed_loop 200 demo_acq ''m9'' demo_seed_env [1..1] st d))"
    using gateway.reachable_inv converse_rtranclp_into_rtranclp seed_loop_steps [OF demo_gaps] by metis
  then show "CheckInvariant None (snd (seed_loop 200 demo_acq ''m9'' demo_seed_env [1..1] st d)) = Inr []"
    using FindUnbalancedGroups_Nil gw_invD(6) by (simp add: CheckInvariant_def)
qed


theorem seed_example_authenticates_witness:
  "\<exists>out d2 m req. fst (seed_command demo_parsers demo_environ demo_drivers demo_codec demo_hmac (\<lambda>_. demo_acq) 0 demo_create
        demo_seed_env None None 1700000000000000000 1234567890 empty_db) = Inr out
     \<and> sublist (curl_command req) out
     \<and> Authenticate demo_hmac demo_aead 300000000000 None 1700000060000000000 req d2 = Inr m"
proof -
  let ?inp = "\<lparr> ciName = ''Demo Store'', ciEmail = ''demo+'' @ show_int (0 div Second) @ ''@example.com'',
     ciWebhookURL = ''http://api:8080/internal/webhook-receiver'' \<rparr>"
  let ?st = "\<lparr> ssAuthorized = 0, ssCaptured = 0, ssRefunded = 0, ssVoided = 0 \<rparr>"
  obtain cfg where cfg: "Load demo_parsers demo_environ = Inr cfg" "cfPlatformFeeBPS cfg = 200"
    "length (cfSecretEncKey cfg) = 32" by (rule demo_cfg)
  then obtain ap where ap: "app_New demo_drivers demo_codec cfg = Inr ap" "apCipher ap = demo_aead" "apFeeBPS ap = 200"
    by (simp add: app_New_def demo_drivers_def NewCipher_def)
  obtain c d1 where c: "MerchantService_Create demo_aead demo_create ?inp empty_db = Inr (c, d1)" "mID (cmMerchant c) = ''m9''"
    using demo_create_ok [of ?inp] by (auto simp: ValidateMerchantInput_Inr hasHTTPScheme_def)
  have d1: "d1 = empty_db\<lparr> dbMerchants := [cmMerchant c] \<rparr>"
    using Create_Inr(5) [OF c(1)] by (simp add: MerchantRepo_Create_Inr empty_db_def)
  obtain st d2 where loop: "seed_loop 200 demo_acq ''m9'' demo_seed_env [1..1] ?st d1 = (st, d2)" by fastforce
  have "dbMerchants d1 = [cmMerchant c]" using d1 by simp
  from demo_seed_balance [OF this c(2) d1, of ?st] loop obtain b where
    b: "LedgerService_Balance None ''m9'' VND d2 = Inr b" "CheckInvariant None d2 = Inr []" by auto
  have "ParseInt ''1'' = Some 1" by (simp add: ParseInt_def parse_nat_def is_digit_def in64_def)
  then have "seed_run demo_aead 200 demo_acq demo_environ 0 demo_create demo_seed_env None None empty_db = (Inr (c, st, b), d2)"
    using c loop b by (simp add: seed_run_def env_def demo_environ_def)
  then have cmd: "seed_command demo_parsers demo_environ demo_drivers demo_codec demo_hmac (\<lambda>_. demo_acq) 0 demo_create
        demo_seed_env None None 1700000000000000000 1234567890 empty_db
      = (Inr (printSummary demo_hmac c 1700000000000000000 st b 1234567890), d2)"
    using cfg ap by (simp add: seed_command_def)
  have start: "gw_start empty_db" by (simp add: gw_start_def empty_db_def)
  note accepted = seed_example_authenticates [OF cfg(1) ap(1) _ demo_envs(1) demo_params(3) start rtranclp.rtrancl_refl _ cmd
      rtranclp.rtrancl_refl _ _ demo_envs(3,4), unfolded ap(2,3), OF demo_params(1) demo_gaps]
  have clock: "unix_seconds 1700000000000000000 * Second = 1700000000000000000"
    by (simp add: unix_seconds_def Second_def)
  from accepted obtain m req where
    req: "sublist (curl_command req) (printSummary demo_hmac c 1700000000000000000 st b 1234567890)"
    and ok: "\<forall>now'. Authenticate demo_hmac demo_aead 300000000000 None now' req d2 = Inr m \<longleftrightarrow>
       \<bar>now' - 1700000000000000000\<bar> \<le> 300000000000 \<or> 2 ^ 63 \<le> 1700000000000000000 - now'"
    unfolding clock by (auto simp: unix_seconds_def Second_def)
  have "Authenticate demo_hmac demo_aead 300000000000 None 1700000060000000000 req d2 = Inr m"
    using ok by (rule allE [of _ 1700000060000000000]) simp
  with req cmd show ?thesis by (intro exI conjI) simp_all
qed

end
