(* ===== verification/Columns.thy ===== *)
theory Columns
  imports Ledger_Repo Webhook_Repo
begin

text \<open>
  The SQL of \<open>internal/repository\<close> column by column: the lists of columns, the numbered
  parameters of the INSERT and UPDATE statements and the destinations of \<open>Scan\<close>, which the
  other theories take together as statements on records. A row is a value for every column of
  its table. The driver sends a time as whole microseconds, which is what the columns keep.
  A text that is no value of its enumeration has no meaning in the model and is refused here;
  the CHECK constraints of the tables admit none.
\<close>

section \<open>Rows, parameters and expressions\<close>

datatype sqlval = SqlNull | SqlUuid uuid | SqlText string | SqlInt int | SqlTime int | SqlJson string

type_synonym sqlrow = "string \<Rightarrow> sqlval"

text \<open>The expressions of the statements: \<open>$k\<close>, \<open>NULLIF($k, '')\<close>, a column, \<open>COALESCE(c, '')\<close>, \<open>c + 1\<close>, \<open>now()\<close>.\<close>

datatype sqlexpr = Param nat | NullifParam nat | Col string | Coalesce string | Increment string | Now

definition sql_param :: "sqlval list \<Rightarrow> nat \<Rightarrow> sqlval" where
  "sql_param args k = (if 0 < k \<and> k \<le> length args then args ! (k - 1) else SqlNull)"

fun sql_eval :: "int \<Rightarrow> sqlval list \<Rightarrow> sqlrow \<Rightarrow> sqlexpr \<Rightarrow> sqlval" where
  "sql_eval now args row (Param k) = sql_param args k"
| "sql_eval now args row (NullifParam k) =
     (if sql_param args k = SqlText [] then SqlNull else sql_param args k)"
| "sql_eval now args row (Col c) = row c"
| "sql_eval now args row (Coalesce c) = (if row c = SqlNull then SqlText [] else row c)"
| "sql_eval now args row (Increment c) = (case row c of SqlInt n \<Rightarrow> SqlInt (n + 1) | _ \<Rightarrow> SqlNull)"
| "sql_eval now args row Now = SqlTime now"

text \<open>An INSERT sets the listed columns of a row of defaults, an UPDATE those of its SET clause.\<close>

definition sql_set :: "int \<Rightarrow> sqlval list \<Rightarrow> (string \<times> sqlexpr) list \<Rightarrow> sqlrow \<Rightarrow> sqlrow" where
  "sql_set now args sets row = fold (\<lambda>(c, e) r. r(c := sql_eval now args row e)) sets row"

definition sql_insert :: "sqlval list \<Rightarrow> string list \<Rightarrow> sqlexpr list \<Rightarrow> sqlrow \<Rightarrow> sqlrow" where
  "sql_insert args cols es = sql_set 0 args (zip cols es)"

definition sql_select :: "sqlexpr list \<Rightarrow> sqlrow \<Rightarrow> sqlval list" where
  "sql_select es row = map (sql_eval 0 [] row) es"

section \<open>Values in and out\<close>

definition enc_time :: "time \<Rightarrow> sqlval" where
  "enc_time t = SqlTime (t div 1000)"

definition enc_time_option :: "time option \<Rightarrow> sqlval" where
  "enc_time_option t = (case t of None \<Rightarrow> SqlNull | Some t \<Rightarrow> enc_time t)"

definition scan_error :: error where
  "scan_error = Opaque ''cannot scan value into destination''"

text \<open>The destinations: a value, or a pointer, which is nil for NULL.\<close>

fun dec_uuid :: "sqlval \<Rightarrow> uuid result" where
  "dec_uuid (SqlUuid u) = Inr u" | "dec_uuid _ = Inl scan_error"

fun dec_text :: "sqlval \<Rightarrow> string result" where
  "dec_text (SqlText s) = Inr s" | "dec_text _ = Inl scan_error"

fun dec_int :: "sqlval \<Rightarrow> int result" where
  "dec_int (SqlInt n) = Inr n" | "dec_int _ = Inl scan_error"

fun dec_time :: "sqlval \<Rightarrow> time result" where
  "dec_time (SqlTime n) = Inr (n * 1000)" | "dec_time _ = Inl scan_error"

fun dec_json :: "sqlval \<Rightarrow> string result" where
  "dec_json (SqlJson s) = Inr s" | "dec_json SqlNull = Inr []" | "dec_json _ = Inl scan_error"

definition dec_option :: "(sqlval \<Rightarrow> 'a result) \<Rightarrow> sqlval \<Rightarrow> 'a option result" where
  "dec_option dec v = (if v = SqlNull then Inr None else andThen (dec v) (\<lambda>x. Inr (Some x)))"

definition of_text :: "('a \<Rightarrow> string) \<Rightarrow> 'a list \<Rightarrow> string \<Rightarrow> 'a result" where
  "of_text text xs s = (case find (\<lambda>x. text x = s) xs of Some x \<Rightarrow> Inr x | None \<Rightarrow> Inl scan_error)"

lemma dec_Inr:
  "dec_uuid v = Inr u \<longleftrightarrow> v = SqlUuid u" "dec_text v = Inr s \<longleftrightarrow> v = SqlText s"
  "dec_int v = Inr n \<longleftrightarrow> v = SqlInt n" "dec_time v = Inr t \<longleftrightarrow> (\<exists>k. v = SqlTime k \<and> t = k * 1000)"
  by (cases v; auto)+

definition micros :: "time \<Rightarrow> time" where
  "micros t = t div 1000 * 1000"

lemma dec_enc_time [simp]: "dec_time (enc_time t) = Inr (micros t)"
  "dec_option dec_time (enc_time_option o1) = Inr (map_option micros o1)"
  by (auto simp: enc_time_def enc_time_option_def dec_option_def micros_def andThen_def split: option.splits)

section \<open>Transactions\<close>

text \<open>The JSON codec of the metadata, and the normal form in which a JSONB column keeps a document.\<close>

record metadata_codec =
  mcMarshal :: "metadata \<Rightarrow> string result"
  mcUnmarshal :: "string \<Rightarrow> metadata result"
  mcJsonb :: "string \<Rightarrow> string"

definition txnColumns :: "sqlexpr list" where
  "txnColumns = [Col ''id'', Col ''merchant_id'', Col ''reference'', Col ''amount'', Col ''currency'', Col ''status'',
     Col ''captured_amount'', Col ''refunded_amount'',
     Coalesce ''card_last4'', Coalesce ''card_brand'', Coalesce ''acquirer_ref'', Coalesce ''failure_code'',
     Col ''metadata'', Col ''version'',
     Col ''authorized_at'', Col ''captured_at'', Col ''settled_at'', Col ''created_at'', Col ''updated_at'']"

definition transaction_defaults :: sqlrow where
  "transaction_defaults = (\<lambda>c. SqlNull)(''captured_amount'' := SqlInt 0, ''refunded_amount'' := SqlInt 0,
     ''metadata'' := SqlJson ''{}'', ''version'' := SqlInt 0)"

definition insert_transaction :: "metadata_codec \<Rightarrow> transaction \<Rightarrow> sqlrow result" where
  "insert_transaction M t =
     (case mcMarshal M (nonNilMetadata (tMetadata t)) of
        Inl err \<Rightarrow> Inl (wrapf ''marshal metadata'' err)
      | Inr metadata \<Rightarrow> Inr (sql_insert
          [SqlUuid (tID t), SqlUuid (tMerchantID t), SqlText (tReference t), SqlInt (tAmount t),
           SqlText (Currency_String (tCurrency t)), SqlText (status_string (tStatus t)),
           SqlInt (tCapturedAmount t), SqlInt (tRefundedAmount t), SqlJson (mcJsonb M metadata), SqlInt (tVersion t),
           enc_time (tCreatedAt t), enc_time (tUpdatedAt t)]
          [''id'', ''merchant_id'', ''reference'', ''amount'', ''currency'', ''status'',
           ''captured_amount'', ''refunded_amount'', ''metadata'', ''version'', ''created_at'', ''updated_at'']
          (map Param [1..<13]) transaction_defaults))"

definition update_transaction_args :: "transaction \<Rightarrow> sqlval list" where
  "update_transaction_args t =
     [SqlText (status_string (tStatus t)), SqlInt (tCapturedAmount t), SqlInt (tRefundedAmount t),
      SqlText (tCardLast4 t), SqlText (tCardBrand t), SqlText (tAcquirerRef t), SqlText (tFailureCode t),
      enc_time_option (tAuthorizedAt t), enc_time_option (tCapturedAt t), enc_time_option (tSettledAt t),
      SqlUuid (tID t), SqlInt (tVersion t)]"

text \<open>The WHERE, SET and RETURNING clauses of \<open>Update\<close>; the database's time in microseconds.\<close>

definition update_matches :: "transaction \<Rightarrow> sqlrow \<Rightarrow> bool" where
  "update_matches t row \<longleftrightarrow> row ''id'' = sql_eval 0 (update_transaction_args t) row (Param 11)
     \<and> row ''version'' = sql_eval 0 (update_transaction_args t) row (Param 12)"

definition update_transaction :: "int \<Rightarrow> transaction \<Rightarrow> sqlrow \<Rightarrow> sqlrow" where
  "update_transaction now t = sql_set now (update_transaction_args t)
     [(''status'', Param 1), (''captured_amount'', Param 2), (''refunded_amount'', Param 3),
      (''card_last4'', NullifParam 4), (''card_brand'', NullifParam 5), (''acquirer_ref'', NullifParam 6),
      (''failure_code'', NullifParam 7), (''authorized_at'', Param 8), (''captured_at'', Param 9),
      (''settled_at'', Param 10), (''version'', Increment ''version''), (''updated_at'', Now)]"

definition wrap_scan :: "string \<Rightarrow> 'a result \<Rightarrow> 'a result" where
  "wrap_scan what r = (case r of Inl err \<Rightarrow> Inl (wrapf what err) | Inr x \<Rightarrow> Inr x)"

lemma wrap_scan_Inr [simp]: "wrap_scan what r = Inr x \<longleftrightarrow> r = Inr x" "wrap_scan what (Inr x) = Inr x"
  by (auto simp: wrap_scan_def split: sum.splits)

text \<open>
  \<open>Scan\<close> stores the values of the columns through its destinations, in their order. A destination
  is a decoder and the assignment it makes to the variables of the caller.
\<close>

type_synonym 's dest = "sqlval \<Rightarrow> 's \<Rightarrow> 's result"

definition dest :: "(sqlval \<Rightarrow> 'a result) \<Rightarrow> ('a \<Rightarrow> 's \<Rightarrow> 's) \<Rightarrow> 's dest" where
  "dest dec store v s = andThen (dec v) (\<lambda>x. Inr (store x s))"

fun sql_scan :: "'s dest list \<Rightarrow> sqlval list \<Rightarrow> 's \<Rightarrow> 's result" where
  "sql_scan (p # ps) (v # vs) s = andThen (p v s) (sql_scan ps vs)"
| "sql_scan [] [] s = Inr s"
| "sql_scan ps vs s = Inl scan_error"

lemma sql_scan_dest [simp]:
  "sql_scan (dest dec store # ps) (v # vs) s = Inr r \<longleftrightarrow> (\<exists>x. dec v = Inr x \<and> sql_scan ps vs (store x s) = Inr r)"
  by (auto simp: dest_def andThen_Inr)

declare sql_scan.simps(1) [simp del]

definition transaction_dests :: "(string \<times> transaction) dest list" where
  "transaction_dests =
     [dest dec_uuid (\<lambda>x (b, t). (b, t\<lparr> tID := x \<rparr>)), dest dec_uuid (\<lambda>x (b, t). (b, t\<lparr> tMerchantID := x \<rparr>)),
      dest dec_text (\<lambda>x (b, t). (b, t\<lparr> tReference := x \<rparr>)), dest dec_int (\<lambda>x (b, t). (b, t\<lparr> tAmount := x \<rparr>)),
      dest dec_text (\<lambda>x (b, t). (b, t\<lparr> tCurrency := currencyOf x \<rparr>)),
      dest dec_text (\<lambda>x (b, t). (b, t\<lparr> tStatus := statusOf x \<rparr>)),
      dest dec_int (\<lambda>x (b, t). (b, t\<lparr> tCapturedAmount := x \<rparr>)), dest dec_int (\<lambda>x (b, t). (b, t\<lparr> tRefundedAmount := x \<rparr>)),
      dest dec_text (\<lambda>x (b, t). (b, t\<lparr> tCardLast4 := x \<rparr>)), dest dec_text (\<lambda>x (b, t). (b, t\<lparr> tCardBrand := x \<rparr>)),
      dest dec_text (\<lambda>x (b, t). (b, t\<lparr> tAcquirerRef := x \<rparr>)), dest dec_text (\<lambda>x (b, t). (b, t\<lparr> tFailureCode := x \<rparr>)),
      dest dec_json (\<lambda>x (b, t). (x, t)), dest dec_int (\<lambda>x (b, t). (b, t\<lparr> tVersion := x \<rparr>)),
      dest (dec_option dec_time) (\<lambda>x (b, t). (b, t\<lparr> tAuthorizedAt := x \<rparr>)),
      dest (dec_option dec_time) (\<lambda>x (b, t). (b, t\<lparr> tCapturedAt := x \<rparr>)),
      dest (dec_option dec_time) (\<lambda>x (b, t). (b, t\<lparr> tSettledAt := x \<rparr>)),
      dest dec_time (\<lambda>x (b, t). (b, t\<lparr> tCreatedAt := x \<rparr>)), dest dec_time (\<lambda>x (b, t). (b, t\<lparr> tUpdatedAt := x \<rparr>))]"

definition zero_transaction :: transaction where
  "zero_transaction = \<lparr> tID = [], tMerchantID = [], tReference = [], tAmount = 0, tCurrency = OtherCurrency [],
     tStatus = OtherStatus [], tCapturedAmount = 0, tRefundedAmount = 0, tCardLast4 = [], tCardBrand = [],
     tAcquirerRef = [], tFailureCode = [], tMetadata = None, tVersion = 0, tAuthorizedAt = None, tCapturedAt = None,
     tSettledAt = None, tCreatedAt = 0, tUpdatedAt = 0 \<rparr>"

text \<open>A \<open>Row\<close>: the values of the columns, or none when the statement found no row.\<close>

definition scan_transaction :: "metadata_codec \<Rightarrow> sqlval list option \<Rightarrow> transaction result" where
  "scan_transaction M row =
     (case row of
        None \<Rightarrow> Inl (Sentinel ErrNotFound)
      | Some vs \<Rightarrow>
          (case sql_scan transaction_dests vs ([], zero_transaction) of
             Inl err \<Rightarrow> Inl (wrapf ''scan transaction'' err)
           | Inr (metadata, t) \<Rightarrow>
               if metadata = [] then Inr t
               else (case mcUnmarshal M metadata of
                       Inl err \<Rightarrow> Inl (wrapf ''unmarshal metadata'' err)
                     | Inr m \<Rightarrow> Inr (t\<lparr> tMetadata := m \<rparr>))))"

text \<open>A row of the table holds a transaction when the SELECT and its \<open>Scan\<close> give that transaction.\<close>

definition holds :: "metadata_codec \<Rightarrow> sqlrow \<Rightarrow> transaction \<Rightarrow> bool" where
  "holds M row t \<longleftrightarrow> scan_transaction M (Some (sql_select txnColumns row)) = Inr t"

text \<open>The same, column by column.\<close>

definition coalesced :: "sqlval \<Rightarrow> sqlval" where
  "coalesced v = (if v = SqlNull then SqlText [] else v)"

definition columns_hold :: "sqlrow \<Rightarrow> transaction \<Rightarrow> bool" where
  "columns_hold row t \<longleftrightarrow> row ''id'' = SqlUuid (tID t) \<and> row ''merchant_id'' = SqlUuid (tMerchantID t)
     \<and> row ''reference'' = SqlText (tReference t) \<and> row ''amount'' = SqlInt (tAmount t)
     \<and> (\<exists>s. row ''currency'' = SqlText s \<and> currencyOf s = tCurrency t)
     \<and> (\<exists>s. row ''status'' = SqlText s \<and> statusOf s = tStatus t)
     \<and> row ''captured_amount'' = SqlInt (tCapturedAmount t) \<and> row ''refunded_amount'' = SqlInt (tRefundedAmount t)
     \<and> coalesced (row ''card_last4'') = SqlText (tCardLast4 t) \<and> coalesced (row ''card_brand'') = SqlText (tCardBrand t)
     \<and> coalesced (row ''acquirer_ref'') = SqlText (tAcquirerRef t)
     \<and> coalesced (row ''failure_code'') = SqlText (tFailureCode t) \<and> row ''version'' = SqlInt (tVersion t)
     \<and> dec_option dec_time (row ''authorized_at'') = Inr (tAuthorizedAt t)
     \<and> dec_option dec_time (row ''captured_at'') = Inr (tCapturedAt t)
     \<and> dec_option dec_time (row ''settled_at'') = Inr (tSettledAt t)
     \<and> dec_time (row ''created_at'') = Inr (tCreatedAt t) \<and> dec_time (row ''updated_at'') = Inr (tUpdatedAt t)"

lemma scan_columns:
  "sql_scan transaction_dests (sql_select txnColumns row) ([], zero_transaction) = Inr (b, t) \<longleftrightarrow>
     dec_json (row ''metadata'') = Inr b \<and> tMetadata t = None \<and> columns_hold row t"
  by (cases t, simp only: transaction_dests_def sql_select_def txnColumns_def list.map sql_eval.simps sql_scan_dest
      coalesced_def [symmetric] zero_transaction_def prod.case sql_scan.simps(2) dec_Inr(1-3), simp add: columns_hold_def,
      safe, auto)

definition scan_metadata :: "metadata_codec \<Rightarrow> sqlval \<Rightarrow> metadata result" where
  "scan_metadata M v = andThen (dec_json v) (\<lambda>b. if b = [] then Inr None else mcUnmarshal M b)"

lemma columns_hold_metadata [simp]: "columns_hold row (t\<lparr> tMetadata := m \<rparr>) = columns_hold row t"
  by (simp add: columns_hold_def)

lemma holds_iff: "holds M row t \<longleftrightarrow> scan_metadata M (row ''metadata'') = Inr (tMetadata t) \<and> columns_hold row t"
proof
  assume "holds M row t"
  then obtain b u where u: "sql_scan transaction_dests (sql_select txnColumns row) ([], zero_transaction) = Inr (b, u)"
    and t: "(if b = [] then t = u else \<exists>m. mcUnmarshal M b = Inr m \<and> t = u\<lparr> tMetadata := m \<rparr>)"
    by (auto simp: holds_def scan_transaction_def split: sum.splits if_splits)
  then show "scan_metadata M (row ''metadata'') = Inr (tMetadata t) \<and> columns_hold row t"
    unfolding scan_columns by (auto simp: scan_metadata_def split: if_splits)
next
  assume h: "scan_metadata M (row ''metadata'') = Inr (tMetadata t) \<and> columns_hold row t"
  then obtain b where b: "dec_json (row ''metadata'') = Inr b"
    and m: "(if b = [] then tMetadata t = None else mcUnmarshal M b = Inr (tMetadata t))"
    by (auto simp: scan_metadata_def andThen_Inr split: if_splits)
  have "sql_scan transaction_dests (sql_select txnColumns row) ([], zero_transaction) = Inr (b, t\<lparr> tMetadata := None \<rparr>)"
    unfolding scan_columns using h b by simp
  then show "holds M row t" using m by (cases t) (auto simp: holds_def scan_transaction_def)
qed

section \<open>Writing and reading transactions\<close>

definition in_micros :: "transaction \<Rightarrow> transaction" where
  "in_micros t = t\<lparr> tAuthorizedAt := map_option micros (tAuthorizedAt t), tCapturedAt := map_option micros (tCapturedAt t),
     tSettledAt := map_option micros (tSettledAt t), tCreatedAt := micros (tCreatedAt t),
     tUpdatedAt := micros (tUpdatedAt t) \<rparr>"

text \<open>
  Go's maps and strings as the model writes them: the metadata by ascending key, each key once,
  and the known texts as their constructors.
\<close>

definition canonical :: "transaction \<Rightarrow> bool" where
  "canonical t \<longleftrightarrow> (case tMetadata t of None \<Rightarrow> True | Some m \<Rightarrow> sorted (map fst m) \<and> distinct (map fst m))
     \<and> currencyOf (Currency_String (tCurrency t)) = tCurrency t \<and> statusOf (status_string (tStatus t)) = tStatus t"

definition faithful_codec :: "metadata_codec \<Rightarrow> bool" where
  "faithful_codec M \<longleftrightarrow> (\<forall>m. sorted (map fst m) \<and> distinct (map fst m) \<longrightarrow>
     (\<exists>b. mcMarshal M (Some m) = Inr b \<and> mcJsonb M b \<noteq> [] \<and> mcUnmarshal M (mcJsonb M b) = Inr (Some m)))"

lemmas sql_defs = sql_insert_def sql_set_def sql_param_def upt_rec

lemma inserted_transaction:
  assumes "faithful_codec M" and "canonical t"
  shows "\<exists>row. insert_transaction M t = Inr row \<and> holds M row (in_micros (inserted_row t))"
proof -
  obtain m where m: "nonNilMetadata (tMetadata t) = Some m" "sorted (map fst m)" "distinct (map fst m)"
    using assms(2) by (cases "tMetadata t") (auto simp: nonNilMetadata_def canonical_def)
  then obtain b where "mcMarshal M (Some m) = Inr b" "mcJsonb M b \<noteq> []" "mcUnmarshal M (mcJsonb M b) = Inr (Some m)"
    using assms(1) by (auto simp: faithful_codec_def)
  then show ?thesis using assms(2) m(1)
    by (auto simp: insert_transaction_def holds_iff columns_hold_def scan_metadata_def coalesced_def sql_defs
        transaction_defaults_def in_micros_def inserted_row_def canonical_def dec_option_def)
qed

lemma coalesced_simps [simp]: "coalesced SqlNull = SqlText []" "coalesced (SqlText s) = SqlText s"
  by (simp_all add: coalesced_def)

lemma updated_columns:
  "update_transaction now t row c =
     (if c = ''status'' then SqlText (status_string (tStatus t)) else if c = ''captured_amount'' then SqlInt (tCapturedAmount t)
      else if c = ''refunded_amount'' then SqlInt (tRefundedAmount t)
      else if c = ''card_last4'' then (if tCardLast4 t = [] then SqlNull else SqlText (tCardLast4 t))
      else if c = ''card_brand'' then (if tCardBrand t = [] then SqlNull else SqlText (tCardBrand t))
      else if c = ''acquirer_ref'' then (if tAcquirerRef t = [] then SqlNull else SqlText (tAcquirerRef t))
      else if c = ''failure_code'' then (if tFailureCode t = [] then SqlNull else SqlText (tFailureCode t))
      else if c = ''authorized_at'' then enc_time_option (tAuthorizedAt t)
      else if c = ''captured_at'' then enc_time_option (tCapturedAt t)
      else if c = ''settled_at'' then enc_time_option (tSettledAt t)
      else if c = ''version'' then sql_eval now [] row (Increment ''version'')
      else if c = ''updated_at'' then SqlTime now else row c)"
  by (simp add: update_transaction_def update_transaction_args_def sql_defs cong: if_cong)

lemma scanned_micros:
  "dec_time v = Inr x \<Longrightarrow> micros x = x" "dec_option dec_time v = Inr o1 \<Longrightarrow> map_option micros o1 = o1"
  by (cases v; auto simp: dec_option_def micros_def)+

lemma holds_in_micros: "holds M row t \<Longrightarrow> in_micros t = t"
  by (cases t) (simp add: holds_iff columns_hold_def in_micros_def, blast intro: scanned_micros)

lemma updated_transaction:
  assumes "holds M row r" and "canonical t"
  shows "holds M (update_transaction (dbnow div 1000) t row) (in_micros (updated_row dbnow t r))"
proof -
  have "micros (tCreatedAt r) = tCreatedAt r"
    using arg_cong [OF holds_in_micros [OF assms(1)], of tCreatedAt] by (simp add: in_micros_def)
  with assms show ?thesis
    by (simp add: holds_iff columns_hold_def updated_columns in_micros_def updated_row_def)
      (simp add: micros_def canonical_def)
qed

text \<open>The WHERE clause selects the row of the identifier and version, as the record-level statement does.\<close>

lemma update_matches_iff:
  assumes "holds M row r"
  shows "update_matches t row \<longleftrightarrow> tID r = tID t \<and> tVersion r = tVersion t"
  using assms by (simp add: holds_iff columns_hold_def update_matches_def update_transaction_args_def sql_param_def)

section \<open>Journal entries, deliveries and merchants\<close>

definition ledgerColumns :: "sqlexpr list" where
  "ledgerColumns = [Col ''id'', Col ''entry_group_id'', Col ''transaction_id'', Col ''account'', Col ''merchant_id'',
     Col ''direction'', Col ''amount'', Col ''currency'', Col ''event_type'', Col ''created_at'']"

text \<open>The default of the serial number is the next value of its sequence.\<close>

definition insert_ledger_entry :: "int \<Rightarrow> ledger_entry \<Rightarrow> sqlrow" where
  "insert_ledger_entry serial e = sql_insert
     [SqlUuid (eEntryGroupID e), SqlUuid (eTransactionID e), SqlText (eAccount e),
      (case eMerchantID e of None \<Rightarrow> SqlNull | Some m \<Rightarrow> SqlUuid m),
      SqlText (direction_string (eDirection e)), SqlInt (eAmount e), SqlText (Currency_String (eCurrency e)),
      SqlText (eventtype_string (eEventType e)), enc_time (eCreatedAt e)]
     [''entry_group_id'', ''transaction_id'', ''account'', ''merchant_id'',
      ''direction'', ''amount'', ''currency'', ''event_type'', ''created_at'']
     (map Param [1..<10]) ((\<lambda>c. SqlNull)(''id'' := SqlInt serial))"

definition directionOf :: "string \<Rightarrow> Direction" where
  "directionOf s = (if s = ''debit'' then Debit else if s = ''credit'' then Credit else OtherDirection s)"

definition dec_enum :: "('a \<Rightarrow> string) \<Rightarrow> 'a list \<Rightarrow> sqlval \<Rightarrow> 'a result" where
  "dec_enum text xs v = andThen (dec_text v) (of_text text xs)"

lemma dec_enum_text:
  assumes "x \<in> set xs" and "inj_on text (set xs)"
  shows "dec_enum text xs (SqlText (text x)) = Inr x"
proof -
  have "find (\<lambda>y. text y = text x) xs = Some x"
    using assms by (induction xs) (auto simp: inj_on_def)
  then show ?thesis by (simp add: dec_enum_def of_text_def)
qed

abbreviation "event_types \<equiv> [EventCapture, EventRefund, EventFee, EventSettlement]"

definition entry_dests :: "ledger_entry dest list" where
  "entry_dests = [dest dec_int (\<lambda>x e. e\<lparr> eID := x \<rparr>), dest dec_uuid (\<lambda>x e. e\<lparr> eEntryGroupID := x \<rparr>),
     dest dec_uuid (\<lambda>x e. e\<lparr> eTransactionID := x \<rparr>), dest dec_text (\<lambda>x e. e\<lparr> eAccount := x \<rparr>),
     dest (dec_option dec_uuid) (\<lambda>x e. e\<lparr> eMerchantID := x \<rparr>), dest dec_text (\<lambda>x e. e\<lparr> eDirection := directionOf x \<rparr>),
     dest dec_int (\<lambda>x e. e\<lparr> eAmount := x \<rparr>), dest dec_text (\<lambda>x e. e\<lparr> eCurrency := currencyOf x \<rparr>),
     dest (dec_enum eventtype_string event_types) (\<lambda>x e. e\<lparr> eEventType := x \<rparr>),
     dest dec_time (\<lambda>x e. e\<lparr> eCreatedAt := x \<rparr>)]"

definition zero_entry :: ledger_entry where
  "zero_entry = \<lparr> eID = 0, eEntryGroupID = [], eTransactionID = [], eAccount = [], eMerchantID = None,
     eDirection = OtherDirection [], eAmount = 0, eCurrency = OtherCurrency [], eEventType = EventCapture, eCreatedAt = 0 \<rparr>"

definition scanLedgerEntry :: "sqlval list \<Rightarrow> ledger_entry result" where
  "scanLedgerEntry vs = wrap_scan ''scan ledger entry'' (sql_scan entry_dests vs zero_entry)"

text \<open>A line is read back with its serial number, as \<open>insert_entries\<close> books it.\<close>

lemma inserted_entry:
  assumes "currencyOf (Currency_String (eCurrency e)) = eCurrency e" and "directionOf (direction_string (eDirection e)) = eDirection e"
  shows "scanLedgerEntry (sql_select ledgerColumns (insert_ledger_entry n e))
    = Inr (e\<lparr> eID := n, eCreatedAt := micros (eCreatedAt e) \<rparr>)"
proof -
  have "dec_enum eventtype_string event_types (SqlText (eventtype_string t)) = Inr t" for t
    by (rule dec_enum_text) (cases t; simp_all)+
  then show ?thesis
    using assms by (cases e) (simp add: scanLedgerEntry_def sql_select_def ledgerColumns_def insert_ledger_entry_def
        sql_defs entry_dests_def zero_entry_def dec_option_def split: option.splits)
qed

abbreviation "webhook_events \<equiv> [EventPaymentAuthorized, EventPaymentCaptured, EventPaymentFailed,
  EventPaymentRefunded, EventPaymentVoided, EventPaymentSettled]"

abbreviation "delivery_states \<equiv> [DeliveryPending, DeliveryDelivering, DeliveryDelivered, DeliveryFailed, DeliveryDead]"

fun delivery_string :: "DeliveryStatus \<Rightarrow> string" where
  "delivery_string DeliveryPending = ''pending''"
| "delivery_string DeliveryDelivering = ''delivering''"
| "delivery_string DeliveryDelivered = ''delivered''"
| "delivery_string DeliveryFailed = ''failed''"
| "delivery_string DeliveryDead = ''dead''"

definition webhookColumns :: "sqlexpr list" where
  "webhookColumns = [Col ''id'', Col ''merchant_id'', Col ''transaction_id'', Col ''event_type'', Col ''payload'',
     Col ''status'', Col ''attempt_count'', Col ''next_attempt_at'', Coalesce ''last_error'', Col ''created_at'',
     Col ''updated_at'']"

text \<open>The payload of a delivery is already in the normal form of its JSONB column.\<close>

definition insert_delivery :: "delivery \<Rightarrow> sqlrow" where
  "insert_delivery w = sql_insert
     [SqlUuid (dID w), SqlUuid (dMerchantID w), SqlUuid (dTransactionID w), SqlText (event_string (dEventType w)),
      SqlJson (dPayload w), SqlText (delivery_string (dStatus w)), SqlInt (dAttemptCount w),
      enc_time (dNextAttemptAt w), enc_time (dCreatedAt w), enc_time (dUpdatedAt w)]
     [''id'', ''merchant_id'', ''transaction_id'', ''event_type'', ''payload'',
      ''status'', ''attempt_count'', ''next_attempt_at'', ''created_at'', ''updated_at'']
     (map Param [1..<11]) (\<lambda>c. SqlNull)"

definition update_attempt :: "int \<Rightarrow> delivery \<Rightarrow> sqlrow \<Rightarrow> sqlrow" where
  "update_attempt now w = sql_set now
     [SqlText (delivery_string (dStatus w)), SqlInt (dAttemptCount w), enc_time (dNextAttemptAt w),
      SqlText (dLastError w), SqlUuid (dID w)]
     [(''status'', Param 1), (''attempt_count'', Param 2), (''next_attempt_at'', Param 3),
      (''last_error'', NullifParam 4), (''updated_at'', Now)]"

definition delivery_dests :: "delivery dest list" where
  "delivery_dests = [dest dec_uuid (\<lambda>x w. w\<lparr> dID := x \<rparr>), dest dec_uuid (\<lambda>x w. w\<lparr> dMerchantID := x \<rparr>),
     dest dec_uuid (\<lambda>x w. w\<lparr> dTransactionID := x \<rparr>), dest (dec_enum event_string webhook_events) (\<lambda>x w. w\<lparr> dEventType := x \<rparr>),
     dest dec_json (\<lambda>x w. w\<lparr> dPayload := x \<rparr>), dest (dec_enum delivery_string delivery_states) (\<lambda>x w. w\<lparr> dStatus := x \<rparr>),
     dest dec_int (\<lambda>x w. w\<lparr> dAttemptCount := x \<rparr>), dest dec_time (\<lambda>x w. w\<lparr> dNextAttemptAt := x \<rparr>),
     dest dec_text (\<lambda>x w. w\<lparr> dLastError := x \<rparr>), dest dec_time (\<lambda>x w. w\<lparr> dCreatedAt := x \<rparr>),
     dest dec_time (\<lambda>x w. w\<lparr> dUpdatedAt := x \<rparr>)]"

definition zero_delivery :: delivery where
  "zero_delivery = \<lparr> dID = [], dMerchantID = [], dTransactionID = [], dEventType = EventPaymentAuthorized,
     dPayload = [], dStatus = DeliveryPending, dAttemptCount = 0, dNextAttemptAt = 0, dLastError = [],
     dCreatedAt = 0, dUpdatedAt = 0 \<rparr>"

definition scan_delivery :: "sqlval list option \<Rightarrow> delivery result" where
  "scan_delivery row =
     (case row of
        None \<Rightarrow> Inl (Sentinel ErrNotFound)
      | Some vs \<Rightarrow> wrap_scan ''scan webhook delivery'' (sql_scan delivery_dests vs zero_delivery))"

definition delivery_micros :: "delivery \<Rightarrow> delivery" where
  "delivery_micros w = w\<lparr> dNextAttemptAt := micros (dNextAttemptAt w), dCreatedAt := micros (dCreatedAt w),
     dUpdatedAt := micros (dUpdatedAt w) \<rparr>"

lemma dec_events [simp]:
  "dec_enum event_string webhook_events (SqlText (event_string v)) = Inr v"
  "dec_enum delivery_string delivery_states (SqlText (delivery_string s)) = Inr s"
  by (rule dec_enum_text; cases v; simp) (rule dec_enum_text; cases s; simp)

lemma inserted_delivery:
  "scan_delivery (Some (sql_select webhookColumns (insert_delivery w))) = Inr (delivery_micros (w\<lparr> dLastError := [] \<rparr>))"
  by (cases w) (simp add: scan_delivery_def sql_select_def webhookColumns_def insert_delivery_def sql_defs
      delivery_dests_def zero_delivery_def delivery_micros_def)

lemma scan_delivery_iff:
  "scan_delivery (Some (sql_select webhookColumns row)) = Inr w \<longleftrightarrow>
     row ''id'' = SqlUuid (dID w) \<and> row ''merchant_id'' = SqlUuid (dMerchantID w)
     \<and> row ''transaction_id'' = SqlUuid (dTransactionID w)
     \<and> dec_enum event_string webhook_events (row ''event_type'') = Inr (dEventType w)
     \<and> dec_json (row ''payload'') = Inr (dPayload w)
     \<and> dec_enum delivery_string delivery_states (row ''status'') = Inr (dStatus w)
     \<and> row ''attempt_count'' = SqlInt (dAttemptCount w) \<and> dec_time (row ''next_attempt_at'') = Inr (dNextAttemptAt w)
     \<and> coalesced (row ''last_error'') = SqlText (dLastError w)
     \<and> dec_time (row ''created_at'') = Inr (dCreatedAt w) \<and> dec_time (row ''updated_at'') = Inr (dUpdatedAt w)"
  by (cases w, simp only: scan_delivery_def option.case wrap_scan_Inr delivery_dests_def sql_select_def webhookColumns_def list.map
      sql_eval.simps sql_scan_dest coalesced_def [symmetric] zero_delivery_def sql_scan.simps(2) dec_Inr(1-3), simp)

text \<open>The outcome of an attempt, as \<open>UpdateAttempt\<close> writes it into the row.\<close>

lemma updated_delivery:
  assumes "scan_delivery (Some (sql_select webhookColumns row)) = Inr r"
  shows "scan_delivery (Some (sql_select webhookColumns (update_attempt (dbnow div 1000) w row)))
    = Inr (r\<lparr> dStatus := dStatus w, dAttemptCount := dAttemptCount w, dNextAttemptAt := micros (dNextAttemptAt w),
        dLastError := dLastError w, dUpdatedAt := micros dbnow \<rparr>)"
  using assms unfolding scan_delivery_iff by (simp add: update_attempt_def sql_defs micros_def)

definition merchantColumns :: "sqlexpr list" where
  "merchantColumns = [Col ''id'', Col ''name'', Col ''email'', Col ''api_key'', Col ''api_secret_enc'',
     Coalesce ''webhook_url'', Col ''webhook_secret_enc'', Col ''status'', Col ''created_at'', Col ''updated_at'']"

definition insert_merchant :: "merchant \<Rightarrow> sqlrow" where
  "insert_merchant m = sql_insert
     [SqlUuid (mID m), SqlText (mName m), SqlText (mEmail m), SqlText (mAPIKey m), SqlText (mAPISecretEnc m),
      SqlText (mWebhookURL m), SqlText (mWebhookSecretEnc m), SqlText (merchant_status_string (mStatus m)),
      enc_time (mCreatedAt m), enc_time (mUpdatedAt m)]
     [''id'', ''name'', ''email'', ''api_key'', ''api_secret_enc'',
      ''webhook_url'', ''webhook_secret_enc'', ''status'', ''created_at'', ''updated_at'']
     [Param 1, Param 2, Param 3, Param 4, Param 5, NullifParam 6, Param 7, Param 8, Param 9, Param 10] (\<lambda>c. SqlNull)"

definition merchant_dests :: "merchant dest list" where
  "merchant_dests = [dest dec_uuid (\<lambda>x m. m\<lparr> mID := x \<rparr>), dest dec_text (\<lambda>x m. m\<lparr> mName := x \<rparr>),
     dest dec_text (\<lambda>x m. m\<lparr> mEmail := x \<rparr>), dest dec_text (\<lambda>x m. m\<lparr> mAPIKey := x \<rparr>),
     dest dec_text (\<lambda>x m. m\<lparr> mAPISecretEnc := x \<rparr>), dest dec_text (\<lambda>x m. m\<lparr> mWebhookURL := x \<rparr>),
     dest dec_text (\<lambda>x m. m\<lparr> mWebhookSecretEnc := x \<rparr>),
     dest (dec_enum merchant_status_string [MerchantActive, MerchantSuspended]) (\<lambda>x m. m\<lparr> mStatus := x \<rparr>),
     dest dec_time (\<lambda>x m. m\<lparr> mCreatedAt := x \<rparr>), dest dec_time (\<lambda>x m. m\<lparr> mUpdatedAt := x \<rparr>)]"

definition zero_merchant :: merchant where
  "zero_merchant = \<lparr> mID = [], mName = [], mEmail = [], mAPIKey = [], mAPISecretEnc = [], mWebhookURL = [],
     mWebhookSecretEnc = [], mStatus = MerchantActive, mCreatedAt = 0, mUpdatedAt = 0 \<rparr>"

definition scan_merchant :: "sqlval list option \<Rightarrow> merchant result" where
  "scan_merchant row =
     (case row of
        None \<Rightarrow> Inl (Sentinel ErrNotFound)
      | Some vs \<Rightarrow> wrap_scan ''scan merchant'' (sql_scan merchant_dests vs zero_merchant))"

lemma inserted_merchant:
  "scan_merchant (Some (sql_select merchantColumns (insert_merchant m)))
    = Inr (m\<lparr> mCreatedAt := micros (mCreatedAt m), mUpdatedAt := micros (mUpdatedAt m) \<rparr>)"
proof -
  have "dec_enum merchant_status_string [MerchantActive, MerchantSuspended] (SqlText (merchant_status_string s)) = Inr s" for s
    by (rule dec_enum_text) (cases s; simp)+
  then show ?thesis
    by (cases m) (simp add: scan_merchant_def sql_select_def merchantColumns_def insert_merchant_def sql_defs
        merchant_dests_def zero_merchant_def)
qed

section \<open>The table of transactions\<close>

text \<open>Truncation to microseconds does not move an instant across the bounds of a day.\<close>

lemma micros_between:
  assumes "1000 dvd a" and "1000 dvd b"
  shows "captured_between a b (in_micros t) \<longleftrightarrow> captured_between a b t"
proof -
  have "k * 1000 \<le> micros c \<longleftrightarrow> k * 1000 \<le> c" for k c
    unfolding micros_def using zdiv_mono1 [of "k * 1000" c 1000] div_mult_mod_eq [of c 1000] pos_mod_sign [of 1000 c]
    by auto
  then show ?thesis
    using assms by (auto simp: captured_between_def in_micros_def dvd_def mult.commute not_le [symmetric] split: option.splits)
qed

definition update_table :: "int \<Rightarrow> transaction \<Rightarrow> sqlrow list \<Rightarrow> sqlrow list" where
  "update_table now t rows = map (\<lambda>row. if update_matches t row then update_transaction now t row else row) rows"

text \<open>A WHERE clause that equates columns with parameters; the columns come out through \<open>Scan\<close>.\<close>

definition select_where :: "metadata_codec \<Rightarrow> (string \<times> sqlval) list \<Rightarrow> sqlrow list \<Rightarrow> transaction result" where
  "select_where M w rows =
     scan_transaction M (map_option (sql_select txnColumns) (find (\<lambda>row. list_all (\<lambda>(c, v). row c = v) w) rows))"

definition select_by_id :: "metadata_codec \<Rightarrow> uuid \<Rightarrow> sqlrow list \<Rightarrow> transaction result" where
  "select_by_id M i = select_where M [(''id'', SqlUuid i)]"

definition select_by_merchant_and_id :: "metadata_codec \<Rightarrow> uuid \<Rightarrow> uuid \<Rightarrow> sqlrow list \<Rightarrow> transaction result" where
  "select_by_merchant_and_id M merchantID i = select_where M [(''id'', SqlUuid i), (''merchant_id'', SqlUuid merchantID)]"

definition select_by_reference :: "metadata_codec \<Rightarrow> uuid \<Rightarrow> string \<Rightarrow> sqlrow list \<Rightarrow> transaction result" where
  "select_by_reference M merchantID ref =
     select_where M [(''merchant_id'', SqlUuid merchantID), (''reference'', SqlText ref)]"

lemma table_in_micros: "list_all2 (holds M) rows ts \<Longrightarrow> map in_micros ts = ts"
  by (induction rule: list_all2_induct) (auto dest: holds_in_micros)

lemma updated_table:
  assumes "list_all2 (holds M) rows ts" and "canonical t"
  shows "list_all2 (holds M) (update_table (dbnow div 1000) t rows)
     (map (\<lambda>r. if tID r = tID t \<and> tVersion r = tVersion t then in_micros (updated_row dbnow t r) else r) ts)"
  using assms(1)
  by (induction rule: list_all2_induct)
    (simp_all add: update_table_def update_matches_iff updated_transaction [OF _ assms(2)])

lemma selected_row:
  assumes "list_all2 (holds M) rows ts" and "\<And>row t. holds M row t \<Longrightarrow> list_all (\<lambda>(c, v). row c = v) w \<longleftrightarrow> P t"
  shows "select_where M w rows = scanTransaction None (find P ts)"
  using assms(1)
proof (induction rule: list_all2_induct)
  case Nil
  show ?case by (simp add: select_where_def scanTransaction_def scan_transaction_def)
next
  case (Cons row rows t ts)
  then show ?case using assms(2) [OF Cons(1)] by (simp add: select_where_def scanTransaction_def holds_def)
qed

lemma selects:
  assumes "list_all2 (holds M) rows (dbTransactions d)"
  shows "select_by_id M i rows = GetForUpdate None i d"
    "select_by_merchant_and_id M m i rows = GetByMerchantAndID None m i d"
    "select_by_reference M m ref rows = GetByReference None m ref d"
  unfolding select_by_id_def select_by_merchant_and_id_def select_by_reference_def
    GetForUpdate_def GetByMerchantAndID_def GetByReference_def
  by (rule selected_row [OF assms], simp add: holds_iff columns_hold_def)+


text \<open>A small codec of the required kind: each byte is marked, a text ends with a bar.\<close>

fun mark :: "string \<Rightarrow> string" where
  "mark [] = ''|''"
| "mark (c # cs) = CHR ''.'' # c # mark cs"

fun unmark :: "string \<Rightarrow> string \<times> string" where
  "unmark (a # c # cs) = (if a = CHR ''.'' then (let (s, r) = unmark cs in (c # s, r)) else ([], c # cs))"
| "unmark s = ([], [])"

fun mark_all :: "(string \<times> string) list \<Rightarrow> string" where
  "mark_all [] = ''!''"
| "mark_all ((k, v) # m) = mark k @ mark v @ mark_all m"

fun unmark_all :: "nat \<Rightarrow> string \<Rightarrow> (string \<times> string) list" where
  "unmark_all 0 s = []"
| "unmark_all (Suc n) s =
     (if s = ''!'' then [] else let (k, r) = unmark s; (v, r) = unmark r in (k, v) # unmark_all n r)"

definition demo_metadata_codec :: metadata_codec where
  "demo_metadata_codec = \<lparr> mcMarshal = (\<lambda>m. Inr (mark_all (case m of None \<Rightarrow> [] | Some xs \<Rightarrow> xs))),
     mcUnmarshal = (\<lambda>s. Inr (Some (unmark_all (length s) s))), mcJsonb = (\<lambda>s. s) \<rparr>"

lemma unmark_mark: "r \<noteq> [] \<Longrightarrow> unmark (mark s @ r) = (s, r)"
  by (induction s) (cases r; simp)+

lemma mark_nonempty: "0 < length (mark s)"
  by (cases s) simp_all

lemma mark_all_nonempty: "mark_all m \<noteq> []" "length m < length (mark_all m)"
proof -
  show l: "length m < length (mark_all m)"
  proof (induction m rule: mark_all.induct)
    case (2 k v m)
    have "0 < length (mark k)" by (rule mark_nonempty)
    with 2 show ?case unfolding mark_all.simps length_append list.size by linarith
  qed simp
  then show "mark_all m \<noteq> []" by auto
qed

lemma unmark_all_mark_all: "length m < n \<Longrightarrow> unmark_all n (mark_all m) = m"
proof (induction m arbitrary: n rule: mark_all.induct)
  case 1
  then show ?case by (cases n) simp_all
next
  case (2 k v m)
  then obtain n' where n: "n = Suc n'" by (cases n) auto
  have "mark k @ mark v @ mark_all m \<noteq> ''!''"
    by (cases k; cases v) (auto simp: Cons_eq_append_conv)
  with 2 n show ?case by (simp add: unmark_mark mark_all_nonempty(1))
qed

lemma demo_metadata_codec: "faithful_codec demo_metadata_codec"
  by (auto simp: faithful_codec_def demo_metadata_codec_def mark_all_nonempty intro: unmark_all_mark_all)

text \<open>A table with the sample transaction: it is inserted, then updated and read.\<close>

definition demo_table_db :: db where
  "demo_table_db = \<lparr> dbMerchants = [], dbTransactions = [in_micros (inserted_row demo_txn)], dbLedger = [],
     dbLedgerSeq = 0, dbWebhooks = [] \<rparr>"


end
