(* ===== verification/Logger.thy ===== *)
theory Logger
  imports Errors
begin

text \<open>
  The process logger (\<open>internal/app/logging.go\<close>). A log record is its level, message and
  attributes; the handler of \<open>log/slog\<close> prints the records whose level is at least its own.
\<close>

section \<open>The logger\<close>

datatype Level = LevelDebug | LevelInfo | LevelWarn | LevelError

fun level_value :: "Level \<Rightarrow> int" where
  "level_value LevelDebug = - 4"
| "level_value LevelInfo = 0"
| "level_value LevelWarn = 4"
| "level_value LevelError = 8"

datatype log_handler = JSONHandler Level | TextHandler Level

text \<open>
  \<open>strings.ToLower\<close> as far as it gives ASCII text: of the letters beyond ASCII only the dotted
  capital I and the Kelvin sign have a lower case in ASCII.
\<close>

fun ascii_lower :: "string \<Rightarrow> string" where
  "ascii_lower (a # b # c # s) =
     (if [of_char a, of_char b, of_char c] = [0xE2, 0x84, 0xAA :: nat] then CHR ''k'' # ascii_lower s
      else if [of_char a, of_char b] = [0xC4, 0xB0 :: nat] then CHR ''i'' # ascii_lower (c # s)
      else (if 65 \<le> (of_char a :: nat) \<and> (of_char a :: nat) \<le> 90 then char_of (of_char a + 32 :: nat) else a)
             # ascii_lower (b # c # s))"
| "ascii_lower [a, b] =
     (if [of_char a, of_char b] = [0xC4, 0xB0 :: nat] then ''i''
      else map (\<lambda>a. if 65 \<le> (of_char a :: nat) \<and> (of_char a :: nat) \<le> 90 then char_of (of_char a + 32 :: nat) else a) [a, b])"
| "ascii_lower [a] =
     [if 65 \<le> (of_char a :: nat) \<and> (of_char a :: nat) \<le> 90 then char_of (of_char a + 32 :: nat) else a]"
| "ascii_lower [] = []"

definition parseLevel :: "string \<Rightarrow> Level" where
  "parseLevel level =
     (let l = ascii_lower level
      in if l = ''debug'' then LevelDebug
         else if l = ''warn'' \<or> l = ''warning'' then LevelWarn
         else if l = ''error'' then LevelError
         else LevelInfo)"

definition NewLogger :: "string \<Rightarrow> string \<Rightarrow> log_handler" where
  "NewLogger level env = (if env = ''production'' then JSONHandler (parseLevel level) else TextHandler (parseLevel level))"

lemma parseLevel_examples:
  "parseLevel ''WARNING'' = LevelWarn" "parseLevel ''Debug'' = LevelDebug" "parseLevel ''verbose'' = LevelInfo"
  by code_simp+

fun handler_level :: "log_handler \<Rightarrow> Level" where
  "handler_level (JSONHandler l) = l"
| "handler_level (TextHandler l) = l"

definition log_enabled :: "log_handler \<Rightarrow> Level \<Rightarrow> bool" where
  "log_enabled h l \<longleftrightarrow> level_value (handler_level h) \<le> level_value l"

lemma errors_enabled [simp]: "log_enabled h LevelError"
  by (cases "handler_level h") (simp_all add: log_enabled_def)

section \<open>Lines\<close>

text \<open>An error is printed by its text.\<close>

datatype log_attr = AString string | AInt int | ABool bool | AError error

record log_line =
  llLevel :: Level
  llMessage :: string
  llAttrs :: "(string \<times> log_attr) list"

definition emitted :: "log_handler \<Rightarrow> log_line list \<Rightarrow> log_line list" where
  "emitted h = filter (\<lambda>l. log_enabled h (llLevel l))"

lemma emitted_error: "l \<in> set ls \<Longrightarrow> llLevel l = LevelError \<Longrightarrow> l \<in> set (emitted h ls)"
  by (simp add: emitted_def)

end
