(* ===== verification/Payment_Log.thy ===== *)
theory Payment_Log
  imports Guarantees Logger
begin

text \<open>
  The log lines of the payment service (\<open>internal/service/payment_service.go\<close>) and of the guard
  around the card processor (\<open>internal/acquirer/guarded.go\<close>). The processor is called with no lock
  held, so it may have moved money for an operation that the database then refuses; the service
  asks for a manual reconciliation in its log. The branches are those of the operations.
\<close>

section \<open>The lines\<close>

definition resuming_line :: "transaction \<Rightarrow> log_line" where
  "resuming_line t = \<lparr> llLevel = LevelInfo, llMessage = ''resuming unfinished authorization'',
     llAttrs = [(''transaction_id'', AString (tID t)), (''reference'', AString (tReference t))] \<rparr>"

definition unknown_line :: "transaction \<Rightarrow> error \<Rightarrow> log_line" where
  "unknown_line t err = \<lparr> llLevel = LevelError, llMessage = ''acquirer authorization outcome unknown'',
     llAttrs = [(''transaction_id'', AString (tID t)), (''error'', AError err)] \<rparr>"

definition authorized_line :: "transaction \<Rightarrow> log_line" where
  "authorized_line t = \<lparr> llLevel = LevelInfo, llMessage = ''payment authorized'',
     llAttrs = [(''transaction_id'', AString (tID t)), (''merchant_id'', AString (tMerchantID t)),
       (''amount'', AInt (tAmount t)), (''currency'', AString (Currency_String (tCurrency t)))] \<rparr>"

definition auto_capture_line :: "transaction \<Rightarrow> error \<Rightarrow> log_line" where
  "auto_capture_line t err = \<lparr> llLevel = LevelWarn, llMessage = ''auto-capture after authorization failed'',
     llAttrs = [(''transaction_id'', AString (tID t)), (''error'', AError err)] \<rparr>"

definition capture_moved_on_line :: "uuid \<Rightarrow> string \<Rightarrow> Amount \<Rightarrow> Status \<Rightarrow> error \<Rightarrow> log_line" where
  "capture_moved_on_line txID ref amount status err = \<lparr> llLevel = LevelError,
     llMessage = ''acquirer capture succeeded but transaction moved on; manual reconciliation required'',
     llAttrs = [(''transaction_id'', AString txID), (''acquirer_ref'', AString ref), (''amount'', AInt amount),
       (''status'', AString (status_string status)), (''error'', AError err)] \<rparr>"

definition captured_line :: "int \<Rightarrow> Amount \<Rightarrow> transaction \<Rightarrow> log_line" where
  "captured_line feeBPS amount t = \<lparr> llLevel = LevelInfo, llMessage = ''payment captured'',
     llAttrs = [(''transaction_id'', AString (tID t)), (''amount'', AInt amount),
       (''captured_total'', AInt (tCapturedAmount t)), (''fee'', AInt (Fee amount feeBPS))] \<rparr>"

definition refund_moved_on_line :: "uuid \<Rightarrow> string \<Rightarrow> Amount \<Rightarrow> error \<Rightarrow> log_line" where
  "refund_moved_on_line txID ref amount err = \<lparr> llLevel = LevelError,
     llMessage = ''acquirer refund succeeded but transaction moved on; manual reconciliation required'',
     llAttrs = [(''transaction_id'', AString txID), (''acquirer_ref'', AString ref), (''amount'', AInt amount),
       (''error'', AError err)] \<rparr>"

definition refunded_line :: "Amount \<Rightarrow> transaction \<Rightarrow> log_line" where
  "refunded_line amount t = \<lparr> llLevel = LevelInfo, llMessage = ''payment refunded'',
     llAttrs = [(''transaction_id'', AString (tID t)), (''amount'', AInt amount),
       (''refunded_total'', AInt (tRefundedAmount t))] \<rparr>"

definition voided_line :: "transaction \<Rightarrow> log_line" where
  "voided_line t = \<lparr> llLevel = LevelInfo, llMessage = ''payment voided'',
     llAttrs = [(''transaction_id'', AString (tID t))] \<rparr>"

section \<open>Captures, refunds and voids\<close>

text \<open>What the body of a transaction logs, if it is begun at all.\<close>

definition tx_log :: "tx_env \<Rightarrow> log_line list \<Rightarrow> log_line list" where
  "tx_log x ls = (if fBegin (xTx x) = None then ls else [])"

definition capture_body_log :: "tx_env \<Rightarrow> uuid \<Rightarrow> uuid \<Rightarrow> string \<Rightarrow> Amount \<Rightarrow> db \<Rightarrow> log_line list" where
  "capture_body_log x merchantID txID ref amount d =
     (case GetForUpdate (xGet x) txID d of
        Inl err \<Rightarrow> []
      | Inr fresh \<Rightarrow>
          if tMerchantID fresh \<noteq> merchantID then []
          else (case Transaction_Capture amount (xNow x) fresh of
                  Inl err \<Rightarrow> [capture_moved_on_line txID ref amount (tStatus fresh) err]
                | Inr _ \<Rightarrow> []))"

definition refund_body_log :: "tx_env \<Rightarrow> uuid \<Rightarrow> uuid \<Rightarrow> string \<Rightarrow> Amount \<Rightarrow> db \<Rightarrow> log_line list" where
  "refund_body_log x merchantID txID ref amount d =
     (case GetForUpdate (xGet x) txID d of
        Inl err \<Rightarrow> []
      | Inr fresh \<Rightarrow>
          if tMerchantID fresh \<noteq> merchantID then []
          else (case Transaction_Refund amount (xNow x) fresh of
                  Inl err \<Rightarrow> [refund_moved_on_line txID ref amount err]
                | Inr _ \<Rightarrow> []))"

definition done_log :: "(transaction \<Rightarrow> log_line) \<Rightarrow> transaction result \<Rightarrow> log_line list" where
  "done_log line res = (case res of Inl err \<Rightarrow> [] | Inr out \<Rightarrow> [line out])"

definition Payment_Capture_log ::
  "int \<Rightarrow> acquirer_port \<Rightarrow> pre_env \<Rightarrow> tx_env \<Rightarrow> uuid \<Rightarrow> uuid \<Rightarrow> Amount \<Rightarrow> db \<Rightarrow> log_line list" where
  "Payment_Capture_log feeBPS acq p x merchantID txID amount d =
     (case GetByMerchantAndID (pGet p) merchantID txID d of
        Inl err \<Rightarrow> []
      | Inr txn \<Rightarrow>
          (let amount = (if amount = 0 then RemainingCapturable txn else amount)
           in case Transaction_Capture amount (pNow p) txn of
                Inl err \<Rightarrow> []
              | Inr _ \<Rightarrow>
                  (case acqCapture acq (tAcquirerRef txn) amount of
                     Inl err \<Rightarrow> []
                   | Inr capRes \<Rightarrow>
                       tx_log x (capture_body_log x merchantID txID capRes amount (pGap p d))
                       @ done_log (captured_line feeBPS amount)
                           (fst (WithTx (xTx x) (capture_body feeBPS x merchantID txID amount) (pGap p d))))))"

definition Payment_Refund_log ::
  "acquirer_port \<Rightarrow> pre_env \<Rightarrow> tx_env \<Rightarrow> uuid \<Rightarrow> uuid \<Rightarrow> Amount \<Rightarrow> db \<Rightarrow> log_line list" where
  "Payment_Refund_log acq p x merchantID txID amount d =
     (case GetByMerchantAndID (pGet p) merchantID txID d of
        Inl err \<Rightarrow> []
      | Inr txn \<Rightarrow>
          (let amount = (if amount = 0 then RemainingRefundable txn else amount)
           in case Transaction_Refund amount (pNow p) txn of
                Inl err \<Rightarrow> []
              | Inr _ \<Rightarrow>
                  (case acqRefund acq (tAcquirerRef txn) amount of
                     Inl err \<Rightarrow> []
                   | Inr refundRes \<Rightarrow>
                       tx_log x (refund_body_log x merchantID txID refundRes amount (pGap p d))
                       @ done_log (refunded_line amount)
                           (fst (WithTx (xTx x) (refund_body x merchantID txID amount) (pGap p d))))))"

definition Payment_Void_log ::
  "acquirer_port \<Rightarrow> pre_env \<Rightarrow> tx_env \<Rightarrow> uuid \<Rightarrow> uuid \<Rightarrow> db \<Rightarrow> log_line list" where
  "Payment_Void_log acq p x merchantID txID d = done_log voided_line (fst (Payment_Void acq p x merchantID txID d))"

section \<open>Authorizations\<close>

text \<open>A row that was not just created is one that is resumed.\<close>

definition obtain_row_log :: "auth_env \<Rightarrow> AuthorizeInput \<Rightarrow> transaction \<Rightarrow> db \<Rightarrow> log_line list" where
  "obtain_row_log a inp txn d =
     (case TransactionRepo_Create (aCreate a) txn d of
        Inr d' \<Rightarrow> []
      | Inl err \<Rightarrow> done_log resuming_line (fst (obtain_row a inp txn d)))"

definition Payment_Authorize_log ::
  "int \<Rightarrow> acquirer_port \<Rightarrow> auth_env \<Rightarrow> tx_env \<Rightarrow> pre_env \<Rightarrow> tx_env \<Rightarrow> AuthorizeInput \<Rightarrow> db \<Rightarrow> log_line list" where
  "Payment_Authorize_log feeBPS acq a x p xc inp d =
     (case NewTransaction (aID a) (aiMerchantID inp) (aiReference inp) (aiAmount inp)
             (aiCurrency inp) (aiMetadata inp) (aNow a) of
        Inl err \<Rightarrow> []
      | Inr txn \<Rightarrow> obtain_row_log a inp txn d @
          (case obtain_row a inp txn d of
             (Inl err, d) \<Rightarrow> []
           | (Inr txn, d) \<Rightarrow>
               (let d = aGap a d
                in case acqAuthorize acq \<lparr> arTransactionID = tID txn, arAmount = tAmount txn,
                          arCurrency = tCurrency txn, arCard = aiCard inp \<rparr> of
                     Inl acqErr \<Rightarrow>
                       (if as_DeclinedError acqErr = None \<and> errors_Is acqErr ErrAcquirerUnavailable
                        then [unknown_line txn acqErr] else [])
                   | Inr authRes \<Rightarrow>
                       (case WithTx (xTx x) (authorize_body x (tID txn) authRes) d of
                          (Inl err, d) \<Rightarrow> []
                        | (Inr txn, d) \<Rightarrow> authorized_line txn #
                            (if \<not> aiCapture inp then []
                             else Payment_Capture_log feeBPS acq p xc (tMerchantID txn) (tID txn) (tAmount txn) (aCaptureGap a d)
                               @ (case Payment_Capture feeBPS acq p xc (tMerchantID txn) (tID txn) (tAmount txn) (aCaptureGap a d) of
                                    (Inl err, d) \<Rightarrow> [auto_capture_line txn err]
                                  | (Inr captured, d) \<Rightarrow> []))))))"

section \<open>The guard around the processor\<close>

fun state_string :: "State \<Rightarrow> string" where
  "state_string StateClosed = ''closed''"
| "state_string StateOpen = ''open''"
| "state_string StateHalfOpen = ''half_open''"

definition rejected_line :: "string \<Rightarrow> log_line" where
  "rejected_line op = \<lparr> llLevel = LevelWarn, llMessage = ''acquirer call rejected by circuit breaker'',
     llAttrs = [(''op'', AString op)] \<rparr>"

definition call_line :: "string \<Rightarrow> duration \<Rightarrow> State \<Rightarrow> bool \<Rightarrow> log_line" where
  "call_line op elapsed state ok = \<lparr> llLevel = LevelDebug, llMessage = ''acquirer call'',
     llAttrs = [(''op'', AString op), (''duration_ms'', AInt (elapsed sdiv 1000000)),
       (''breaker'', AString (state_string state)), (''ok'', ABool ok)] \<rparr>"

text \<open>\<open>elapsed\<close> is what the clock measures of the call.\<close>

definition guarded_log ::
  "string \<Rightarrow> duration \<Rightarrow> call_times \<Rightarrow> duration \<Rightarrow> (ctx \<Rightarrow> 's \<Rightarrow> ('a result \<times> 's) option) \<Rightarrow> ctx \<Rightarrow> breaker \<times> 's
     \<Rightarrow> log_line list" where
  "guarded_log op timeout ts elapsed fn c w =
     (case Allow (ctAllow ts) (fst w) of
        (Some err, b) \<Rightarrow> [rejected_line op]
      | (None, b) \<Rightarrow>
          (case fn (WithTimeout timeout c) (snd w) of
             None \<Rightarrow> []
           | Some (res, s) \<Rightarrow>
               [call_line op elapsed (fst (Breaker_State (ctLog ts) (record_outcome (ctOutcome ts) res b))) (\<not> isl res)]))"

section \<open>The rows of registered merchants\<close>

definition owners_known :: "db \<Rightarrow> bool" where
  "owners_known d \<longleftrightarrow> tMerchantID ` set (dbTransactions d) \<subseteq> mID ` set (dbMerchants d)"

lemma row_commit_owners:
  assumes "row_commit i oper es event t' d d'" and "lifecycle_operation oper" and "owners_known d"
  shows "owners_known d'"
proof -
  from assms(1) obtain r u now where r: "row_of i d = Some r" "oper r = Inr u"
    and t': "t' = u\<lparr> tVersion := tVersion u + 1, tUpdatedAt := now \<rparr>"
    and d': "dbTransactions d' = dbTransactions (set_row t' d)" "dbMerchants d' = dbMerchants d"
    by (auto simp: row_commit_def)
  have "tMerchantID t' = tMerchantID r"
    using lifecycle_operation.oper_identity [OF assms(2) r(2)] t' by (simp add: same_identity_def)
  then show ?thesis using assms(3) d' row_of_Some [OF r(1)] by (auto simp: owners_known_def set_row_def)
qed

lemma gw_step_owners:
  assumes "gw_step fee d d'" and "gw_inv fee d" and own: "owners_known d"
  shows "owners_known d'"
  using assms(2,1)
proof (cases rule: gw_step_kinds)
  case (created t f)
  then have "dbTransactions d' = dbTransactions d @ [inserted_row t]" "dbMerchants d' = dbMerchants d"
    "tMerchantID t \<in> mID ` set (dbMerchants d)"
    by (force simp: TransactionRepo_Create_def list_ex_iff split: option.splits if_splits)+
  then show ?thesis using own by (simp add: owners_known_def inserted_row_def)
next
  case (committed i oper es event t')
  then show ?thesis using row_commit_owners own by blast
next
  case other
  then show ?thesis using own by (auto simp: owners_known_def)
qed

interpretation owned: invariant_system gw_start "gw_step fee" "\<lambda>d. gw_inv fee d \<and> owners_known d" for fee
  by unfold_locales (use gw_step_inv gw_step_owners gw_start_inv in \<open>auto simp: owners_known_def gw_start_def\<close>)

section \<open>What nothing stops is booked\<close>

text \<open>No fault of the driver, payloads that can be rendered, and a fresh identifier for the notification.\<close>

definition calm :: "tx_env \<Rightarrow> db \<Rightarrow> bool" where
  "calm x d \<longleftrightarrow> fBegin (xTx x) = None \<and> fCommit (xTx x) = None \<and> xGet x = None \<and> xUpdate x = None
     \<and> xLedger x = (\<lambda>_. None) \<and> xWebhook x = None \<and> (\<forall>pl. \<exists>b. xMarshal x pl = Inr b)
     \<and> xDeliveryID x \<notin> dID ` set (dbWebhooks d)"

lemma calm_get: "calm x d \<Longrightarrow> xGet x = None"
  by (simp add: calm_def)

lemma Update_ok:
  assumes "distinct_rows d" and "row_of i d = Some r" and "same_identity r u" and "wf_txn u" and "tVersion r + 1 < 2 ^ 31"
  shows "\<exists>t' d'. TransactionRepo_Update None now u d = Inr (t', d')"
proof -
  have "updated_row now u r = u\<lparr> tVersion := tVersion u + 1, tUpdatedAt := now \<rparr>" by (rule updated_row_eq [OF assms(3)])
  moreover have "txn_checks u" "Status_Valid (tStatus u)" 
    using assms(4) by (cases "tStatus u"; simp add: txn_checks_def Status_Valid_def wf_txn_def wf_status_def)+
  ultimately have "txn_checks (updated_row now u r)" by (simp add: txn_checks_def)
  moreover have "tID u = i" "tVersion r = tVersion u" using assms(2,3) row_of_key by (fastforce simp: same_identity_def)+
  ultimately show ?thesis using assms(2,5) by (auto simp: TransactionRepo_Update_Inr [OF assms(1)])
qed

lemma queue_ok:
  assumes "calm x d" and "dbWebhooks d' = dbWebhooks d" and "tMerchantID t \<in> mID ` set (dbMerchants d')"
    and "tID t \<in> tID ` set (dbTransactions d')"
  shows "\<exists>d''. queueWebhook x t event d' = Inr d''"
proof -
  obtain b where b: "xMarshal x (event_payload (xEventID x) event t (xPayloadNow x)) = Inr b"
    using assms(1) unfolding calm_def by blast
  have "\<exists>d''. WebhookRepo_Create (xWebhook x)
      (NewWebhookDelivery (xDeliveryID x) (tMerchantID t) (tID t) event b (xQueueNow x)) d' = Inr d''"
    using assms by (force simp: calm_def WebhookRepo_Create_def NewWebhookDelivery_def list_ex_iff)
  with b show ?thesis unfolding queueWebhook_Inr by blast
qed

text \<open>The write of a row, its group and its notification, as capture and refund share it.\<close>

lemma write_ok:
  assumes inv: "gw_inv fee d" "owners_known d" and calm: "calm x d"
    and r: "row_of i d = Some r" "oper r = Inr u" and op: "lifecycle_operation oper" and v: "tVersion r + 1 < 2 ^ 31"
    and grp: "\<And>t. same_identity r (t\<lparr> tVersion := tVersion r \<rparr>) \<Longrightarrow> \<exists>g. build t = Inr g \<and> EntryGroup_Validate g = Inr ()
      \<and> (\<forall>e \<in> set (gEntries g). eTransactionID e = tID t \<and> eMerchantID e = Some (tMerchantID t))"
  shows "\<exists>t d'. andThen (TransactionRepo_Update (xUpdate x) (xDBNow x) u d) (\<lambda>(fresh, d).
     andThen (build fresh) (\<lambda>g. andThen (InsertGroup (xLedger x) g d) (\<lambda>d.
     andThen (queueWebhook x fresh event d) (\<lambda>d. Inr (fresh, d))))) = Inr (t, d')"
proof -
  have sid: "same_identity r u" by (rule lifecycle_operation.oper_identity [OF op r(2)])
  have wf: "wf_txn r" using gw_invD(3) [OF inv(1)] row_of_Some [OF r(1)] by blast
  obtain t d1 where up: "TransactionRepo_Update (xUpdate x) (xDBNow x) u d = Inr (t, d1)"
    using Update_ok [OF gw_invD(1) [OF inv(1)] r(1) sid lifecycle_operation.oper_wf [OF op wf r(2)] v, of "xDBNow x"] calm
    unfolding calm_def by metis
  from Update_row [OF gw_invD(1) [OF inv(1)] r(1) sid up]
  have t: "t = u\<lparr> tVersion := tVersion u + 1, tUpdatedAt := xDBNow x \<rparr>" and d1: "d1 = set_row t d" by auto
  have ids: "same_identity r (t\<lparr> tVersion := tVersion r \<rparr>)" "tID t = i" "tMerchantID t = tMerchantID r"
    using sid t row_of_key [OF r(1)] by (auto simp: same_identity_def)
  obtain g where g: "build t = Inr g" "EntryGroup_Validate g = Inr ()"
    "\<forall>e \<in> set (gEntries g). eTransactionID e = tID t \<and> eMerchantID e = Some (tMerchantID t)"
    using grp [OF ids(1)] by blast
  have rows: "tID t \<in> tID ` set (dbTransactions d1)" "tMerchantID t \<in> mID ` set (dbMerchants d1)"
    using row_of_Some [OF r(1)] ids(2,3) inv(2) by (force simp: d1 set_row_def owners_known_def)+
  obtain d2 where ins: "InsertGroup (xLedger x) g d1 = Inr d2"
    using InsertGroup_ok [OF g(2), of d1] calm g(3) rows
    by (force simp: calm_def entry_refs_def list_ex_iff list_all_iff)
  have "dbWebhooks d2 = dbWebhooks d" using InsertGroup_Inr(5) [OF ins] by (simp add: d1)
  then obtain d3 where "queueWebhook x t event d2 = Inr d3"
    using queue_ok [OF calm, of d2 t event] rows InsertGroup_Inr(3,4) [OF ins] by auto
  then show ?thesis using up g(1) ins by (simp add: andThen_Inr)
qed

lemma capture_body_ok:
  assumes "gw_inv fee d" "owners_known d" "calm x d" and r: "row_of i d = Some r" "tMerchantID r = m"
    and u: "Transaction_Capture a (xNow x) r = Inr u" and v: "tVersion r + 1 < 2 ^ 31"
    and fee: "0 \<le> fee" "fee < 10000" "fee_exact (tAmount r) fee"
  shows "\<exists>t d'. capture_body fee x m i a d = Inr (t, d')"
proof -
  have wf: "wf_txn r" using gw_invD(3) [OF assms(1)] row_of_Some [OF r(1)] by blast
  have a: "0 < a" "a \<le> tAmount r" "in64 a" using u wf_txn_bounds [OF wf] wf by (auto simp: Capture_Inr in64_def)
  have ex: "fee_exact a fee" using fee_exact_mono [OF fee(3) _ a(2) fee(1)] a(1) by simp
  have "\<exists>g. NewCaptureEntryGroup (xGroupID x) t a (Fee a fee) (xNow x) = Inr g" for t
    using a(1) Fee_nonneg [OF ex] Fee_less [OF a(1) fee(2) ex] by (simp add: NewCaptureEntryGroup_Inr [OF a(3)])
  then have "\<exists>g. NewCaptureEntryGroup (xGroupID x) t a (Fee a fee) (xNow x) = Inr g \<and> EntryGroup_Validate g = Inr ()
      \<and> (\<forall>e \<in> set (gEntries g). eTransactionID e = tID t \<and> eMerchantID e = Some (tMerchantID t))" for t
    using NewCaptureEntryGroup_valid by metis
  from write_ok [OF assms(1-3) r(1) u capture_op.lifecycle_operation_axioms v this] show ?thesis
    using r u by (simp add: capture_body_def calm_get [OF assms(3)] GetForUpdate_def scanTransaction_def andThen_def flip: row_of_def)
qed

lemma refund_body_ok:
  assumes "gw_inv fee d" "owners_known d" "calm x d" and r: "row_of i d = Some r" "tMerchantID r = m"
    and u: "Transaction_Refund a (xNow x) r = Inr u" and v: "tVersion r + 1 < 2 ^ 31"
  shows "\<exists>t d'. refund_body x m i a d = Inr (t, d')"
proof -
  have "0 < a" using u by (auto simp: Refund_Inr)
  then have "\<exists>g. NewRefundEntryGroup (xGroupID x) t a (xNow x) = Inr g \<and> EntryGroup_Validate g = Inr ()
      \<and> (\<forall>e \<in> set (gEntries g). eTransactionID e = tID t \<and> eMerchantID e = Some (tMerchantID t))" for t
    by (simp add: NewRefundEntryGroup_Inr EntryGroup_Validate_iff sound_entry_def)
  from write_ok [OF assms(1-3) r(1) u refund_op.lifecycle_operation_axioms v this] show ?thesis
    using r u by (simp add: refund_body_def calm_get [OF assms(3)] GetForUpdate_def scanTransaction_def andThen_def flip: row_of_def)
qed

text \<open>What a body books of its amount.\<close>

lemma committed_row:
  assumes "row_commit i oper es event t d d'" and "lifecycle_operation oper"
  obtains r u where "row_of i d = Some r" "oper r = Inr u" "row_of i d' = Some t"
    "tCapturedAmount t = tCapturedAmount u" "tRefundedAmount t = tRefundedAmount u"
proof -
  from assms(1) obtain r u now where r: "row_of i d = Some r" "oper r = Inr u"
    and t: "t = u\<lparr> tVersion := tVersion u + 1, tUpdatedAt := now \<rparr>" "dbTransactions d' = dbTransactions (set_row t d)"
    by (auto simp: row_commit_def)
  have "tID t = i"
    using lifecycle_operation.oper_identity [OF assms(2) r(2)] t(1) row_of_key [OF r(1)] by (simp add: same_identity_def)
  then have "row_of i d' = Some t" using t(2) r(1) row_of_set_row [of i t d] by (simp add: row_of_def)
  with that r t(1) show thesis by simp
qed

lemma row_booked:
  assumes "gw_inv fee d" and "row_of i d = Some r"
  shows "wf_txn r" "captured_in i (dbLedger d) = tCapturedAmount r" "refunded_in i (dbLedger d) = tRefundedAmount r"
  using gw_invD(3,4) [OF assms(1), of r] row_of_Some [OF assms(2)] by (auto simp: booked_def)

lemma capture_books_amount:
  assumes inv: "gw_inv fee d" and b: "capture_body fee x m i a d = Inr (t, d')"
  shows "captured_in i (dbLedger d') = captured_in i (dbLedger d) + a"
proof -
  from capture_commit [OF gw_invD(1) [OF inv] b] obtain es where
    "row_commit i (Transaction_Capture a (xNow x)) es EventPaymentCaptured t d d'" by blast
  then obtain r u where r: "row_of i d = Some r" "Transaction_Capture a (xNow x) r = Inr u" "row_of i d' = Some t"
    "tCapturedAmount t = tCapturedAmount u" by (rule committed_row) (rule capture_op.lifecycle_operation_axioms)
  have "gw_inv fee d'" by (rule gw_step_inv [OF gw_step.capture [OF b] inv])
  then show ?thesis
    using Capture_wf_Inr(1) [OF row_booked(1) [OF inv r(1)] r(2)] r(4) row_booked(2) [OF inv r(1)] row_booked(2) [OF _ r(3)]
    by simp
qed

lemma refund_books_amount:
  assumes inv: "gw_inv fee d" and b: "refund_body x m i a d = Inr (t, d')"
  shows "refunded_in i (dbLedger d') = refunded_in i (dbLedger d) + a"
proof -
  from refund_commit [OF gw_invD(1) [OF inv] b] obtain es where
    "row_commit i (Transaction_Refund a (xNow x)) es EventPaymentRefunded t d d'" by blast
  then obtain r u where r: "row_of i d = Some r" "Transaction_Refund a (xNow x) r = Inr u" "row_of i d' = Some t"
    "tRefundedAmount t = tRefundedAmount u" by (rule committed_row) (rule refund_op.lifecycle_operation_axioms)
  have "gw_inv fee d'" by (rule gw_step_inv [OF gw_step.refund [OF b] inv])
  then show ?thesis
    using Refund_wf_Inr(1) [OF row_booked(1) [OF inv r(1)] r(2)] r(4) row_booked(3) [OF inv r(1)] row_booked(3) [OF _ r(3)]
    by simp
qed

section \<open>Money that the processor has moved\<close>

text \<open>The processor's reference and the amount, if it was asked for the capture and made it.\<close>

definition capture_taken :: "acquirer_port \<Rightarrow> pre_env \<Rightarrow> uuid \<Rightarrow> uuid \<Rightarrow> Amount \<Rightarrow> db \<Rightarrow> (string \<times> Amount) option" where
  "capture_taken acq p merchantID txID amount d =
     (case GetByMerchantAndID (pGet p) merchantID txID d of
        Inl err \<Rightarrow> None
      | Inr txn \<Rightarrow>
          (let amount = (if amount = 0 then RemainingCapturable txn else amount)
           in case Transaction_Capture amount (pNow p) txn of
                Inl err \<Rightarrow> None
              | Inr _ \<Rightarrow>
                  (case acqCapture acq (tAcquirerRef txn) amount of Inl err \<Rightarrow> None | Inr ref \<Rightarrow> Some (ref, amount))))"

definition refund_taken :: "acquirer_port \<Rightarrow> pre_env \<Rightarrow> uuid \<Rightarrow> uuid \<Rightarrow> Amount \<Rightarrow> db \<Rightarrow> (string \<times> Amount) option" where
  "refund_taken acq p merchantID txID amount d =
     (case GetByMerchantAndID (pGet p) merchantID txID d of
        Inl err \<Rightarrow> None
      | Inr txn \<Rightarrow>
          (let amount = (if amount = 0 then RemainingRefundable txn else amount)
           in case Transaction_Refund amount (pNow p) txn of
                Inl err \<Rightarrow> None
              | Inr _ \<Rightarrow>
                  (case acqRefund acq (tAcquirerRef txn) amount of Inl err \<Rightarrow> None | Inr ref \<Rightarrow> Some (ref, amount))))"

lemma capture_takenD:
  assumes "capture_taken acq p m i amount d = Some (ref, a)"
  shows "Payment_Capture fee acq p x m i amount d = WithTx (xTx x) (capture_body fee x m i a) (pGap p d)"
    "Payment_Capture_log fee acq p x m i amount d = tx_log x (capture_body_log x m i ref a (pGap p d))
       @ done_log (captured_line fee a) (fst (WithTx (xTx x) (capture_body fee x m i a) (pGap p d)))"
    "\<exists>txn. GetByMerchantAndID (pGet p) m i d = Inr txn"
  using assms by (auto simp: capture_taken_def Payment_Capture_def Payment_Capture_log_def Let_def split: sum.splits)

lemma refund_takenD:
  assumes "refund_taken acq p m i amount d = Some (ref, a)"
  shows "Payment_Refund acq p x m i amount d = WithTx (xTx x) (refund_body x m i a) (pGap p d)"
    "Payment_Refund_log acq p x m i amount d = tx_log x (refund_body_log x m i ref a (pGap p d))
       @ done_log (refunded_line a) (fst (WithTx (xTx x) (refund_body x m i a) (pGap p d)))"
    "\<exists>txn. GetByMerchantAndID (pGet p) m i d = Inr txn"
  using assms by (auto simp: refund_taken_def Payment_Refund_def Payment_Refund_log_def Let_def split: sum.splits)

lemma calm_tx:
  assumes "calm x d"
  shows "WithTx (xTx x) fn d = (case fn d of Inl err \<Rightarrow> (Inl err, d) | Inr (r, d') \<Rightarrow> (Inr r, d'))"
    and "tx_log x ls = ls" and "GetForUpdate (xGet x) i d = GetForUpdate None i d"
  using assms by (auto simp: calm_def WithTx_def tx_log_def split: sum.splits)

lemma get_row: "row_of i d = Some r \<Longrightarrow> GetForUpdate None i d = Inr r"
  by (simp add: GetForUpdate_Inr)

text \<open>The row found after the answer of the processor is the one asked for before.\<close>

lemma found_row:
  assumes "gw_start d0" "(gw_step fee)\<^sup>*\<^sup>* d0 d" "(gw_step fee)\<^sup>*\<^sup>* d d'"
    and "row_of i d' = Some r" and "GetByMerchantAndID f m i d = Inr txn"
  shows "gw_inv fee d'" "owners_known d'" "tMerchantID r = m"
proof -
  have inv: "gw_inv fee d" using owned.reachable_inv [OF assms(1,2)] by blast
  show "gw_inv fee d'" "owners_known d'" using owned.reachable_inv [OF assms(1) rtranclp_trans [OF assms(2,3)]] by auto
  show "tMerchantID r = m"
    using assms(5) gw_run_progress [OF assms(3) inv, of i txn] assms(4)
    by (auto simp: GetByMerchantAndID_Inr [OF gw_invD(1) [OF inv]] progress_def same_identity_def)
qed

lemma taken_capture:
  assumes inv: "gw_inv fee (pGap p d)" "owners_known (pGap p d)" and calm: "calm x (pGap p d)"
    and row: "row_of i (pGap p d) = Some r" "tMerchantID r = m" "tVersion r + 1 < 2 ^ 31"
    and fee: "0 \<le> fee" "fee < 10000" "fee_exact (tAmount r) fee"
    and taken: "capture_taken acq p m i amount d = Some (ref, a)"
  shows "(\<exists>t d'. Payment_Capture fee acq p x m i amount d = (Inr t, d')
       \<and> captured_in i (dbLedger d') = captured_in i (dbLedger (pGap p d)) + a)
    \<or> (\<exists>err. Payment_Capture fee acq p x m i amount d = (Inl err, pGap p d)
       \<and> capture_moved_on_line i ref a (tStatus r) err \<in> set (emitted h (Payment_Capture_log fee acq p x m i amount d)))"
proof (cases "Transaction_Capture a (xNow x) r")
  case (Inl err)
  then have "capture_body fee x m i a (pGap p d) = Inl err"
    "capture_body_log x m i ref a (pGap p d) = [capture_moved_on_line i ref a (tStatus r) err]"
    using calm_tx [OF calm] get_row [OF row(1)] row(2) by (simp_all add: capture_body_def capture_body_log_def andThen_def)
  then show ?thesis unfolding capture_takenD [OF taken]
    by (auto simp: calm_tx [OF calm] capture_moved_on_line_def intro!: emitted_error)
next
  case (Inr u)
  from capture_body_ok [OF inv calm row(1,2) Inr row(3) fee] obtain t d' where
    b: "capture_body fee x m i a (pGap p d) = Inr (t, d')" by blast
  then show ?thesis unfolding capture_takenD(1) [OF taken]
    using capture_books_amount [OF inv(1) b] by (simp add: calm_tx [OF calm])
qed

lemma taken_refund:
  assumes inv: "gw_inv fee (pGap p d)" "owners_known (pGap p d)" and calm: "calm x (pGap p d)"
    and row: "row_of i (pGap p d) = Some r" "tMerchantID r = m" "tVersion r + 1 < 2 ^ 31"
    and taken: "refund_taken acq p m i amount d = Some (ref, a)"
  shows "(\<exists>t d'. Payment_Refund acq p x m i amount d = (Inr t, d')
       \<and> refunded_in i (dbLedger d') = refunded_in i (dbLedger (pGap p d)) + a)
    \<or> (\<exists>err. Payment_Refund acq p x m i amount d = (Inl err, pGap p d)
       \<and> refund_moved_on_line i ref a err \<in> set (emitted h (Payment_Refund_log acq p x m i amount d)))"
proof (cases "Transaction_Refund a (xNow x) r")
  case (Inl err)
  then have "refund_body x m i a (pGap p d) = Inl err"
    "refund_body_log x m i ref a (pGap p d) = [refund_moved_on_line i ref a err]"
    using calm_tx [OF calm] get_row [OF row(1)] row(2) by (simp_all add: refund_body_def refund_body_log_def andThen_def)
  then show ?thesis unfolding refund_takenD [OF taken]
    by (auto simp: calm_tx [OF calm] refund_moved_on_line_def intro!: emitted_error)
next
  case (Inr u)
  from refund_body_ok [OF inv calm row(1,2) Inr row(3)] obtain t d' where
    b: "refund_body x m i a (pGap p d) = Inr (t, d')" by blast
  then show ?thesis unfolding refund_takenD(1) [OF taken]
    using refund_books_amount [OF inv(1) b] by (simp add: calm_tx [OF calm])
qed

text \<open>
  C7. Money the processor has moved is booked or called for. When the processor has made a
  capture and the database is at work, one of two things happens, whatever other sessions did
  meanwhile: the capture succeeds and the journal books exactly the amount the processor took; or
  the transaction has moved on, nothing is written, and the log, at every level it can be set to,
  has the line that requires manual reconciliation, with the processor's reference, the amount
  and the status found. The same holds of refunds.
\<close>

theorem moved_money_booked_or_reported:
  assumes reach: "gw_start d0" "(gw_step fee)\<^sup>*\<^sup>* d0 d" "gap_ok fee (pGap p)"
    and calm: "calm x (pGap p d)" and row: "row_of i (pGap p d) = Some r" "tVersion r + 1 < 2 ^ 31"
    and fee: "0 \<le> fee" "fee < 10000" "fee_exact (tAmount r) fee"
  shows "(\<forall>ref a. capture_taken acq p m i amount d = Some (ref, a) \<longrightarrow>
      (\<exists>t d'. Payment_Capture fee acq p x m i amount d = (Inr t, d')
         \<and> captured_in i (dbLedger d') = captured_in i (dbLedger (pGap p d)) + a)
      \<or> (\<exists>err. Payment_Capture fee acq p x m i amount d = (Inl err, pGap p d)
         \<and> capture_moved_on_line i ref a (tStatus r) err
             \<in> set (emitted (NewLogger level env) (Payment_Capture_log fee acq p x m i amount d))))
    \<and> (\<forall>ref a. refund_taken acq p m i amount d = Some (ref, a) \<longrightarrow>
      (\<exists>t d'. Payment_Refund acq p x m i amount d = (Inr t, d')
         \<and> refunded_in i (dbLedger d') = refunded_in i (dbLedger (pGap p d)) + a)
      \<or> (\<exists>err. Payment_Refund acq p x m i amount d = (Inl err, pGap p d)
         \<and> refund_moved_on_line i ref a err
             \<in> set (emitted (NewLogger level env) (Payment_Refund_log acq p x m i amount d))))"
proof -
  have run: "(gw_step fee)\<^sup>*\<^sup>* d (pGap p d)" using reach(3) by (simp add: gap_ok_def)
  note found = found_row [OF reach(1,2) run row(1)]
  show ?thesis
  proof (intro conjI allI impI)
    fix ref a assume taken: "capture_taken acq p m i amount d = Some (ref, a)"
    then obtain txn where "GetByMerchantAndID (pGet p) m i d = Inr txn" using capture_takenD(3) by blast
    note f = found [OF this]
    show "(\<exists>t d'. Payment_Capture fee acq p x m i amount d = (Inr t, d')
         \<and> captured_in i (dbLedger d') = captured_in i (dbLedger (pGap p d)) + a)
      \<or> (\<exists>err. Payment_Capture fee acq p x m i amount d = (Inl err, pGap p d)
         \<and> capture_moved_on_line i ref a (tStatus r) err
             \<in> set (emitted (NewLogger level env) (Payment_Capture_log fee acq p x m i amount d)))"
      by (rule taken_capture [OF f(1,2) calm row(1) f(3) row(2) fee taken])
  next
    fix ref a assume taken: "refund_taken acq p m i amount d = Some (ref, a)"
    then obtain txn where "GetByMerchantAndID (pGet p) m i d = Inr txn" using refund_takenD(3) by blast
    note f = found [OF this]
    show "(\<exists>t d'. Payment_Refund acq p x m i amount d = (Inr t, d')
         \<and> refunded_in i (dbLedger d') = refunded_in i (dbLedger (pGap p d)) + a)
      \<or> (\<exists>err. Payment_Refund acq p x m i amount d = (Inl err, pGap p d)
         \<and> refund_moved_on_line i ref a err
             \<in> set (emitted (NewLogger level env) (Payment_Refund_log acq p x m i amount d)))"
      by (rule taken_refund [OF f(1,2) calm row(1) f(3) row(2) taken])
  qed
qed

text \<open>A second capture, during whose call to the processor another one has taken everything.\<close>

definition demo_overtaken :: pre_env where
  "demo_overtaken = \<lparr> pGet = None, pNow = 11, pGap = (\<lambda>d. snd (Payment_Capture 200 demo_acq (demo_pre 11) (demo_tx ''2'' 12)
     ''m1'' ''t1'' 0 d)) \<rparr>"

lemma demo_overtaken: "pGap demo_overtaken demo_authorized = demo_captured" "gap_ok 200 (pGap demo_overtaken)"
  using Payment_Capture_run [of 200 "demo_pre 11"]
  by (simp_all add: demo_overtaken_def demo_captured_def gap_ok_def) (simp add: demo_pre_def)

theorem moved_money_booked_or_reported_witness:
  "\<exists>err. capture_moved_on_line ''t1'' ''cap_1'' 150000 StatusCaptured err
     \<in> set (emitted (NewLogger ''error'' ''production'')
         (Payment_Capture_log 200 demo_acq demo_overtaken (demo_tx ''3'' 13) ''m1'' ''t1'' 0 demo_authorized))"
proof -
  let ?x = "demo_tx ''3'' 13"
  have "map_option (\<lambda>r. (tStatus r, tVersion r, tAmount r, tCapturedAmount r)) (row_of ''t1'' demo_captured)
      = Some (StatusCaptured, 2, 150000, 150000)"
    by code_simp
  then obtain r where r: "row_of ''t1'' demo_captured = Some r" "tStatus r = StatusCaptured" "tVersion r = 2"
    "tAmount r = 150000" "tCapturedAmount r = 150000" by auto
  have "map dID (dbWebhooks demo_captured) = [''w1'', ''w2'']" by code_simp
  then have "''w3'' \<notin> dID ` set (dbWebhooks demo_captured)" unfolding set_map [symmetric] by simp
  then have calm: "calm ?x (pGap demo_overtaken demo_authorized)"
    unfolding demo_overtaken by (simp add: calm_def demo_tx_def no_tx_faults_def)
  have taken: "capture_taken demo_acq demo_overtaken ''m1'' ''t1'' 0 demo_authorized = Some (''cap_1'', 150000)" by code_simp
  have "Transaction_Capture 150000 now r \<noteq> Inr u" for now u
    using row_booked(1) [OF demo_inv(2) r(1)] r(4,5) by (auto simp: Capture_Inr)
  then have "\<nexists>t d'. Payment_Capture 200 demo_acq demo_overtaken ?x ''m1'' ''t1'' 0 demo_authorized = (Inr t, d')"
    unfolding capture_takenD(1) [OF taken] demo_overtaken
    by (auto simp: WithTx_Inr capture_body_def andThen_Inr GetForUpdate_Inr r(1) demo_tx_def split: if_splits)
  with moved_money_booked_or_reported [OF demo_start_ok demo_authorized_run demo_overtaken(2) calm, unfolded demo_overtaken,
      OF r(1), of demo_acq "''m1''" 0 "''error''" "''production''"] taken r(2-4)
  show ?thesis by (auto simp: fee_exact_def in64_def)
qed

text \<open>
  A void that the processor has made while the transaction was captured is refused without a line:
  the hold is gone, the books say that the money was captured, and nothing asks for a
  reconciliation.
\<close>

lemma lost_void_is_silent:
  "acqVoid demo_acq ref = Inr ''void_1''
   \<and> isl (fst (Payment_Void demo_acq demo_overtaken (demo_tx ''3'' 13) ''m1'' ''t1'' demo_authorized))
   \<and> Payment_Void_log demo_acq demo_overtaken (demo_tx ''3'' 13) ''m1'' ''t1'' demo_authorized = []
   \<and> captured_in ''t1'' (dbLedger (snd (Payment_Void demo_acq demo_overtaken (demo_tx ''3'' 13) ''m1'' ''t1'' demo_authorized))) = 150000"
proof -
  have "isl (fst (Payment_Void demo_acq demo_overtaken (demo_tx ''3'' 13) ''m1'' ''t1'' demo_authorized))" by code_simp
  moreover have "captured_in ''t1'' (dbLedger (snd (Payment_Void demo_acq demo_overtaken (demo_tx ''3'' 13) ''m1'' ''t1''
      demo_authorized))) = 150000" by code_simp
  moreover have "acqVoid demo_acq ref = Inr ''void_1''" by (simp add: demo_acq_def)
  ultimately show ?thesis by (auto simp: Payment_Void_log_def done_log_def isl_def)
qed

end
