(* ===== verification/Cards.thy ===== *)
theory Cards
  imports Payment_Log
begin

text \<open>
  What the gateway keeps of a card. The payment service is put together with the processor that
  \<open>internal/app/app.go\<close> gives it, the guarded simulator, and an authorization is compared on two
  cards: the number and the security code reach the checks of the processor and nothing else.
\<close>

section \<open>The processor the service is built with\<close>

text \<open>
  The circumstances of one call: the caller's context, the readings of the clock, the fresh
  identifier, and the breaker and the generator as other calls have left them.
\<close>

record 'g call_env =
  clCtx :: ctx
  clTimes :: call_times
  clRef :: uuid
  clState :: "breaker \<times> 'g"

text \<open>The answer of a call. A guarded call always answers (\<open>guarded_calls_answer\<close>).\<close>

definition answer_of :: "('a result \<times> 'w) option \<Rightarrow> 'a result" where
  "answer_of r = (case r of Some (res, w) \<Rightarrow> res | None \<Rightarrow> Inl (Opaque ''no answer''))"

record 'g port_env =
  poAuthorize :: "'g call_env"
  poCapture :: "'g call_env"
  poRefund :: "'g call_env"
  poVoid :: "'g call_env"

definition guarded_port :: "'g rand_source \<Rightarrow> AcquirerConfig \<Rightarrow> 'g port_env \<Rightarrow> acquirer_port" where
  "guarded_port rs cfg e =
     \<lparr> acqAuthorize = (\<lambda>req. let c = poAuthorize e in answer_of
         (Guarded_Authorize (acTimeout cfg) (clTimes c) (Mock_Authorize rs cfg (clRef c)) req (clCtx c) (clState c))),
       acqCapture = (\<lambda>ref amount. let c = poCapture e in answer_of
         (Guarded_Capture (acTimeout cfg) (clTimes c) (Mock_Capture rs cfg (clRef c)) ref amount (clCtx c) (clState c))),
       acqRefund = (\<lambda>ref amount. let c = poRefund e in answer_of
         (Guarded_Refund (acTimeout cfg) (clTimes c) (Mock_Refund rs cfg (clRef c)) ref amount (clCtx c) (clState c))),
       acqVoid = (\<lambda>ref. let c = poVoid e in answer_of
         (Guarded_Void (acTimeout cfg) (clTimes c) (Mock_Void rs cfg (clRef c)) ref (clCtx c) (clState c))) \<rparr>"

text \<open>What the guard logs of an authorization; \<open>elapsed\<close> is the time the call took.\<close>

definition authorize_call_log ::
  "'g rand_source \<Rightarrow> AcquirerConfig \<Rightarrow> duration \<Rightarrow> 'g call_env \<Rightarrow> AuthorizeRequest \<Rightarrow> log_line list" where
  "authorize_call_log rs cfg elapsed c req =
     guarded_log ''authorize'' (acTimeout cfg) (clTimes c) elapsed (Mock_Authorize rs cfg (clRef c) req) (clCtx c) (clState c)"

section \<open>Cards that the gateway cannot tell apart\<close>

text \<open>The same verdict of the checks, the same last four digits and the same network.\<close>

definition alike :: "Card \<Rightarrow> Card \<Rightarrow> bool" where
  "alike c c' \<longleftrightarrow> validateCard c = validateCard c' \<and> last4 (cNumber c) = last4 (cNumber c')
     \<and> brandOf (cNumber c) = brandOf (cNumber c')"

lemma Mock_Authorize_alike:
  assumes "alike c c'"
  shows "Mock_Authorize rs cfg u (req\<lparr> arCard := c \<rparr>) = Mock_Authorize rs cfg u (req\<lparr> arCard := c' \<rparr>)"
  using assms by (intro ext, cases "validateCard c'")
    (auto simp: Mock_Authorize_def alike_def split: option.split sum.split)

lemma guarded_port_alike:
  assumes "alike c c'"
  shows "acqAuthorize (guarded_port rs cfg e) \<lparr> arTransactionID = i, arAmount = n, arCurrency = cur, arCard = c \<rparr>
    = acqAuthorize (guarded_port rs cfg e) \<lparr> arTransactionID = i, arAmount = n, arCurrency = cur, arCard = c' \<rparr>"
  using Mock_Authorize_alike [OF assms, of rs cfg "clRef (poAuthorize e)"
      "\<lparr> arTransactionID = i, arAmount = n, arCurrency = cur, arCard = c \<rparr>"]
  by (simp add: guarded_port_def Guarded_Authorize_def Let_def)

lemma obtain_row_card: "obtain_row a (inp\<lparr> aiCard := c \<rparr>) txn d = obtain_row a inp txn d"
  by (simp add: obtain_row_def Let_def cong: sum.case_cong if_cong)

lemma obtain_row_log_card: "obtain_row_log a (inp\<lparr> aiCard := c \<rparr>) txn d = obtain_row_log a inp txn d"
  by (simp add: obtain_row_log_def obtain_row_card cong: sum.case_cong)

lemma authorize_call_log_alike:
  assumes "alike c c'"
  shows "authorize_call_log rs cfg elapsed ce (req\<lparr> arCard := c \<rparr>) = authorize_call_log rs cfg elapsed ce (req\<lparr> arCard := c' \<rparr>)"
  by (simp only: authorize_call_log_def Mock_Authorize_alike [OF assms])


text \<open>Two numbers with the same last digits and network, and different security codes.\<close>

definition demo_call :: "uuid \<Rightarrow> unit call_env" where
  "demo_call u = \<lparr> clCtx = \<lparr> ctxRemaining = None, ctxErr = Sentinel ContextCanceled \<rparr>,
     clTimes = \<lparr> ctAllow = 6, ctOutcome = 7, ctLog = 8 \<rparr>, clRef = u, clState = (NewBreaker 3 10, ()) \<rparr>"

definition demo_port :: acquirer_port where
  "demo_port = guarded_port demo_rand demo_acq_cfg \<lparr> poAuthorize = demo_call ''a'', poCapture = demo_call ''c'',
     poRefund = demo_call ''r'', poVoid = demo_call ''v'' \<rparr>"

definition demo_other_card :: Card where
  "demo_other_card = \<lparr> cNumber = ''4111111111094242'', cExpMonth = 7, cExpYear = 2031, cCVV = ''9876'' \<rparr>"

lemma demo_alike: "alike (demo_card ''4242424242424242'') demo_other_card"
  by (simp add: alike_def validateCard_def demo_card_def demo_other_card_def is_digit_def luhn_def last4_def
      brandOf_def HasPrefix_def)

lemma demo_port_answers:
  "map_option tStatus (fst (fst (Payment_Authorize 200 demo_port demo_auth (demo_tx ''1'' 10) (demo_pre 11) (demo_tx ''2'' 12)
     (demo_in False) demo_start))) = Some StatusAuthorized"
  by code_simp


end
