(* ===== verification/Logging.thy ===== *)
theory Logging
  imports Settlement Logger
begin

text \<open>
  What a run of the reconciliation writes to the process logger. The order of the lines over
  merchants is that of a Go map, any order; the model takes the order in which they appear.
\<close>

section \<open>The lines of a run\<close>

definition unbalanced_line :: "UnbalancedGroup \<Rightarrow> log_line" where
  "unbalanced_line g = \<lparr> llLevel = LevelError, llMessage = ''unbalanced ledger entry group'',
     llAttrs = [(''entry_group_id'', AString (ugEntryGroupID g)), (''debits'', AInt (ugDebits g)),
       (''credits'', AInt (ugCredits g))] \<rparr>"

definition discrepancy_line :: "Discrepancy \<Rightarrow> log_line" where
  "discrepancy_line d = \<lparr> llLevel = LevelError, llMessage = ''reconciliation discrepancy'',
     llAttrs = [(''merchant_id'', AString (dcMerchantID d)), (''field'', AString (dcField d)),
       (''expected_from_transactions'', AInt (dcExpected d)), (''actual_from_ledger'', AInt (dcActual d))] \<rparr>"

definition offending_line :: "transaction \<Rightarrow> log_line" where
  "offending_line t = \<lparr> llLevel = LevelError, llMessage = ''transaction in unreconciled merchant'',
     llAttrs = [(''transaction_id'', AString (tID t)), (''merchant_id'', AString (tMerchantID t)),
       (''status'', AString (status_string (tStatus t))), (''captured_amount'', AInt (tCapturedAmount t)),
       (''refunded_amount'', AInt (tRefundedAmount t))] \<rparr>"

text \<open>\<open>byMerchant\<close>: the transactions of the day by merchant and currency.\<close>

definition by_merchant :: "transaction list \<Rightarrow> (reconKey \<times> transaction list) list" where
  "by_merchant txns = map (\<lambda>k. (k, filter (\<lambda>t. txn_key t = k) txns)) (rev (remdups (rev (map txn_key txns))))"

definition logOffendingTransactions :: "Report \<Rightarrow> (reconKey \<times> transaction list) list \<Rightarrow> log_line list" where
  "logOffendingTransactions report byMerchant =
     concat (map (\<lambda>(k, txns). if fst k \<notin> set (map dcMerchantID (rpDiscrepancies report)) then []
       else map offending_line txns) byMerchant)"

definition write_lines :: "write_env \<Rightarrow> Report \<Rightarrow> log_line list" where
  "write_lines e r =
     (if fst (report_write e r Map.empty) \<noteq> None then []
      else [\<lparr> llLevel = LevelInfo, llMessage = ''settlement report written'',
        llAttrs = [(''json'', AString (json_path r)), (''csv'', AString (csv_path r))] \<rparr>])"

definition complete_lines :: "write_env \<Rightarrow> Report \<Rightarrow> log_line list" where
  "complete_lines e r =
     (if fst (report_write e r Map.empty) \<noteq> None then []
      else [\<lparr> llLevel = LevelInfo, llMessage = ''reconciliation complete'',
        llAttrs = [(''date'', AString (rpDate r)), (''transactions'', AInt (rpTransactionCount r)),
          (''settled'', AInt (rpSettledCount r))] \<rparr>])"

text \<open>The branches are those of \<open>Run\<close>.\<close>

definition Run_log :: "int \<Rightarrow> run_env \<Rightarrow> time \<Rightarrow> db \<Rightarrow> log_line list" where
  "Run_log feeBPS e date d =
     (case ListCapturedBetween (rList e) (day_from date) (day_to date) d of
        Inl err \<Rightarrow> []
      | Inr txns \<Rightarrow>
          (let d = rGap1 e d
           in case AggregateByMerchant (rAggregate e) (day_from date) (day_to date) d of
                Inl err \<Rightarrow> []
              | Inr aggregates \<Rightarrow>
                  (let d = rGap2 e d
                   in case FindUnbalancedGroups (rUnbalanced e) d of
                        Inl err \<Rightarrow> []
                      | Inr unbalanced \<Rightarrow>
                          (let r = build_report feeBPS date (rNow e) txns aggregates unbalanced
                           in map unbalanced_line unbalanced @
                             (if \<not> Report_OK r then
                                map discrepancy_line (rpDiscrepancies r) @ logOffendingTransactions r (by_merchant txns)
                                @ write_lines (rWrite e) (r\<lparr> rpSettlementSkipped := True \<rparr>)
                              else
                                (case settle feeBPS (rSettle e) (rSettleGap e) txns d of
                                   ((settled, Some err), d) \<Rightarrow> []
                                 | ((settled, None), d) \<Rightarrow>
                                     write_lines (rWrite e) (r\<lparr> rpSettledCount := settled \<rparr>)
                                     @ complete_lines (rWrite e) (r\<lparr> rpSettledCount := settled \<rparr>)))))))"

section \<open>A day that does not reconcile is never passed over in silence\<close>

lemma offending_lines:
  "set (logOffendingTransactions r (by_merchant txns))
    = offending_line ` {t \<in> set txns. tMerchantID t \<in> dcMerchantID ` set (rpDiscrepancies r)}"
  by (force simp: logOffendingTransactions_def by_merchant_def txn_key_def)

lemma info_lines:
  "l \<in> set (write_lines e r) \<Longrightarrow> llLevel l = LevelInfo" "l \<in> set (complete_lines e r) \<Longrightarrow> llLevel l = LevelInfo"
  by (auto simp: write_lines_def complete_lines_def split: if_splits)

lemma error_lines [simp]:
  "llLevel (unbalanced_line g) = LevelError" "llLevel (discrepancy_line c) = LevelError" "llLevel (offending_line t) = LevelError"
  by (simp_all add: unbalanced_line_def discrepancy_line_def offending_line_def)

text \<open>The cases of a run, with its report and its lines.\<close>

lemma Run_log_cases:
  assumes "Run feeBPS e date d = ((r, err), d')"
  obtains (failed) "r = None" "Run_log feeBPS e date d = []"
  | (refused) txns aggs unb r0 where "ListCapturedBetween (rList e) (day_from date) (day_to date) d = Inr txns"
      "r0 = build_report feeBPS date (rNow e) txns aggs unb" "\<not> Report_OK r0" "r = Some (r0\<lparr> rpSettlementSkipped := True \<rparr>)"
      "Run_log feeBPS e date d = map unbalanced_line unb @ map discrepancy_line (rpDiscrepancies r0)
         @ logOffendingTransactions r0 (by_merchant txns) @ write_lines (rWrite e) (r0\<lparr> rpSettlementSkipped := True \<rparr>)"
  | (settled) r1 where "r = Some r1" "\<not> rpSettlementSkipped r1"
      "\<forall>l \<in> set (Run_log feeBPS e date d). llLevel l = LevelInfo"
proof (cases "ListCapturedBetween (rList e) (day_from date) (day_to date) d")
  case (Inl err1)
  then show thesis using failed assms by (simp add: Run_def Run_log_def)
next
  case txns: (Inr txns)
  show thesis
  proof (cases "AggregateByMerchant (rAggregate e) (day_from date) (day_to date) (rGap1 e d)")
    case (Inl err1)
    then show thesis using failed assms txns by (simp add: Run_def Run_log_def)
  next
    case aggs: (Inr aggs)
    show thesis
    proof (cases "FindUnbalancedGroups (rUnbalanced e) (rGap2 e (rGap1 e d))")
      case (Inl err1)
      then show thesis using failed assms txns aggs by (simp add: Run_def Run_log_def)
    next
      case unb: (Inr unb)
      let ?r = "build_report feeBPS date (rNow e) txns aggs unb"
      show thesis
      proof (cases "Report_OK ?r")
        case False
        then show thesis using refused [OF txns HOL.refl False] assms txns aggs unb
          by (simp add: Run_def Run_log_def Let_def write_result_def)
      next
        case True
        then have "unb = []" by (simp add: Report_OK_def build_report_def Let_def)
        moreover have "\<not> rpSettlementSkipped ?r" by (simp add: build_report_def Let_def)
        ultimately show thesis using assms txns aggs unb True
          by (intro settled [of "the r"])
            (auto simp: Run_def Run_log_def Let_def write_result_def info_lines split: prod.splits option.splits)
      qed
    qed
  qed
qed

text \<open>
  C36. Under every log level and environment the configuration can name, a run of the
  reconciliation prints a line at level error exactly when it refuses to settle the day; and then
  every discrepancy of its report is printed, and every transaction of the day of each merchant
  with a discrepancy.
\<close>

theorem refusals_are_logged:
  assumes "Run feeBPS e date d = ((r, err), d')" and "out = emitted (NewLogger level env) (Run_log feeBPS e date d)"
  shows "((\<exists>l \<in> set out. llLevel l = LevelError) \<longleftrightarrow> (\<exists>r0. r = Some r0 \<and> rpSettlementSkipped r0))
    \<and> (\<forall>r0 c. r = Some r0 \<and> rpSettlementSkipped r0 \<and> c \<in> set (rpDiscrepancies r0) \<longrightarrow>
        discrepancy_line c \<in> set out
        \<and> (\<forall>txns t. ListCapturedBetween (rList e) (day_from date) (day_to date) d = Inr txns \<and> t \<in> set txns
             \<and> tMerchantID t = dcMerchantID c \<longrightarrow> offending_line t \<in> set out))"
  using assms(1)
proof (cases rule: Run_log_cases)
  case failed
  then show ?thesis by (simp add: assms(2) emitted_def)
next
  case (refused txns aggs unb r0)
  have "unb \<noteq> [] \<or> rpDiscrepancies r0 \<noteq> []"
    using refused(2,3) by (auto simp: Report_OK_def build_report_def Let_def)
  then have "\<exists>l \<in> set (map unbalanced_line unb @ map discrepancy_line (rpDiscrepancies r0)). llLevel l = LevelError"
    by (cases unb; cases "rpDiscrepancies r0") auto
  then have "\<exists>l \<in> set out. llLevel l = LevelError" unfolding assms(2) refused(5) emitted_def by auto
  moreover have "discrepancy_line c \<in> set out" if "c \<in> set (rpDiscrepancies r0)" for c
    using that unfolding assms(2) refused(5) by (auto intro: emitted_error)
  moreover have "offending_line t \<in> set out"
    if "c \<in> set (rpDiscrepancies r0)" "t \<in> set txns" "tMerchantID t = dcMerchantID c" for c t
    using that unfolding assms(2) refused(5) by (auto simp: offending_lines intro!: emitted_error)
  ultimately show ?thesis using refused(1,4) by auto
next
  case (settled r1)
  then show ?thesis by (auto simp: assms(2) emitted_def)
qed

text \<open>Even a logger of errors only names the transaction of the day whose fees do not agree.\<close>

theorem refusals_are_logged_witness:
  "\<exists>t \<in> set (dbTransactions demo_partial).
     offending_line t \<in> set (emitted (NewLogger ''ERROR'' ''production'') (Run_log 200 demo_run 0 demo_partial))"
proof -
  have "map_option (\<lambda>r. map dcMerchantID (rpDiscrepancies r)) (day_report 200 demo_run 0 demo_partial) = Some [''m1'']"
    by code_simp
  then obtain r c where r: "day_report 200 demo_run 0 demo_partial = Some r" "rpDiscrepancies r = [c]" "dcMerchantID c = ''m1''"
    by (auto simp: map_eq_Cons_conv)
  have q: "quiet demo_run" by (simp add: quiet_def demo_run_def)
  have "\<not> Report_OK r" using r(2) by (simp add: Report_OK_def)
  then obtain err where run: "Run 200 demo_run 0 demo_partial = ((Some (r\<lparr> rpSettlementSkipped := True \<rparr>), err), demo_partial)"
    using Run_quiet [OF q r(1)] by (auto simp: write_result_def)
  have "case ListCapturedBetween None (day_from 0) (day_to 0) demo_partial of
      Inr ts \<Rightarrow> ts = dbTransactions demo_partial \<and> map tMerchantID ts = [''m1''] | Inl err \<Rightarrow> False" by code_simp
  then have "ListCapturedBetween (rList demo_run) (day_from 0) (day_to 0) demo_partial = Inr (dbTransactions demo_partial)"
    "map tMerchantID (dbTransactions demo_partial) = [''m1'']"
    by (auto simp: demo_run_def split: sum.splits)
  moreover from this(2) obtain t where "t \<in> set (dbTransactions demo_partial)" "tMerchantID t = ''m1''"
    by (auto simp: map_eq_Cons_conv)
  ultimately show ?thesis using refusals_are_logged [OF run HOL.refl, of "''ERROR''" "''production''"] r(2,3) by auto
qed

end
