(* ===== verification/Outbox.thy ===== *)
theory Outbox
  imports Guarantees
begin

text \<open>
  The outbox pattern of \<open>queueWebhook\<close>: the notifications queued for a transaction are, at
  every moment, those of the money movements booked for it. Retried authorizations resume
  the row of the first attempt.
\<close>

section \<open>Counting announcements and bookings\<close>

definition announced :: "WebhookEvent \<Rightarrow> uuid \<Rightarrow> db \<Rightarrow> nat" where
  "announced event i d =
     length (filter (\<lambda>k. k = (i, event)) (map (\<lambda>w. (dTransactionID w, dEventType w)) (dbWebhooks d)))"

definition movements :: "EventType \<Rightarrow> uuid \<Rightarrow> ledger_entry list \<Rightarrow> nat" where
  "movements event i es =
     length (filter (\<lambda>e. eTransactionID e = i \<and> eEventType e = event \<and> eDirection e = Debit) es)"

definition outbox_inv :: "db \<Rightarrow> bool" where
  "outbox_inv d \<longleftrightarrow> (\<forall>i. announced EventPaymentCaptured i d = movements EventCapture i (dbLedger d)
     \<and> announced EventPaymentRefunded i d = movements EventRefund i (dbLedger d))"

lemma movements_simps [simp]:
  "movements event i [] = 0" "movements event i (xs @ ys) = movements event i xs + movements event i ys"
  by (simp_all add: movements_def)

lemma movements_unnumbered:
  assumes "map unnumbered xs = map unnumbered ys"
  shows "movements event i xs = movements event i ys"
proof -
  let ?P = "\<lambda>e. eTransactionID e = i \<and> eEventType e = event \<and> eDirection e = Debit"
  have c: "int (movements event i zs) = sum_where ?P (\<lambda>_. 1) zs" for zs
    by (induction zs) (simp_all add: movements_def)
  have "sum_where ?P (\<lambda>_. 1) xs = sum_where ?P (\<lambda>_. 1) ys"
    by (rule sum_where_unnumbered [OF assms]) simp_all
  then have "int (movements event i xs) = int (movements event i ys)" by (simp add: c)
  then show ?thesis by simp
qed

lemma announced_queued:
  "queued t event d d' \<Longrightarrow>
     announced ev i d' = announced ev i d + (if i = tID t \<and> ev = event then 1 else 0)"
  by (auto simp: queued_def announced_def)

text \<open>What a committed write books, in counts.\<close>

definition books_counts :: "WebhookEvent \<Rightarrow> uuid \<Rightarrow> ledger_entry list \<Rightarrow> bool" where
  "books_counts event j es \<longleftrightarrow> (\<forall>i.
     movements EventCapture i es = (if i = j \<and> event = EventPaymentCaptured then 1 else 0)
     \<and> movements EventRefund i es = (if i = j \<and> event = EventPaymentRefunded then 1 else 0))"

lemma outbox_row_commit:
  assumes "outbox_inv d" and "row_commit i oper es event t' d d'" and "books_counts event (tID t') es"
  shows "outbox_inv d'"
proof -
  from assms(2) obtain new where new: "dbLedger d' = dbLedger d @ new" "map unnumbered new = map unnumbered es"
    and q: "queued t' event d d'" by (auto simp: row_commit_def adds_entries_def)
  show ?thesis
    using assms(1,3) announced_queued [OF q] movements_unnumbered [OF new(2)] new(1)
    by (auto simp: outbox_inv_def books_counts_def)
qed

lemma outbox_frame:
  assumes "outbox_inv d" and "dbLedger d' = dbLedger d"
    and "map (\<lambda>w. (dTransactionID w, dEventType w)) (dbWebhooks d')
       = map (\<lambda>w. (dTransactionID w, dEventType w)) (dbWebhooks d)"
  shows "outbox_inv d'"
  using assms by (simp add: outbox_inv_def announced_def)

lemma books_counts_nothing:
  "event \<noteq> EventPaymentCaptured \<Longrightarrow> event \<noteq> EventPaymentRefunded \<Longrightarrow> books_counts event j []"
  by (simp add: books_counts_def)

lemma books_counts_capture:
  assumes "in64 a" and "NewCaptureEntryGroup g t a fee now = Inr grp"
  shows "books_counts EventPaymentCaptured (tID t) (gEntries grp)"
  using assms by (auto simp: NewCaptureEntryGroup_Inr capture_entries_def books_counts_def movements_def)

lemma books_counts_refund:
  assumes "NewRefundEntryGroup g t a now = Inr grp"
  shows "books_counts EventPaymentRefunded (tID t) (gEntries grp)"
  using assms by (auto simp: NewRefundEntryGroup_Inr books_counts_def movements_def)

lemma books_counts_payout: "books_counts EventPaymentSettled j (payout_entries fee g t now)"
  by (auto simp: payout_entries_def books_counts_def movements_def)

lemma capture_amount_in64:
  assumes "gw_inv fee d" and "row_commit i (Transaction_Capture a now) es event t' d d'"
  shows "in64 a"
proof -
  from assms(2) obtain r u where r: "row_of i d = Some r" "Transaction_Capture a now r = Inr u"
    by (auto simp: row_commit_def)
  have wf: "wf_txn r" using gw_invD(3) [OF assms(1)] row_of_Some [OF r(1)] by blast
  show ?thesis using r(2) wf wf_txn_bounds [OF wf] by (auto simp: Capture_Inr in64_def)
qed

lemma outbox_step:
  assumes st: "gw_step fee d d'" and inv: "gw_inv fee d" and ob: "outbox_inv d"
  shows "outbox_inv d'"
  using st
proof cases
  case (create i m r a c md now t f)
  then show ?thesis
    by (intro outbox_frame [OF ob]) (auto simp: TransactionRepo_Create_def split: option.splits if_splits)
next
  case (authorize x i res t')
  show ?thesis
    by (rule outbox_row_commit [OF ob authorize_commit [OF gw_invD(1) [OF inv] authorize]])
      (simp add: books_counts_nothing)
next
  case (failed x i code v)
  have c: "books_counts EventPaymentFailed j []" for j by (simp add: books_counts_nothing)
  from fail_commit [OF gw_invD(1) [OF inv] failed] show ?thesis
    using outbox_row_commit [OF ob _ c] ob by blast
next
  case (capture x m i amount t')
  from capture_commit [OF gw_invD(1) [OF inv] capture] obtain grp where
    grp: "NewCaptureEntryGroup (xGroupID x) t' amount (Fee amount fee) (xNow x) = Inr grp"
    and rc: "row_commit i (Transaction_Capture amount (xNow x)) (gEntries grp) EventPaymentCaptured t' d d'" by blast
  show ?thesis
    by (rule outbox_row_commit [OF ob rc books_counts_capture [OF capture_amount_in64 [OF inv rc] grp]])
next
  case (refund x m i amount t')
  from refund_commit [OF gw_invD(1) [OF inv] refund] show ?thesis
    using outbox_row_commit [OF ob] books_counts_refund by blast
next
  case (void x m i t')
  from void_commit [OF gw_invD(1) [OF inv] void]
  have "row_commit i (Transaction_Void (xNow x)) [] EventPaymentVoided t' d d'" by blast
  then show ?thesis by (rule outbox_row_commit [OF ob]) (simp add: books_counts_nothing)
next
  case (settle x i v)
  with settle_commit [OF gw_invD(1) [OF inv]] show ?thesis
    using outbox_row_commit [OF ob _ books_counts_payout] ob by metis
next
  case (merchant f m)
  then show ?thesis
    by (intro outbox_frame [OF ob]) (auto simp: MerchantRepo_Create_def split: option.splits if_splits)
next
  case (callback f dbnow i url)
  then show ?thesis
    by (intro outbox_frame [OF ob]) (auto simp: UpdateWebhook_def split: option.splits if_splits)
next
  case (claim f dbnow locked limit now ws)
  then show ?thesis
    by (intro outbox_frame [OF ob]) (auto simp: ClaimDue_Inr claimed_def)
next
  case (attempt f dbnow w)
  then show ?thesis
    by (intro outbox_frame [OF ob]) (auto simp: UpdateAttempt_def split: option.splits if_splits)
next
  case (release f dbnow age now n)
  then show ?thesis
    by (intro outbox_frame [OF ob]) (auto simp: ReleaseStale_def split: option.splits)
qed

definition outbox_start :: "db \<Rightarrow> bool" where
  "outbox_start d \<longleftrightarrow> gw_start d \<and> dbWebhooks d = []"

interpretation outboxes: invariant_system outbox_start "gw_step fee" "\<lambda>d. gw_inv fee d \<and> outbox_inv d" for fee
proof unfold_locales
  show "outbox_start s \<Longrightarrow> gw_inv fee s \<and> outbox_inv s" for s
    by (auto simp: outbox_start_def gw_start_inv outbox_inv_def announced_def gw_start_def)
  show "gw_step fee s t \<Longrightarrow> gw_inv fee s \<and> outbox_inv s \<Longrightarrow> gw_inv fee t \<and> outbox_inv t" for s t
    using gw_step_inv outbox_step by blast
qed

lemma find_by_key: "distinct (map k xs) \<Longrightarrow> x \<in> set xs \<Longrightarrow> find (\<lambda>y. k y = k x) xs = Some x"
  by (induction xs) (auto simp: image_iff)

section \<open>Properties\<close>

text \<open>
  C8. The outbox tells the whole story: in every reachable database, each transaction has
  exactly one queued \<open>payment.captured\<close> notification for every capture booked in the journal
  and one \<open>payment.refunded\<close> for every refund; none is missing and none announces a movement
  that was rolled back.
\<close>

theorem outbox_matches_journal:
  assumes "outbox_start d0" and "(gw_step fee)\<^sup>*\<^sup>* d0 d"
  shows "announced EventPaymentCaptured i d = movements EventCapture i (dbLedger d)
    \<and> announced EventPaymentRefunded i d = movements EventRefund i (dbLedger d)"
  using outboxes.reachable_inv [OF assms] by (simp add: outbox_inv_def)

theorem outbox_matches_journal_witness:
  "announced EventPaymentCaptured ''t1'' demo_captured = 1
   \<and> announced EventPaymentCaptured ''t1'' demo_captured = movements EventCapture ''t1'' (dbLedger demo_captured)"
proof -
  have s: "outbox_start demo_start" by (simp add: outbox_start_def demo_start_ok) (simp add: demo_start_def)
  have "announced EventPaymentCaptured ''t1'' demo_captured = 1" by code_simp
  with outbox_matches_journal [OF s rtranclp_trans [OF demo_authorized_run demo_captured_run], of "''t1''"]
  show ?thesis by simp
qed

text \<open>
  C21. A retry after an unknown outcome resumes the first attempt: if the merchant's reference
  belongs to a row that is still \<open>created\<close> with the same amount and currency, the
  authorization goes on with that row, and no second row is created; with another amount,
  another currency, or a row that has moved on, it is refused as a duplicate and the acquirer
  is not called.
\<close>

theorem retry_resumes_row:
  assumes "gw_inv fee d" and "r \<in> set (dbTransactions d)" and "aRetryGap a = id" and "aCreate a = None"
    and "aGetRef a = None" and "aiMerchantID inp = tMerchantID r" and "aiReference inp = tReference r"
    and "NewTransaction (aID a) (aiMerchantID inp) (aiReference inp) (aiAmount inp)
           (aiCurrency inp) (aiMetadata inp) (aNow a) = Inr t"
    and "row_of (aID a) d = None"
  shows "obtain_row a inp t d =
    (if tStatus r = StatusCreated \<and> tAmount r = aiAmount inp \<and> tCurrency r = aiCurrency inp then (Inr r, d)
     else (Inl (errorf ErrDuplicateReference ''reference''), d))"
proof -
  have t: "tID t = aID a" "tMerchantID t = tMerchantID r" "tReference t = tReference r" "txn_checks t"
    using assms(6-8) by (auto simp: NewTransaction_Inr txn_checks_def Status_Valid_def)
  have cr: "TransactionRepo_Create (aCreate a) t d = Inl (errorf ErrDuplicateReference ''reference'')"
    using t assms(2,4,9) by (auto simp: TransactionRepo_Create_def list_ex_iff row_of_None)
  have "GetByReference None (tMerchantID r) (tReference r) d = Inr r"
  proof -
    have "find (\<lambda>t. ref_key t = ref_key r) (dbTransactions d) = Some r"
      using gw_invD(2) [OF assms(1)] assms(2) by (rule find_by_key)
    then show ?thesis by (simp add: GetByReference_def scanTransaction_def ref_key_def)
  qed
  then show ?thesis using cr assms(3,5-7) by (simp add: obtain_row_def Let_def)
qed

definition demo_unavailable :: acquirer_port where
  "demo_unavailable = demo_acq\<lparr> acqAuthorize := (\<lambda>req. Inl (errorf ErrAcquirerUnavailable ''timeout'')) \<rparr>"

definition demo_pending :: db where
  "demo_pending = snd (Payment_Authorize 200 demo_unavailable demo_auth (demo_tx ''1'' 10) (demo_pre 11)
     (demo_tx ''2'' 12) (demo_in False) demo_start)"

theorem retry_resumes_row_witness:
  "\<exists>r t. dbTransactions demo_pending = [r] \<and> tStatus r = StatusCreated
     \<and> obtain_row (demo_auth\<lparr> aID := ''t2'' \<rparr>) (demo_in False) t demo_pending = (Inr r, demo_pending)"
proof -
  let ?a = "demo_auth\<lparr> aID := ''t2'' \<rparr>" let ?in = "demo_in False"
  have inv: "gw_inv 200 demo_pending"
    unfolding demo_pending_def
    by (rule gateway.reachable_inv [OF demo_start_ok], rule Payment_Authorize_run)
      (simp_all add: auth_gaps_ok_def demo_auth_def demo_pre_def demo_in_def in64_def)
  have "map (\<lambda>r. (tID r, tMerchantID r, tReference r, tStatus r, tAmount r, tCurrency r)) (dbTransactions demo_pending)
      = [(''t1'', ''m1'', ''ORDER-1'', StatusCreated, 150000, USD)]" by code_simp
  then obtain r where r: "dbTransactions demo_pending = [r]" "tID r = ''t1''" "tMerchantID r = ''m1''"
    "tReference r = ''ORDER-1''" "tStatus r = StatusCreated" "tAmount r = 150000" "tCurrency r = USD" by auto
  obtain t where t: "NewTransaction (aID ?a) (aiMerchantID ?in) (aiReference ?in) (aiAmount ?in)
      (aiCurrency ?in) (aiMetadata ?in) (aNow ?a) = Inr t"
    by (simp add: demo_in_def NewTransaction_def IsPositive_def Currency_Valid_iff)
  have "obtain_row ?a ?in t demo_pending = (Inr r, demo_pending)"
    using retry_resumes_row [OF inv _ _ _ _ _ _ t, of r] r
    by (simp add: row_of_None demo_auth_def demo_in_def)
  with r show ?thesis by blast
qed

end
