(* ===== verification/Recorder.thy ===== *)
theory Recorder
  imports Middleware
begin

text \<open>
  The response recorder and the access log of \<open>internal/transport/http/middleware_log.go\<close>. The
  rest of the HTTP layer treats the answer of a handler as one value; this theory goes down to
  the calls on the \<open>http.ResponseWriter\<close> and shows that this loses nothing: what the recorder
  remembers is what the client was sent, and what the idempotency middleware stores of it is the
  answer.
\<close>

section \<open>The writer of the server\<close>

text \<open>
  The calls a handler makes: a status, or bytes, of which the connection accepts a number. The
  server's writer sends the first status, 200 if bytes come first; an informational status is
  sent ahead and is not the status of the answer.
\<close>

datatype write_call = CallHeader int | CallBytes string nat

record client_view =
  cvStatus :: int
  cvBody :: string

definition new_view :: client_view where
  "new_view = \<lparr> cvStatus = 0, cvBody = [] \<rparr>"

definition net_WriteHeader :: "int \<Rightarrow> client_view \<Rightarrow> client_view" where
  "net_WriteHeader status v =
     (if cvStatus v \<noteq> 0 \<or> (100 \<le> status \<and> status \<le> 199 \<and> status \<noteq> 101) then v else v\<lparr> cvStatus := status \<rparr>)"

definition net_Write :: "string \<Rightarrow> nat \<Rightarrow> client_view \<Rightarrow> client_view" where
  "net_Write b n v = (let v = net_WriteHeader 200 v in v\<lparr> cvBody := cvBody v @ take n b \<rparr>)"

fun net_call :: "write_call \<Rightarrow> client_view \<Rightarrow> client_view" where
  "net_call (CallHeader status) v = net_WriteHeader status v"
| "net_call (CallBytes b n) v = net_Write b n v"

section \<open>The recorder\<close>

record responseRecorder =
  rrWriter :: client_view
  rrStatus :: int
  rrWritten :: int
  rrBody :: string
  rrCapture :: bool

definition recorder_WriteHeader :: "int \<Rightarrow> responseRecorder \<Rightarrow> responseRecorder" where
  "recorder_WriteHeader status c =
     (if rrStatus c = 0 then c\<lparr> rrStatus := status, rrWriter := net_WriteHeader status (rrWriter c) \<rparr> else c)"

definition recorder_Write :: "string \<Rightarrow> nat \<Rightarrow> responseRecorder \<Rightarrow> responseRecorder" where
  "recorder_Write b n c =
     (let c = (if rrStatus c = 0 then recorder_WriteHeader 200 c else c);
          c = (if rrCapture c then c\<lparr> rrBody := rrBody c @ b \<rparr> else c)
      in c\<lparr> rrWriter := net_Write b n (rrWriter c), rrWritten := rrWritten c + int (length (take n b)) \<rparr>)"

definition statusCode :: "responseRecorder \<Rightarrow> int" where
  "statusCode c = (if rrStatus c = 0 then 200 else rrStatus c)"

fun recorder_call :: "write_call \<Rightarrow> responseRecorder \<Rightarrow> responseRecorder" where
  "recorder_call (CallHeader status) c = recorder_WriteHeader status c"
| "recorder_call (CallBytes b n) c = recorder_Write b n c"

definition new_recorder :: "bool \<Rightarrow> responseRecorder" where
  "new_recorder capture =
     \<lparr> rrWriter = new_view, rrStatus = 0, rrWritten = 0, rrBody = [], rrCapture = capture \<rparr>"

section \<open>The recorder is faithful\<close>

fun final_call :: "write_call \<Rightarrow> bool" where
  "final_call (CallHeader status) \<longleftrightarrow> 200 \<le> status"
| "final_call (CallBytes b n) \<longleftrightarrow> True"

fun handed :: "write_call \<Rightarrow> string" where
  "handed (CallHeader status) = []"
| "handed (CallBytes b n) = b"

definition recorder_inv :: "responseRecorder \<Rightarrow> bool" where
  "recorder_inv c \<longleftrightarrow> rrStatus c = cvStatus (rrWriter c) \<and> rrWritten c = int (length (cvBody (rrWriter c)))"

lemma recorder_call_step:
  assumes "recorder_inv c" and "final_call k"
  shows "recorder_inv (recorder_call k c)" "rrWriter (recorder_call k c) = net_call k (rrWriter c)"
    "rrCapture (recorder_call k c) = rrCapture c"
    "rrBody (recorder_call k c) = rrBody c @ (if rrCapture c then handed k else [])"
  using assms
  by (cases k; auto simp: recorder_inv_def recorder_WriteHeader_def recorder_Write_def net_WriteHeader_def
      net_Write_def Let_def)+

lemma recorder_calls:
  assumes "recorder_inv c" and "list_all final_call ks"
  shows "recorder_inv (fold recorder_call ks c) \<and> rrWriter (fold recorder_call ks c) = fold net_call ks (rrWriter c)
    \<and> rrBody (fold recorder_call ks c) = rrBody c @ (if rrCapture c then concat (map handed ks) else [])"
  using assms by (induction ks arbitrary: c) (simp_all add: recorder_call_step)

text \<open>
  The recorder between a handler and the client is invisible and tells the truth. Whatever
  calls a handler makes on the writer, with final statuses, the client is sent exactly what it
  would be sent without the recorder; the recorded status is the one the client saw, or 200 when
  there was none; the count of bytes is what the connection accepted; and a capturing recorder
  holds every byte the handler handed over, also those the connection did not take.
\<close>

theorem recorder_faithful:
  assumes "list_all final_call ks" and "c = fold recorder_call ks (new_recorder capture)"
    and "v = fold net_call ks new_view"
  shows "rrWriter c = v \<and> statusCode c = (if cvStatus v = 0 then 200 else cvStatus v)
    \<and> rrWritten c = int (length (cvBody v)) \<and> (capture \<longrightarrow> rrBody c = concat (map handed ks))"
proof -
  have "recorder_inv (new_recorder capture)" by (simp add: recorder_inv_def new_recorder_def new_view_def)
  from recorder_calls [OF this assms(1)] show ?thesis
    by (cases capture) (simp_all add: assms(2,3) recorder_inv_def new_recorder_def statusCode_def)
qed

theorem recorder_faithful_witness:
  "rrBody (fold recorder_call [CallBytes ''{}'' 1, CallHeader 500] (new_recorder True)) = ''{}''
   \<and> cvBody (fold net_call [CallBytes ''{}'' 1, CallHeader 500] new_view) = ''{''
   \<and> statusCode (fold recorder_call [CallBytes ''{}'' 1, CallHeader 500] (new_recorder True)) = 200"
proof -
  have "list_all final_call [CallBytes ''{}'' 1, CallHeader 500]" by simp
  from recorder_faithful [OF this HOL.refl HOL.refl, of True] show ?thesis
    by (simp add: net_Write_def net_WriteHeader_def new_view_def)
qed

section \<open>Storing an answer\<close>

text \<open>\<open>writeJSON\<close> and the replay make two calls: the status, then the body at once.\<close>

definition answer_calls :: "response \<Rightarrow> nat \<Rightarrow> write_call list" where
  "answer_calls resp n = [CallHeader (rsStatus resp), CallBytes (rsBody resp) n]"

text \<open>The end of \<open>Idempotency\<close> in terms of its capturing recorder.\<close>

definition finish_recorded ::
  "'s idem_store \<Rightarrow> 's idem_env \<Rightarrow> string \<Rightarrow> string \<Rightarrow> string \<Rightarrow> responseRecorder \<Rightarrow> 's \<Rightarrow> 's" where
  "finish_recorded st e key fingerprint contentType c s =
     (let status = statusCode c
      in if status \<ge> 500 then snd (Release st (ieDone e) key s)
         else snd (Complete st (ieNow e) (ieDone e) key fingerprint status contentType (rrBody c) s))"

lemma recorded_answer:
  assumes "200 \<le> rsStatus resp"
  shows "statusCode (fold recorder_call (answer_calls resp n) (new_recorder True)) = rsStatus resp"
    and "rrBody (fold recorder_call (answer_calls resp n) (new_recorder True)) = rsBody resp"
  using assms by (simp_all add: answer_calls_def new_recorder_def recorder_WriteHeader_def recorder_Write_def
      statusCode_def Let_def)

text \<open>However much of the answer has reached the client, the whole answer is stored.\<close>

lemma finish_recorded_answer:
  assumes "200 \<le> rsStatus resp"
  shows "finish_recorded st e key fingerprint (header_Get (rsHeader resp) ''Content-Type'')
      (fold recorder_call (answer_calls resp n) (new_recorder True)) s
    = idem_finish st e key fingerprint (Answer resp) s"
  by (simp add: finish_recorded_def idem_finish_def recorded_answer [OF assms] Let_def)

section \<open>The access log\<close>

record access_line =
  alRequestID :: string
  alMethod :: string
  alPath :: string
  alStatus :: int
  alBytes :: int
  alMillis :: int

text \<open>
  One line per answered request; a panic passes through without one. \<open>n\<close> is the number of bytes
  the connection accepted.
\<close>

definition Logger ::
  "time \<Rightarrow> time \<Rightarrow> nat \<Rightarrow> 's handler \<Rightarrow> request \<Rightarrow> headers \<Rightarrow> 's world
     \<Rightarrow> (outcome \<times> 's world) \<times> access_line option" where
  "Logger start now n next r h w =
     (case next r h w of
        (Panic abort h', w) \<Rightarrow> ((Panic abort h', w), None)
      | (Answer resp, w) \<Rightarrow>
          (let c = fold recorder_call (answer_calls resp n) (new_recorder False)
           in ((Answer resp, w),
               Some \<lparr> alRequestID = hqRequestID r, alMethod = hqMethod r, alPath = hqPath r,
                      alStatus = statusCode c, alBytes = rrWritten c,
                      alMillis = time_Sub now start sdiv 1000000 \<rparr>)))"

text \<open>The log changes nothing, so the router can leave it out.\<close>

lemma Logger_transparent: "fst (Logger start now n next r h w) = next r h w"
  by (auto simp: Logger_def Let_def split: prod.splits outcome.splits)

end
