(* ===== verification/Spec2Isabelle.thy ===== *)
theory Spec2Isabelle
  imports Server Seed Columns Cards Logging Outbox Recorder Idem_Safety
begin

text \<open>
  A verification development for the mini payment gateway, a Go service that takes card payments
  for merchants, books every movement in a double-entry journal, tells the merchants by signed
  callbacks, and reconciles and settles each day. What follows is the guide to the development;
  every theory opens with a note on its own part.

  The program. \<open>cmd/api\<close> serves HTTP: the router sends a request through request identifier,
  panic recovery, authentication, rate limit and idempotency to a handler, which calls a service
  (\<open>internal/service\<close>). A service reads the row of the transaction, calls the card processor
  (\<open>internal/acquirer\<close>) without a lock, and commits in one database transaction that reads the
  row again under its lock, applies the state machine of \<open>internal/domain\<close>, updates the row
  under its version, writes the entry group and queues the notification. \<open>cmd/worker\<close> delivers
  the queue (\<open>internal/webhook\<close>) or reconciles and settles a day. \<open>cmd/seed\<close> writes sample
  payments. PostgreSQL holds the four tables, Redis the idempotency records and rate counters.

  The theories, in the order of their imports:
  \<^item> \<open>Prelude\<close>: Go's \<open>int64\<close>, \<open>strconv\<close>, \<open>strings\<close> and \<open>time\<close> as far as the program uses them,
    and the locale \<open>invariant_system\<close> of transition systems; \<open>Errors\<close>: \<open>internal/domain/errors.go\<close>
    and the error trees behind \<open>errors.Is\<close>; \<open>Base64\<close>: \<open>encoding/base64\<close> and \<open>encoding/hex\<close>.
  \<^item> \<open>Money\<close>, \<open>Txn\<close>, \<open>Journal\<close>, \<open>Merchant\<close>, \<open>Delivery\<close>: \<open>internal/money\<close> and \<open>internal/domain\<close>,
    one record per struct and one function per method. \<open>Txn\<close> states the contract
    \<open>lifecycle_operation\<close> that every operation of the state machine meets, \<open>Journal\<close> the contract
    \<open>entry_group_builder\<close> of the three constructors of entry groups.
  \<^item> \<open>Database\<close>, \<open>Ledger_Repo\<close>, \<open>Webhook_Repo\<close>: \<open>internal/repository\<close> over a record of tables with
    the constraints of \<open>migrations/\<close>; contracts \<open>versioned_store\<close>, \<open>append_only_journal\<close> and
    \<open>work_queue\<close>. \<open>Columns\<close>: the same statements as their SQL texts have them, over rows of column
    values with numbered parameters, \<open>NULLIF\<close>, \<open>COALESCE\<close> and the destinations of \<open>Scan\<close>.
  \<^item> \<open>Breaker\<close>, \<open>Acquirer\<close>: \<open>internal/acquirer\<close>, with the contract \<open>acquirer_contract\<close> of a port.
  \<^item> \<open>Payment\<close>, \<open>Reconciliation\<close>, \<open>Merchant_Service\<close>, \<open>Secrets\<close>: \<open>internal/service\<close> and
    \<open>internal/secrets\<close>. \<open>Report_Files\<close>: the report files of the two daily jobs, a CSV writer and
    the reader that gets the rows back.
  \<^item> \<open>Gateway\<close>: the abstract specification. \<open>gw_step\<close> has one rule per write that commits,
    \<open>gw_inv\<close> ties every row to its journal lines, and each service operation refines a sequence
    of steps. \<open>Guarantees\<close>, \<open>Settlement\<close>, \<open>Outbox\<close>: what follows for captures, refunds, payouts,
    notifications and the reconciliation. \<open>Logger\<close>:
    \<open>internal/app/logging.go\<close>; \<open>Payment_Log\<close> and \<open>Logging\<close>: the log lines of the payment service and
    of the reconciliation. \<open>Cards\<close>: the service put together with the guarded simulator, and what
    it keeps of a card.
  \<^item> \<open>Signer\<close>, \<open>Dispatcher\<close>, \<open>Dispatch\<close>: \<open>internal/webhook\<close>. \<open>Dispatch_Run\<close>: the goroutines of
    \<open>Dispatcher.Run\<close>, its channel and its shutdown, as the step relation \<open>run_step\<close>; the fields that
    only record what was claimed and what was handled are auxiliary.
  \<^item> \<open>Redis\<close>, \<open>Idempotency\<close>, \<open>Ratelimit\<close>: the server as a contract \<open>redis_server\<close> with an executable
    instance, \<open>internal/idempotency\<close> and \<open>internal/ratelimit\<close>.
  \<^item> \<open>Http\<close>, \<open>Middleware\<close>, \<open>Handlers\<close>, \<open>Router\<close>: \<open>internal/transport/http\<close>. \<open>Recorder\<close>:
    the wrappers of the response writer that the idempotency middleware and the access log use,
    call by call. \<open>Idem_Safety\<close>: mutual
    exclusion and replay of idempotent requests as a step relation over the Redis commands.
    \<open>Paging\<close>: the listings as a client sees them. \<open>Api\<close>: who may change what.
  \<^item> \<open>Config\<close>, \<open>Processes\<close>: \<open>internal/config\<close>, \<open>internal/app\<close>, \<open>internal/cache\<close> and the commands;
    \<open>sys_step\<close> is the system of all processes. \<open>Server\<close>: \<open>cmd/api/main.go\<close> from its start to its
    exit code, with the connections of the HTTP server, the signal and the shutdown as the step
    relation \<open>serve_step\<close>. \<open>Seed\<close>: the seeding command with the summary it prints. This theory: what
    holds of that system.

  Conventions. A Go string is a list of bytes, an \<open>int64\<close> an integer with its wrap-around written
  out, a time its distance in nanoseconds from the epoch, a UUID its canonical text. The records of
  the tables keep the nanoseconds; what whole microseconds in the columns change is shown in
  \<open>Columns\<close>. A function
  with an error result is a function into \<open>error + 'a\<close>; the text of a wrapping keeps its fixed part
  and leaves out interpolated identifiers and durations, which nothing inspects. What is not under
  \<open>src/\<close> is a parameter: the drivers' faults, the SHA-256 hash and the AEAD cipher, the JSON codecs,
  the UUID, time and float parsers, the random source, the clock, the card network, the
  multiplexer's own middleware. Hypotheses about them are named predicates on documented
  behaviour (\<open>aead_correct\<close>, \<open>redis_server\<close>, \<open>transparent\<close>), each met by an executable instance that
  the witnesses use.

  Concurrency. A database transaction is atomic: the row lock keeps other writers of its row out,
  and its other writes are insertions. Wherever an operation is outside a transaction, what other
  sessions commit meanwhile is an argument, a function on the database (a gap). The gaps of a
  statement are arbitrary sequences of gateway steps, so a statement covers every interleaving.
  A commit may fail and still have been applied. Redis commands are atomic, and a command that
  answers with an error may have taken effect.

  Loops. Loops over data are structural recursions. The client loop \<open>walk\<close> over the pages of a
  listing has fuel; more fuel than rows is enough, which \<open>paging_is_complete\<close> proves. The loops that
  run until they are cancelled are step relations (\<open>run_step\<close>, \<open>worker_run\<close>, \<open>serve_step\<close>).

  Not modelled: log lines other than those of the access log, the payment service with its guard,
  and the reconciliation, and how a handler of \<open>log/slog\<close> writes them out; the metrics of the connection pools and the size of the
  HTTP client's pool; how the operating system delivers a signal (it is a step); the library that
  runs migrations (a parameter of the command that calls it) and its SQL files, whose constraints
  are in \<open>Database\<close>; closing connections at exit; and constructors that only store their arguments.
\<close>

section \<open>The books of the whole system\<close>

text \<open>
  C1. Whatever the processes of the gateway do, in any order and under any interleaving, from a
  database without transactions: the journal books for every transaction exactly what its row
  says was captured and refunded, within the authorized amount; the fees booked are never
  negative and never above the fee of the whole; and the audit of the journal reports nothing.
\<close>

theorem system_books_agree:
  assumes "transparent (dpChi dp)" and "gw_start (wDB w0)" and "(sys_step dp)\<^sup>*\<^sup>* w0 w"
    and "row_of i (wDB w) = Some t"
  shows "captured_in i (dbLedger (wDB w)) = tCapturedAmount t \<and> refunded_in i (dbLedger (wDB w)) = tRefundedAmount t
    \<and> 0 \<le> tRefundedAmount t \<and> tRefundedAmount t \<le> tCapturedAmount t \<and> tCapturedAmount t \<le> tAmount t
    \<and> 0 \<le> fees_in i (dbLedger (wDB w))
    \<and> (fee_exact (tAmount t) (dpFeeBPS dp) \<longrightarrow>
         fees_in i (dbLedger (wDB w)) \<le> Fee (tCapturedAmount t) (dpFeeBPS dp))
    \<and> CheckInvariant None (wDB w) = Inr []"
  using reachable_books_agree [OF assms(2) sys_run_refines [OF assms(1,3)] assms(4)] .

definition demo_seed :: "(CreatedMerchant \<times> seed_stats \<times> Balance) result \<times> db" where
  "demo_seed = seed_run demo_aead 200 demo_acq (map_of [(''SEED_TRANSACTIONS'', ''1'')]) 0 demo_create
     demo_seed_env None None empty_db"

lemma demo_seed_row: "map_option tCapturedAmount (row_of ''t1'' (snd demo_seed)) = Some 60000"
proof -
  let ?inp = "\<lparr> ciName = ''Demo Store'', ciEmail = ''demo+'' @ show_int (0 div Second) @ ''@example.com'',
     ciWebhookURL = ''http://api:8080/internal/webhook-receiver'' \<rparr>"
  let ?st = "\<lparr> ssAuthorized = 0, ssCaptured = 0, ssRefunded = 0, ssVoided = 0 \<rparr>"
  obtain c d1 where c: "MerchantService_Create demo_aead demo_create ?inp empty_db = Inr (c, d1)" "mID (cmMerchant c) = ''m9''"
    using demo_create_ok [of ?inp] by (auto simp: ValidateMerchantInput_Inr hasHTTPScheme_def)
  have d1: "d1 = empty_db\<lparr> dbMerchants := [cmMerchant c] \<rparr>"
    using Create_Inr(5) [OF c(1)] by (simp add: MerchantRepo_Create_Inr empty_db_def)
  have row: "map_option tCapturedAmount (row_of ''t1'' (snd (seed_loop 200 demo_acq ''m9'' demo_seed_env [1..1] ?st
      (empty_db\<lparr> dbMerchants := [\<lparr> mID = ''m9'', mName = a1, mEmail = a2, mAPIKey = a3, mAPISecretEnc = a4,
        mWebhookURL = a5, mWebhookSecretEnc = a6, mStatus = a7, mCreatedAt = a8, mUpdatedAt = a9 \<rparr>] \<rparr>)))) = Some 60000"
    for a1 a2 a3 a4 a5 a6 a7 a8 a9 by code_simp
  have "map_option tCapturedAmount (row_of ''t1'' (snd (seed_loop 200 demo_acq ''m9'' demo_seed_env [1..1] ?st d1))) = Some 60000"
    using row c(2) d1 by (cases "cmMerchant c") simp
  moreover have "ParseInt ''1'' = Some 1" by (simp add: ParseInt_def parse_nat_def is_digit_def in64_def)
  ultimately show ?thesis
    using c by (simp add: demo_seed_def seed_run_def env_def Let_def case_prod_beta)
qed

text \<open>The world after the seed has run on an empty database.\<close>

definition demo_world0 :: "server world" where
  "demo_world0 = \<lparr> wRedis = demo_server, wDB = empty_db \<rparr>"

lemma demo_sys_step: "(sys_step demo_deps)\<^sup>*\<^sup>* demo_world0 (demo_world0\<lparr> wDB := snd demo_seed \<rparr>)"
proof -
  have "dpCipher demo_deps = demo_aead" "wDB demo_world0 = empty_db"
    by (simp_all add: demo_deps_def demo_world0_def)
  with sys_step.seed [of demo_deps demo_seed_env demo_world0] demo_gaps demo_ok(3) show ?thesis
    by (auto simp: demo_seed_def intro!: r_into_rtranclp)
qed

lemma demo_world0_start: "gw_start (wDB demo_world0)"
  by (simp add: demo_world0_def gw_start_def empty_db_def)

lemma demo_seeded: obtains t where "row_of ''t1'' (wDB (demo_world0\<lparr> wDB := snd demo_seed \<rparr>)) = Some t"
    "tCapturedAmount t = 60000"
  using demo_seed_row by (auto simp: demo_world0_def)

theorem system_books_agree_witness:
  "captured_in ''t1'' (dbLedger (snd demo_seed)) = 60000 \<and> CheckInvariant None (snd demo_seed) = Inr []"
proof -
  obtain t where t: "row_of ''t1'' (wDB (demo_world0\<lparr> wDB := snd demo_seed \<rparr>)) = Some t" "tCapturedAmount t = 60000"
    by (rule demo_seeded)
  from system_books_agree [OF demo_ok(1) demo_world0_start demo_sys_step t(1)] t(2) show ?thesis by simp
qed

text \<open>
  C2. Every process refines the gateway: what any number of requests, polls, deliveries,
  reconciliation runs and seeds do to the database, each with any faults of its drivers and
  any interleaving of the others, is some sequence of the atomic steps of the gateway.
\<close>

theorem system_refines_steps:
  assumes "transparent (dpChi dp)" and "(sys_step dp)\<^sup>*\<^sup>* w w'"
  shows "(gw_step (dpFeeBPS dp))\<^sup>*\<^sup>* (wDB w) (wDB w')"
  using sys_run_refines [OF assms] .

theorem system_refines_steps_witness: "(gw_step 200)\<^sup>*\<^sup>* empty_db (snd demo_seed)"
  using system_refines_steps [OF demo_ok(1) demo_sys_step] by (simp add: demo_ok(3) demo_world0_def)

text \<open>
  C19. Every stored row is well formed at all times: identifiers and the references of a
  merchant are unique, amounts are 64-bit numbers with refunded at most captured at most
  authorized, the status is one of the seven and agrees with the time stamps, and every line
  of the journal has a positive amount and belongs to a stored transaction of the same
  merchant and currency.
\<close>

theorem system_rows_well_formed:
  assumes "transparent (dpChi dp)" and "gw_start (wDB w0)" and "(sys_step dp)\<^sup>*\<^sup>* w0 w"
  shows "distinct (map tID (dbTransactions (wDB w))) \<and> distinct (map ref_key (dbTransactions (wDB w)))
    \<and> (\<forall>t \<in> set (dbTransactions (wDB w)). wf_txn t)
    \<and> (\<forall>e \<in> set (dbLedger (wDB w)). entry_owned (dbTransactions (wDB w)) e)"
  using gateway.reachable_inv [OF assms(2) sys_run_refines [OF assms(1,3)]]
  by (simp add: gw_inv_def distinct_rows_def)

theorem system_rows_well_formed_witness:
  "\<exists>t. row_of ''t1'' (snd demo_seed) = Some t \<and> wf_txn t \<and> tCapturedAmount t = 60000"
proof -
  obtain t where t: "row_of ''t1'' (wDB (demo_world0\<lparr> wDB := snd demo_seed \<rparr>)) = Some t" "tCapturedAmount t = 60000"
    by (rule demo_seeded)
  with system_rows_well_formed [OF demo_ok(1) demo_world0_start demo_sys_step] row_of_Some [OF t(1)]
  show ?thesis by (auto simp: demo_world0_def)
qed

section \<open>Requests without credentials\<close>

text \<open>
  A request that carries neither an admin token nor a complete signature is harmless: with
  any configuration the API starts with, it changes nothing in Redis or the database.
\<close>

theorem anonymous_request_harmless:
  assumes start: "api_start ps e dr rc g pa chi = Inr dp" and "transparent chi"
    and "header_Get (hqHeader r) ''Authorization'' = []"
    and "header_Get (hqHeader r) ''X-Api-Key'' = [] \<or> header_Get (hqHeader r) ''X-Timestamp'' = []
         \<or> header_Get (hqHeader r) ''X-Signature'' = []"
  shows "snd (NewRouter dp q r h w) = w"
proof (rule ccontr)
  assume change: "snd (NewRouter dp q r h w) \<noteq> w"
  from start have dp: "dpChi dp = chi" "dpAdminToken dp \<noteq> []"
    by (auto simp: api_start_def andThen_Inr RequireAdminToken_def split: if_splits option.splits)
  have "\<not> admin_request dp r"
    using assms(3) dp(2) by (simp add: admin_request_def TrimPrefix_def HasPrefix_def)
  moreover have "\<not> merchant_request dp q r d m" for d m
    using assms(4) by (auto simp: merchant_request_def Authenticate_Inr signed_of_def)
  ultimately show False
    using effect_credentials [OF _ HOL.refl change] dp(1) assms(2) by (auto split: if_splits)
qed

theorem anonymous_request_harmless_witness:
  "\<exists>dp. api_start demo_parsers demo_environ demo_drivers demo_codec demo_goose demo_parts id = Inr dp
     \<and> snd (NewRouter dp demo_qenv (demo_http ''POST'' ''/api/v1/merchants'' []) [] demo_world0) = demo_world0"
proof -
  obtain dp where dp: "api_start demo_parsers demo_environ demo_drivers demo_codec demo_goose demo_parts id = Inr dp"
    by (rule demo_api)
  have "header_Get (hqHeader (demo_http ''POST'' ''/api/v1/merchants'' [])) k = []" for k
    by (simp add: demo_http_def header_Get_def)
  with anonymous_request_harmless [OF dp] dp show ?thesis by (auto simp: transparent_def)
qed

section \<open>The sample data\<close>

lemma balance_error_wrapped: "LedgerService_Balance f m cur d \<noteq> Inl (Opaque msg)"
  by (auto simp: LedgerService_Balance_def LedgerRepo_Balance_def scan_int64_def Invalid_def wrapf_def Let_def
      split: option.splits)

text \<open>
  The seed never reports unbalanced books: on a database the gateway has reached, whatever
  fails on the way, its final audit finds nothing.
\<close>

theorem seed_is_clean:
  assumes "gw_start d0" and "(gw_step fee)\<^sup>*\<^sup>* d0 d" and "seed_gaps_ok fee es"
  shows "fst (seed_run A fee acq e now c es fb fc d)
    \<noteq> Inl (Opaque ''seed produced unbalanced ledger entry groups'')"
proof
  assume bad: "fst (seed_run A fee acq e now c es fb fc d) = Inl (Opaque ''seed produced unbalanced ledger entry groups'')"
  let ?d' = "snd (seed_run A fee acq e now c es fb fc d)"
  have "gw_inv fee ?d'"
    using gateway.reachable_inv [OF assms(1) rtranclp_trans [OF assms(2) seed_run_steps [OF assms(3)]]] .
  then have "FindUnbalancedGroups None ?d' = Inr []" using gw_invD(6) FindUnbalancedGroups_Nil by blast
  then have audit: "CheckInvariant fc ?d' = (case fc of None \<Rightarrow> Inr [] | Some err \<Rightarrow> Inl (wrapf ''find unbalanced groups'' err))"
    by (cases fc) (auto simp: CheckInvariant_def FindUnbalancedGroups_def)
  show False using bad audit
    by (auto simp: seed_run_def Let_def wrapf_def andThen_def case_prod_beta balance_error_wrapped
        split: option.splits sum.splits if_splits)
qed

theorem seed_is_clean_witness:
  "fst demo_seed \<noteq> Inl (Opaque ''seed produced unbalanced ledger entry groups'')"
  using seed_is_clean [OF demo_world0_start rtranclp.rtrancl_refl demo_gaps]
  by (simp add: demo_seed_def demo_world0_def)

end
